theory Spec2Isabelle
  imports Main "HOL-Library.List_Lexorder" "HOL-Library.Char_ord" "HOL-Library.Product_Lexorder"
begin

section \<open>Calendar dates and wall-clock datetimes\<close>

text \<open>
  The report window is computed with Python's \<^verbatim>\<open>datetime\<close> module. A \<^verbatim>\<open>date\<close> is a
  triple of year, month and day in the proleptic Gregorian calendar, a \<^verbatim>\<open>datetime\<close> extends it
  with the time of day, and a \<^verbatim>\<open>timedelta\<close> is a number of microseconds. Adding a
  \<^verbatim>\<open>timedelta\<close> to an aware \<^verbatim>\<open>datetime\<close> moves the wall-clock reading and keeps the
  zone; \<^verbatim>\<open>astimezone(timezone.utc)\<close> subtracts the zone's offset at that reading.

  Python restricts years to 1..9999, that is ordinals 1..3652059, and raises
  \<^verbatim>\<open>OverflowError\<close> when arithmetic on a \<^verbatim>\<open>datetime\<close> leaves that range; the operations
  below that can leave it return an \<open>error\<close> then.
\<close>

text \<open>
  The exceptions the modelled code can raise, as values. \<open>ZoneInfoNotFoundError\<close> is what
  \<^verbatim>\<open>ZoneInfo(name)\<close> raises for a well-formed name that is not in the zone database (for a
  malformed one it raises \<open>ValueError\<close>), \<open>OSError\<close> stands for a failed write of an
  exported document, \<open>HTTPException\<close> carries the status and the error code.
\<close>

datatype error =
    TypeError | ValueError | OverflowError | OSError | ZoneInfoNotFoundError
  | HTTPException nat string

record date =
  year :: int
  month :: int
  day :: int

record naive_datetime = date +
  hour :: int
  minute :: int
  second :: int
  microsecond :: int

type_synonym timedelta = int

type_synonym instant = int

text \<open>
  A zone gives its UTC offset (a \<^verbatim>\<open>timedelta\<close>) at a wall-clock reading; the reading is
  passed as the number of microseconds since the start of ordinal day 0 (\<open>wall_clock\<close> below).
\<close>

type_synonym tzinfo = "int \<Rightarrow> timedelta"

definition td_days :: "int \<Rightarrow> timedelta" where
  "td_days n = n * 86400000000"

definition td_minutes :: "int \<Rightarrow> timedelta" where
  "td_minutes n = n * 60000000"

definition td_hours :: "int \<Rightarrow> timedelta" where
  "td_hours n = n * 3600000000"

definition is_leap :: "int \<Rightarrow> bool" where
  "is_leap y = (y mod 4 = 0 \<and> (y mod 100 \<noteq> 0 \<or> y mod 400 = 0))"

definition days_in_month :: "int \<Rightarrow> int \<Rightarrow> int" where
  "days_in_month y m =
     (if m = 2 \<and> is_leap y then 29
      else if m = 2 then 28
      else if m = 4 \<or> m = 6 \<or> m = 9 \<or> m = 11 then 30
      else 31)"

definition days_before_year :: "int \<Rightarrow> int" where
  "days_before_year y = (let p = y - 1 in p * 365 + p div 4 - p div 100 + p div 400)"

definition days_before_month :: "int \<Rightarrow> int \<Rightarrow> int" where
  "days_before_month y m =
     (if m = 1 then 0 else if m = 2 then 31 else if m = 3 then 59 else if m = 4 then 90
      else if m = 5 then 120 else if m = 6 then 151 else if m = 7 then 181
      else if m = 8 then 212 else if m = 9 then 243 else if m = 10 then 273
      else if m = 11 then 304 else 334)
       + (if m > 2 \<and> is_leap y then 1 else 0)"

text \<open>\<^verbatim>\<open>date.toordinal\<close>: 1 for 0001-01-01.\<close>

definition ymd2ord :: "'a date_scheme \<Rightarrow> int" where
  "ymd2ord d = days_before_year (year d) + days_before_month (year d) (month d) + day d"

text \<open>What the constructor of \<^verbatim>\<open>date\<close> accepts for month and day.\<close>

definition valid_date :: "'a date_scheme \<Rightarrow> bool" where
  "valid_date d =
     (1 \<le> month d \<and> month d \<le> 12 \<and> 1 \<le> day d \<and> day d \<le> days_in_month (year d) (month d))"

definition next_day :: "'a date_scheme \<Rightarrow> 'a date_scheme" where
  "next_day d =
     (if day d < days_in_month (year d) (month d) then d\<lparr>day := day d + 1\<rparr>
      else if month d < 12 then d\<lparr>month := month d + 1, day := 1\<rparr>
      else d\<lparr>year := year d + 1, month := 1, day := 1\<rparr>)"

text \<open>
  \<^verbatim>\<open>d + timedelta(days=n)\<close> for \<open>n \<ge> 0\<close>: the date \<open>n\<close> days later, the time of day
  unchanged. Python computes it through the ordinal; \<open>ymd2ord_add_days\<close> below shows that
  stepping day by day gives the date with that ordinal.
\<close>

fun add_days :: "'a date_scheme \<Rightarrow> nat \<Rightarrow> 'a date_scheme" where
  "add_days d 0 = d"
| "add_days d (Suc n) = add_days (next_day d) n"

definition time_min_combine :: "date \<Rightarrow> naive_datetime" where
  "time_min_combine d =
     \<lparr>year = year d, month = month d, day = day d,
      hour = 0, minute = 0, second = 0, microsecond = 0\<rparr>"

text \<open>The wall-clock reading as microseconds since the start of ordinal day 0.\<close>

definition wall_clock :: "naive_datetime \<Rightarrow> int" where
  "wall_clock t =
     (((ymd2ord t * 24 + hour t) * 60 + minute t) * 60 + second t) * 1000000 + microsecond t"

text \<open>\<^verbatim>\<open>date.max.toordinal()\<close>, the ordinal of 9999-12-31.\<close>

definition max_ordinal :: int where
  "max_ordinal = 3652059"

text \<open>
  \<^verbatim>\<open>d + timedelta(days=n)\<close> as \<^verbatim>\<open>datetime.__add__\<close> computes it: the date \<open>n\<close> days later when
  its ordinal is in \<open>1..max_ordinal\<close>, else \<^verbatim>\<open>OverflowError\<close>.
\<close>

definition date_add_days :: "'a date_scheme \<Rightarrow> nat \<Rightarrow> error + 'a date_scheme" where
  "date_add_days d n =
     (if 0 < ymd2ord d + int n \<and> ymd2ord d + int n \<le> max_ordinal then Inr (add_days d n)
      else Inl OverflowError)"

definition tz_fixed :: "timedelta \<Rightarrow> tzinfo" where
  "tz_fixed off w = off"

text \<open>\<^verbatim>\<open>timezone.utc\<close>, also what \<^verbatim>\<open>ZoneInfo("UTC")\<close> is taken to give.\<close>

definition tz_utc :: tzinfo where
  "tz_utc = tz_fixed 0"

text \<open>\<^verbatim>\<open>datetime.max.replace(tzinfo=timezone.utc)\<close>.\<close>

definition datetime_max :: instant where
  "datetime_max =
     wall_clock \<lparr>year = 9999, month = 12, day = 31,
                 hour = 23, minute = 59, second = 59, microsecond = 999999\<rparr>"

text \<open>\<^verbatim>\<open>datetime.min.replace(tzinfo=timezone.utc)\<close>.\<close>

definition datetime_min :: instant where
  "datetime_min =
     wall_clock \<lparr>year = 1, month = 1, day = 1,
                 hour = 0, minute = 0, second = 0, microsecond = 0\<rparr>"

text \<open>The readings a \<^verbatim>\<open>datetime\<close> can hold.\<close>

definition representable :: "int \<Rightarrow> bool" where
  "representable i = (datetime_min \<le> i \<and> i \<le> datetime_max)"

text \<open>
  The instant on the UTC scale of the aware datetime with wall-clock reading \<open>t\<close> in zone
  \<open>tz\<close>: the reading minus the zone's offset there.
\<close>

definition utc_of :: "tzinfo \<Rightarrow> naive_datetime \<Rightarrow> instant" where
  "utc_of tz t = wall_clock t - tz (wall_clock t)"

text \<open>
  \<^verbatim>\<open>t.astimezone(timezone.utc)\<close> for \<open>t\<close> aware in zone \<open>tz\<close>: Python computes
  \<^verbatim>\<open>t - t.utcoffset()\<close>, which raises \<^verbatim>\<open>OverflowError\<close> when the result is not a reading a
  \<^verbatim>\<open>datetime\<close> can hold.
\<close>

definition astimezone_utc :: "tzinfo \<Rightarrow> naive_datetime \<Rightarrow> error + instant" where
  "astimezone_utc tz t =
     (if representable (utc_of tz t) then Inr (utc_of tz t) else Inl OverflowError)"

section \<open>ReportService: the window\<close>

text \<open>
  \<^verbatim>\<open>ReportService._calculate_window(report_type, report_date, tz)\<close>. The reading of the clock
  in the zone, \<^verbatim>\<open>datetime.now(timezone.utc).astimezone(tz)\<close>, is the argument \<open>now_local\<close>.
  An exception of the day arithmetic or of a conversion to UTC leaves the function.
\<close>

definition calculate_window ::
  "string \<Rightarrow> date option \<Rightarrow> tzinfo \<Rightarrow> naive_datetime
   \<Rightarrow> error + (instant \<times> instant \<times> naive_datetime)" where
  "calculate_window report_type report_date tz now_local =
     (let anchor = (case report_date of
                      Some d \<Rightarrow> time_min_combine d
                    | None \<Rightarrow> now_local\<lparr>hour := 0, minute := 0, second := 0, microsecond := 0\<rparr>);
          local_bounds =
            (if report_type = ''weekly'' then
               (case date_add_days anchor 7 of
                  Inl e \<Rightarrow> Inl e
                | Inr window_end_local \<Rightarrow> Inr (anchor, window_end_local))
             else if report_type = ''monthly'' then
               (let window_start_local = anchor\<lparr>day := 1\<rparr>
                in case date_add_days window_start_local 32 of
                     Inl e \<Rightarrow> Inl e
                   | Inr later \<Rightarrow> Inr (window_start_local, later\<lparr>day := 1\<rparr>))
             else
               (case date_add_days anchor 1 of
                  Inl e \<Rightarrow> Inl e
                | Inr window_end_local \<Rightarrow> Inr (anchor, window_end_local)))
      in case local_bounds of
           Inl e \<Rightarrow> Inl e
         | Inr (window_start_local, window_end_local) \<Rightarrow>
             (case astimezone_utc tz window_start_local of
                Inl e \<Rightarrow> Inl e
              | Inr window_start \<Rightarrow>
                  (case astimezone_utc tz window_end_local of
                     Inl e \<Rightarrow> Inl e
                   | Inr window_end \<Rightarrow> Inr (window_start, window_end, window_start_local))))"

text \<open>
  Day 1 of the month after that of \<open>d\<close>, written without any day arithmetic: what the
  monthly window is measured against.
\<close>

definition first_of_next_month :: "'a date_scheme \<Rightarrow> 'a date_scheme" where
  "first_of_next_month d =
     (if month d = 12 then d\<lparr>year := year d + 1, month := 1, day := 1\<rparr>
      else d\<lparr>month := month d + 1, day := 1\<rparr>)"

text \<open>
  The window in words, for the statement about \<open>calculate_window\<close>. The anchor is the
  midnight of the requested date, or of today in the zone when no date is requested. The
  local start is the anchor, for the monthly report day 1 of the anchor's month; the local
  end is the anchor 7 days or 1 day later, for the monthly report day 1 of the following
  month.
\<close>

definition window_anchor :: "date option \<Rightarrow> naive_datetime \<Rightarrow> naive_datetime" where
  "window_anchor report_date now_local =
     (case report_date of
        Some d \<Rightarrow> time_min_combine d
      | None \<Rightarrow> now_local\<lparr>hour := 0, minute := 0, second := 0, microsecond := 0\<rparr>)"

definition local_start :: "string \<Rightarrow> naive_datetime \<Rightarrow> naive_datetime" where
  "local_start report_type anchor =
     (if report_type = ''monthly'' then anchor\<lparr>day := 1\<rparr> else anchor)"

definition local_end :: "string \<Rightarrow> naive_datetime \<Rightarrow> naive_datetime" where
  "local_end report_type anchor =
     (if report_type = ''weekly'' then add_days anchor 7
      else if report_type = ''monthly'' then first_of_next_month anchor
      else add_days anchor 1)"

text \<open>
  When Python computes the window: the number of days that the code adds to the local
  start (32 for the monthly report) must not lead past the last ordinal, and both bounds,
  converted to UTC, must be readings that a \<^verbatim>\<open>datetime\<close> can hold.
\<close>

definition days_added :: "string \<Rightarrow> nat" where
  "days_added report_type =
     (if report_type = ''weekly'' then 7 else if report_type = ''monthly'' then 32 else 1)"

definition window_in_range :: "string \<Rightarrow> tzinfo \<Rightarrow> naive_datetime \<Rightarrow> bool" where
  "window_in_range report_type tz anchor =
     (0 < ymd2ord (local_start report_type anchor) + int (days_added report_type)
      \<and> ymd2ord (local_start report_type anchor) + int (days_added report_type) \<le> max_ordinal
      \<and> representable (utc_of tz (local_start report_type anchor))
      \<and> representable (utc_of tz (local_end report_type anchor)))"

section \<open>Tasks, users and the completion predicate\<close>

text \<open>
  The ORM rows, with the columns the services read. The timestamp columns are declared
  \<^verbatim>\<open>DateTime(timezone=True)\<close>: their values are aware datetimes, modelled as instants.
  The primary key \<^verbatim>\<open>id\<close> of each table is prefixed with the table's initial.
\<close>

record task =
  t_id :: int
  user_id :: "int option"
  organization_id :: "int option"
  project_id :: "int option"
  title :: string
  due_at :: "instant option"
  end_at :: "instant option"
  status :: "string option"
  priority :: "string option"
  created_at :: instant

record task_assignment =
  ta_task_id :: int
  assigned_team_id :: "int option"

record project =
  p_id :: int
  team_id :: "int option"

text \<open>
  \<^verbatim>\<open>str.lower\<close> on the ASCII letters. Of the code points outside ASCII only U+212A and
  U+0130 lower to a string that contains an ASCII letter (k and i), neither of which occurs
  in the three status words below, so membership in that set is decided by the ASCII part.
\<close>

definition ascii_uppercase :: string where
  "ascii_uppercase = ''ABCDEFGHIJKLMNOPQRSTUVWXYZ''"

definition ascii_lowercase :: string where
  "ascii_lowercase = ''abcdefghijklmnopqrstuvwxyz''"

definition is_ascii_upper :: "char \<Rightarrow> bool" where
  "is_ascii_upper c = (c \<in> set ascii_uppercase)"

definition lower_char :: "char \<Rightarrow> char" where
  "lower_char c = (case map_of (zip ascii_uppercase ascii_lowercase) c of Some l \<Rightarrow> l | None \<Rightarrow> c)"

definition py_lower :: "string \<Rightarrow> string" where
  "py_lower s = map lower_char s"

text \<open>\<^verbatim>\<open>x or ""\<close> for an optional string.\<close>

definition or_empty :: "string option \<Rightarrow> string" where
  "or_empty x = (case x of None \<Rightarrow> [] | Some s \<Rightarrow> s)"

text \<open>\<^verbatim>\<open>ReportService._is_completed\<close>.\<close>

definition is_completed :: "task \<Rightarrow> bool" where
  "is_completed t =
     (let status = py_lower (or_empty (status t))
      in status \<in> {''done'', ''completed'', ''resolved''} \<or> end_at t \<noteq> None)"

text \<open>
  Equality of two strings up to the case of ASCII letters, stated letter by letter and
  without \<open>py_lower\<close>: what ``compared case-insensitively'' means.
\<close>

definition same_letter :: "char \<Rightarrow> char \<Rightarrow> bool" where
  "same_letter c d =
     (c = d \<or> (is_ascii_upper c \<and> d = lower_char c) \<or> (is_ascii_upper d \<and> c = lower_char d))"

definition is_ascii_lower :: "char \<Rightarrow> bool" where
  "is_ascii_lower c = (c \<in> set ascii_lowercase)"

definition equal_ignoring_case :: "string \<Rightarrow> string \<Rightarrow> bool" where
  "equal_ignoring_case s w = list_all2 same_letter s w"

section \<open>ReportService: counts and organisation metrics\<close>

record report_counts =
  total_count :: int
  completed :: int
  overdue :: int

text \<open>\<^verbatim>\<open>task.due_at and task.due_at < now_utc\<close>.\<close>

definition due_before :: "instant \<Rightarrow> task \<Rightarrow> bool" where
  "due_before now_utc t = (case due_at t of None \<Rightarrow> False | Some d \<Rightarrow> d < now_utc)"

text \<open>
  \<^verbatim>\<open>ReportService._compute_counts\<close>: one pass of the loop body, and the loop from the zero
  counters. The clock reading \<^verbatim>\<open>datetime.now(timezone.utc)\<close> is the argument \<open>now_utc\<close>.
\<close>

definition count_task :: "instant \<Rightarrow> report_counts \<Rightarrow> task \<Rightarrow> report_counts" where
  "count_task now_utc c t =
     (let c = c\<lparr>total_count := total_count c + 1\<rparr>
      in if is_completed t then c\<lparr>completed := completed c + 1\<rparr>
         else if due_before now_utc t then c\<lparr>overdue := overdue c + 1\<rparr>
         else c)"

definition compute_counts :: "instant \<Rightarrow> task list \<Rightarrow> report_counts" where
  "compute_counts now_utc tasks =
     foldl (count_task now_utc) \<lparr>total_count = 0, completed = 0, overdue = 0\<rparr> tasks"

record trend_point =
  period :: string
  tp_overdue :: int

text \<open>
  \<^verbatim>\<open>OrgMetrics\<close>. The field \<^verbatim>\<open>completion_rate\<close> is a float,
  \<^verbatim>\<open>round(completed / throughput * 100, 1)\<close> or 0.0 for no task; floating-point arithmetic
  is outside the model, so the field carries the two integers it is computed from.
\<close>

record org_metrics =
  throughput :: int
  completion_rate :: "int \<times> int"
  overdue_trend :: "trend_point list"
  active_users :: int

text \<open>\<^verbatim>\<open>overdue_by_period[period_key] += 1\<close> on a \<^verbatim>\<open>defaultdict(int)\<close>, kept in insertion order.\<close>

fun dict_incr :: "string \<Rightarrow> (string \<times> int) list \<Rightarrow> (string \<times> int) list" where
  "dict_incr k [] = [(k, 1)]"
| "dict_incr k ((k', n) # ps) = (if k' = k then (k', n + 1) # ps else (k', n) # dict_incr k ps)"

record metrics_acc =
  acc_throughput :: int
  acc_completed :: int
  acc_overdue_by_period :: "(string \<times> int) list"
  acc_active_users :: "int list"

text \<open>
  \<^verbatim>\<open>ReportService._compute_org_metrics\<close>. The date formatter of the localization layer
  (\<^verbatim>\<open>format_date(value, locale, tz, fmt)\<close>, Babel underneath) is the argument \<open>format_date\<close>.
  A user id counts as active when it is truthy: present and not 0.
\<close>

definition metrics_task ::
  "(instant \<Rightarrow> string \<Rightarrow> tzinfo \<Rightarrow> string \<Rightarrow> string) \<Rightarrow> tzinfo \<Rightarrow> string \<Rightarrow>
   metrics_acc \<Rightarrow> task \<Rightarrow> metrics_acc" where
  "metrics_task format_date tz locale a t =
     (let a = a\<lparr>acc_throughput := acc_throughput a + 1\<rparr>;
          a = (case user_id t of
                 Some u \<Rightarrow> if u \<noteq> 0 then a\<lparr>acc_active_users := List.insert u (acc_active_users a)\<rparr> else a
               | None \<Rightarrow> a)
      in if is_completed t then a\<lparr>acc_completed := acc_completed a + 1\<rparr>
         else (case due_at t of
                 Some d \<Rightarrow>
                   (let period_key = format_date d locale tz ''medium''
                    in a\<lparr>acc_overdue_by_period := dict_incr period_key (acc_overdue_by_period a)\<rparr>)
               | None \<Rightarrow> a))"

definition compute_org_metrics ::
  "(instant \<Rightarrow> string \<Rightarrow> tzinfo \<Rightarrow> string \<Rightarrow> string) \<Rightarrow> task list \<Rightarrow> tzinfo \<Rightarrow> string \<Rightarrow>
   org_metrics" where
  "compute_org_metrics format_date tasks tz locale =
     (let a = foldl (metrics_task format_date tz locale)
                \<lparr>acc_throughput = 0, acc_completed = 0, acc_overdue_by_period = [],
                 acc_active_users = []\<rparr> tasks;
          trend = map (\<lambda>(period, count). \<lparr>period = period, tp_overdue = count\<rparr>)
                    (sort_key fst (acc_overdue_by_period a))
      in \<lparr>throughput = acc_throughput a,
          completion_rate = (acc_completed a, acc_throughput a),
          overdue_trend = trend,
          active_users = int (length (acc_active_users a))\<rparr>)"

text \<open>The sum of the per-bucket counts of a trend.\<close>

definition trend_total :: "trend_point list \<Rightarrow> int" where
  "trend_total trend = sum_list (map tp_overdue trend)"

section \<open>Python values and principals\<close>

text \<open>
  The values a JSON preference can hold. Only \<^verbatim>\<open>int()\<close> is ever applied to a float here,
  so a finite float is represented by its truncation towards zero.
\<close>

datatype pyfloat = Finite int | Infinity | NaN

datatype pyval =
    PNone
  | PBool bool
  | PInt int
  | PFloat pyfloat
  | PStr string
  | PList "pyval list"
  | PDict "(string \<times> pyval) list"

text \<open>
  The builtin \<^verbatim>\<open>int(x)\<close>. Parsing a string as an integer literal is the argument
  \<open>int_of_str\<close>, \<open>None\<close> where Python raises \<^verbatim>\<open>ValueError\<close>.
\<close>

fun py_int :: "(string \<Rightarrow> int option) \<Rightarrow> pyval \<Rightarrow> error + int" where
  "py_int int_of_str PNone = Inl TypeError"
| "py_int int_of_str (PBool b) = Inr (if b then 1 else 0)"
| "py_int int_of_str (PInt n) = Inr n"
| "py_int int_of_str (PFloat (Finite n)) = Inr n"
| "py_int int_of_str (PFloat Infinity) = Inl OverflowError"
| "py_int int_of_str (PFloat NaN) = Inl ValueError"
| "py_int int_of_str (PStr s) = (case int_of_str s of None \<Rightarrow> Inl ValueError | Some n \<Rightarrow> Inr n)"
| "py_int int_of_str (PList xs) = Inl TypeError"
| "py_int int_of_str (PDict kvs) = Inl TypeError"

record user =
  u_id :: int
  telegram_id :: "int option"
  language :: "string option"
  timezone :: "string option"
  preferences :: "(string \<times> pyval) list"

datatype role = SYSTEM_ADMIN | ORG_ADMIN | TEAM_MANAGER | MEMBER

record principal =
  subject :: string
  global_roles :: "role list"
  org_roles :: "(int \<times> role) list"

fun role_rank :: "role \<Rightarrow> int" where
  "role_rank MEMBER = 0"
| "role_rank TEAM_MANAGER = 1"
| "role_rank ORG_ADMIN = 2"
| "role_rank SYSTEM_ADMIN = 3"

definition role_satisfies :: "role \<Rightarrow> role \<Rightarrow> bool" where
  "role_satisfies held required = (role_rank held \<ge> role_rank required)"

definition is_system_admin :: "principal \<Rightarrow> bool" where
  "is_system_admin p = (SYSTEM_ADMIN \<in> set (global_roles p))"

definition has_org_privilege :: "principal \<Rightarrow> int \<Rightarrow> role \<Rightarrow> bool" where
  "has_org_privilege p org_id required =
     (if is_system_admin p then True
      else case map_of (org_roles p) org_id of
             None \<Rightarrow> False
           | Some held \<Rightarrow> role_satisfies held required)"

text \<open>The property \<^verbatim>\<open>Principal.user_id\<close>: \<^verbatim>\<open>int(self.subject)\<close>, or \<^verbatim>\<open>None\<close> if that raises.\<close>

definition principal_user_id :: "(string \<Rightarrow> int option) \<Rightarrow> principal \<Rightarrow> int option" where
  "principal_user_id int_of_str p =
     (case py_int int_of_str (PStr (subject p)) of Inl e \<Rightarrow> None | Inr n \<Rightarrow> Some n)"

section \<open>ReportService: requests, scope and selection\<close>

datatype report_format = TEXT | PDF | CSV

datatype report_scope = USER | ORGANIZATION | TEAM | PROJECT

record report_request =
  report_type :: string
  rq_user_id :: "int option"
  rq_organization_id :: "int option"
  rq_team_id :: "int option"
  rq_project_id :: "int option"
  rq_date :: "date option"
  rq_timezone :: "string option"
  rq_locale :: "string option"
  rq_format :: report_format

record report_task =
  rt_id :: int
  rt_title :: string
  rt_status :: "string option"
  rt_priority :: "string option"
  rt_due_at :: "instant option"

record report_response =
  rs_report_type :: string
  scope :: report_scope
  summary :: string
  counts :: "report_counts option"
  next_tasks :: "report_task list"
  overdue_tasks :: "report_task list"
  metrics :: "org_metrics option"
  file_url :: "string option"
  rs_format :: report_format
  generated_at :: instant

text \<open>\<^verbatim>\<open>ReportService._determine_scope\<close>.\<close>

definition determine_scope :: "report_request \<Rightarrow> report_scope" where
  "determine_scope payload =
     (if rq_user_id payload \<noteq> None then USER
      else if rq_project_id payload \<noteq> None then PROJECT
      else if rq_team_id payload \<noteq> None then TEAM
      else if rq_organization_id payload \<noteq> None then ORGANIZATION
      else USER)"

text \<open>
  A value passed to a message template, and the seams of the service: the tables it reads,
  the settings, the zone database (\<open>Inl\<close> the exception that \<^verbatim>\<open>ZoneInfo(name)\<close> raises), the clock
  (\<open>utcnow n\<close> is its \<open>n\<close>-th reading during a call, \<open>fromutc\<close> turns an instant into the
  wall-clock reading of a zone), the message catalogue and the Babel formatters, the
  rendering of a completion rate with one decimal, and the two document exporters, which
  write a file and return its path or fail.
\<close>

datatype fmt_arg = IntArg int | StrArg string

record report_env =
  db_users :: "user list"
  db_tasks :: "task list"
  db_assignments :: "task_assignment list"
  db_projects :: "project list"
  default_timezone :: string
  default_locale :: string
  zone_info :: "string \<Rightarrow> error + tzinfo"
  utcnow :: "nat \<Rightarrow> instant"
  fromutc :: "tzinfo \<Rightarrow> instant \<Rightarrow> naive_datetime"
  translate :: "string \<Rightarrow> string \<Rightarrow> (string \<times> fmt_arg) list \<Rightarrow> string"
  babel_format_date :: "instant \<Rightarrow> string \<Rightarrow> tzinfo \<Rightarrow> string \<Rightarrow> string"
  babel_format_datetime :: "instant \<Rightarrow> string \<Rightarrow> tzinfo \<Rightarrow> string \<Rightarrow> string"
  format_rate :: "int \<times> int \<Rightarrow> string"
  render_user_pdf ::
    "string \<Rightarrow> report_request \<Rightarrow> principal \<Rightarrow> report_counts \<Rightarrow> string \<Rightarrow> task list
     \<Rightarrow> tzinfo \<Rightarrow> instant \<Rightarrow> instant \<Rightarrow> error + string"
  render_org_csv ::
    "string \<Rightarrow> report_request \<Rightarrow> principal \<Rightarrow> org_metrics \<Rightarrow> tzinfo \<Rightarrow> instant \<Rightarrow> instant
     \<Rightarrow> error + string"

text \<open>\<^verbatim>\<open>a or b\<close> on optional strings: \<open>a\<close> if it is a non-empty string, else \<open>b\<close>.\<close>

definition or_else :: "string option \<Rightarrow> string option \<Rightarrow> string option" where
  "or_else a b = (case a of None \<Rightarrow> b | Some s \<Rightarrow> if s = [] then b else Some s)"

text \<open>\<^verbatim>\<open>normalize_locale\<close> of the localization module, over the default locale of the settings.\<close>

definition normalize_locale :: "string \<Rightarrow> string option \<Rightarrow> string" where
  "normalize_locale fallback locale =
     (case locale of
        None \<Rightarrow> fallback
      | Some l \<Rightarrow>
          if l = [] then fallback
          else (let code = py_lower (takeWhile (\<lambda>c. c \<noteq> CHR ''-'') l)
                in if code \<notin> {''en'', ''fa'', ''ar''} then fallback else code))"

text \<open>
  \<^verbatim>\<open>ReportService._resolve_timezone\<close>: the requested zone, else the default one, else UTC.
  Both handlers are \<^verbatim>\<open>except Exception\<close>, so every exception of the lookup is caught.
\<close>

definition resolve_timezone :: "'a report_env_scheme \<Rightarrow> string option \<Rightarrow> tzinfo" where
  "resolve_timezone env name =
     (let candidate = (case or_else name None of None \<Rightarrow> default_timezone env | Some n \<Rightarrow> n)
      in case zone_info env candidate of
           Inr z \<Rightarrow> z
         | Inl e \<Rightarrow> (case zone_info env (default_timezone env) of Inr z \<Rightarrow> z | Inl e' \<Rightarrow> tz_utc))"

text \<open>
  \<^verbatim>\<open>_ensure_timezone\<close> of the localization module, for a zone given by name. Its handlers
  are \<^verbatim>\<open>except ZoneInfoNotFoundError\<close>: an unknown name falls back to the default zone and
  then to UTC, any other exception of the lookup leaves the function.
\<close>

definition ensure_timezone :: "'a report_env_scheme \<Rightarrow> string option \<Rightarrow> error + tzinfo" where
  "ensure_timezone env timezone_name =
     (let candidate = (case or_else timezone_name None of
                         None \<Rightarrow> default_timezone env
                       | Some n \<Rightarrow> n)
      in case zone_info env candidate of
           Inr z \<Rightarrow> Inr z
         | Inl e \<Rightarrow>
             if e = ZoneInfoNotFoundError then
               (case zone_info env (default_timezone env) of
                  Inr z \<Rightarrow> Inr z
                | Inl e' \<Rightarrow> if e' = ZoneInfoNotFoundError then Inr tz_utc else Inl e')
             else Inl e)"

text \<open>\<^verbatim>\<open>ReportService._fetch_user\<close>.\<close>

definition fetch_user :: "'a report_env_scheme \<Rightarrow> int option \<Rightarrow> user option" where
  "fetch_user env uid =
     (case uid of None \<Rightarrow> None | Some i \<Rightarrow> find (\<lambda>u. u_id u = i) (db_users env))"

text \<open>
  \<^verbatim>\<open>ReportService._fetch_tasks\<close>: the filters of the query and its order by creation
  instant.
\<close>

definition matches_request :: "'a report_env_scheme \<Rightarrow> report_request \<Rightarrow> task \<Rightarrow> bool" where
  "matches_request env payload t =
     ((case rq_user_id payload of None \<Rightarrow> True | Some u \<Rightarrow> user_id t = Some u)
      \<and> (case rq_organization_id payload of None \<Rightarrow> True | Some org \<Rightarrow> organization_id t = Some org)
      \<and> (case rq_project_id payload of None \<Rightarrow> True | Some p \<Rightarrow> project_id t = Some p)
      \<and> (case rq_team_id payload of
            None \<Rightarrow> True
          | Some tm \<Rightarrow>
              list_ex (\<lambda>a. ta_task_id a = t_id t \<and> assigned_team_id a = Some tm) (db_assignments env)
              \<or> list_ex (\<lambda>p. Some (p_id p) = project_id t \<and> team_id p = Some tm) (db_projects env)))"

definition fetch_tasks ::
  "'a report_env_scheme \<Rightarrow> report_request \<Rightarrow> instant \<Rightarrow> instant \<Rightarrow> task list" where
  "fetch_tasks env payload window_start window_end =
     sort_key created_at
       (filter (\<lambda>t. created_at t \<ge> window_start \<and> created_at t < window_end
                     \<and> matches_request env payload t)
          (db_tasks env))"

text \<open>
  \<^verbatim>\<open>ReportService._to_report_task\<close>. The due instant is converted to the zone for display;
  as an instant it is unchanged.
\<close>

definition to_report_task :: "task \<Rightarrow> tzinfo \<Rightarrow> report_task" where
  "to_report_task t tz =
     \<lparr>rt_id = t_id t, rt_title = title t, rt_status = status t, rt_priority = priority t,
      rt_due_at = due_at t\<rparr>"

text \<open>\<^verbatim>\<open>ReportService._select_next_tasks\<close> and \<^verbatim>\<open>_select_overdue_tasks\<close>, with \<^verbatim>\<open>limit = 3\<close>.\<close>

definition select_next_tasks :: "task list \<Rightarrow> tzinfo \<Rightarrow> report_task list" where
  "select_next_tasks tasks tz =
     (let pending = filter (\<lambda>t. \<not> is_completed t) tasks;
          default_due = datetime_max;
          pending = sort_key (\<lambda>t. (case due_at t of None \<Rightarrow> default_due | Some d \<Rightarrow> d, created_at t))
                      pending
      in map (\<lambda>t. to_report_task t tz) (take 3 pending))"

definition select_overdue_tasks :: "instant \<Rightarrow> task list \<Rightarrow> tzinfo \<Rightarrow> report_task list" where
  "select_overdue_tasks now_utc tasks tz =
     (let overdue_tasks = filter (\<lambda>t. due_before now_utc t \<and> \<not> is_completed t) tasks;
          overdue_tasks = sort_key (\<lambda>t. case due_at t of None \<Rightarrow> 0 | Some d \<Rightarrow> d) overdue_tasks
      in map (\<lambda>t. to_report_task t tz) (take 3 overdue_tasks))"

section \<open>ReportService: summaries and the orchestrator\<close>

text \<open>\<^verbatim>\<open>sep.join(parts)\<close>.\<close>

fun str_join :: "string \<Rightarrow> string list \<Rightarrow> string" where
  "str_join sep [] = []"
| "str_join sep [x] = x"
| "str_join sep (x # y # ys) = x @ sep @ str_join sep (y # ys)"

definition newline :: string where
  "newline = [CHR 0x0A]"

text \<open>
  \<^verbatim>\<open>format_date\<close> and \<^verbatim>\<open>format_datetime\<close> of the localization module, called with a zone
  object: they normalise the locale and hand over to Babel.
\<close>

definition format_date ::
  "'a report_env_scheme \<Rightarrow> instant \<Rightarrow> string \<Rightarrow> tzinfo \<Rightarrow> string \<Rightarrow> string" where
  "format_date env v locale tz fmt =
     babel_format_date env v (normalize_locale (default_locale env) (Some locale)) tz fmt"

definition format_datetime ::
  "'a report_env_scheme \<Rightarrow> instant \<Rightarrow> string \<Rightarrow> tzinfo \<Rightarrow> string \<Rightarrow> string" where
  "format_datetime env v locale tz fmt =
     babel_format_datetime env v (normalize_locale (default_locale env) (Some locale)) tz fmt"

text \<open>One line of the next or overdue section of a user summary.\<close>

definition user_task_line ::
  "'a report_env_scheme \<Rightarrow> string \<Rightarrow> tzinfo \<Rightarrow> report_task \<Rightarrow> string" where
  "user_task_line env locale tz task =
     (case rt_due_at task of
        Some d \<Rightarrow>
          (let due_text = format_datetime env d locale tz ''short''
           in translate env locale ''report_user_task_line''
                [(''title'', StrArg (rt_title task)), (''due'', StrArg due_text)])
      | None \<Rightarrow>
          translate env locale ''report_user_task_line_no_due'' [(''title'', StrArg (rt_title task))])"

definition counts_args :: "report_counts \<Rightarrow> (string \<times> fmt_arg) list" where
  "counts_args c =
     [(''total'', IntArg (total_count c)), (''completed'', IntArg (completed c)),
      (''overdue'', IntArg (overdue c))]"

text \<open>
  \<^verbatim>\<open>ReportService._format_user_summary\<close>. The anchor is passed as the instant of the local
  midnight it denotes.
\<close>

definition format_user_summary ::
  "'a report_env_scheme \<Rightarrow> string \<Rightarrow> string \<Rightarrow> instant \<Rightarrow> report_counts \<Rightarrow> report_task list
   \<Rightarrow> report_task list \<Rightarrow> tzinfo \<Rightarrow> instant \<Rightarrow> instant \<Rightarrow> string" where
  "format_user_summary env locale rtype anchor c next_ts overdue_ts tz window_start window_end =
     (let header_key =
            (if rtype = ''daily'' then ''report_user_header_daily''
             else if rtype = ''weekly'' then ''report_user_header_weekly''
             else if rtype = ''monthly'' then ''report_user_header_monthly''
             else ''report_user_header_daily'');
          period_label = translate env locale header_key
                           [(''date'', StrArg (format_date env anchor locale tz ''medium''))];
          lines = [period_label];
          lines = lines @ [translate env locale ''report_user_counts'' (counts_args c)];
          start_local = format_datetime env window_start locale tz ''short'';
          end_local = format_datetime env window_end locale tz ''short'';
          lines = lines @ [translate env locale ''report_period''
                             [(''start'', StrArg start_local), (''end'', StrArg end_local)]]
      in if total_count c = 0 then
           str_join newline (lines @ [translate env locale ''report_user_no_tasks'' []])
         else
           (let lines = (if next_ts \<noteq> [] then
                           lines @ [translate env locale ''report_user_next_header'' []]
                             @ map (user_task_line env locale tz) next_ts
                         else lines);
                lines = (if overdue_ts \<noteq> [] then
                           lines @ [translate env locale ''report_user_overdue_header'' []]
                             @ map (user_task_line env locale tz) overdue_ts
                         else lines @ [translate env locale ''report_user_overdue_empty'' []])
            in str_join newline lines))"

text \<open>\<^verbatim>\<open>ReportService._format_org_summary\<close>.\<close>

definition format_org_summary ::
  "'a report_env_scheme \<Rightarrow> string \<Rightarrow> report_scope \<Rightarrow> string \<Rightarrow> report_counts \<Rightarrow> org_metrics
   \<Rightarrow> tzinfo \<Rightarrow> instant \<Rightarrow> instant \<Rightarrow> string" where
  "format_org_summary env locale sc rtype c m tz window_start window_end =
     (let period_label =
            (if rtype = ''daily'' then translate env locale ''report_period_label_daily'' []
             else if rtype = ''weekly'' then translate env locale ''report_period_label_weekly'' []
             else if rtype = ''monthly'' then translate env locale ''report_period_label_monthly'' []
             else translate env locale ''report_period_label_daily'' []);
          header_key =
            (case sc of
               ORGANIZATION \<Rightarrow> ''report_org_header_organization''
             | TEAM \<Rightarrow> ''report_org_header_team''
             | PROJECT \<Rightarrow> ''report_org_header_project''
             | USER \<Rightarrow> ''report_org_header_organization'');
          lines = [translate env locale header_key [(''period'', StrArg period_label)]];
          lines = lines @ [translate env locale ''report_user_counts'' (counts_args c)];
          lines = lines @ [translate env locale ''report_org_throughput''
                             [(''count'', IntArg (throughput m))]];
          lines = lines @ [translate env locale ''report_org_completion_rate''
                             [(''rate'', StrArg (format_rate env (completion_rate m)))]];
          lines = lines @ [translate env locale ''report_org_active_users''
                             [(''count'', IntArg (active_users m))]];
          lines = (if overdue_trend m \<noteq> [] then
                     (let trend_entries =
                            map (\<lambda>point. translate env locale ''report_org_trend_entry''
                                   [(''period'', StrArg (period point)),
                                    (''overdue'', IntArg (tp_overdue point))])
                              (overdue_trend m)
                      in lines @ [translate env locale ''report_org_overdue_trend''
                                    [(''trend'', StrArg (str_join '', '' trend_entries))]])
                   else lines @ [translate env locale ''report_org_no_trend'' []]);
          start_local = format_datetime env window_start locale tz ''short'';
          end_local = format_datetime env window_end locale tz ''short'';
          lines = lines @ [translate env locale ''report_period''
                             [(''start'', StrArg start_local), (''end'', StrArg end_local)]]
      in str_join newline lines)"

text \<open>
  The first two statements of \<^verbatim>\<open>ReportService.generate\<close> on their own, for the statements
  about it: the locale and the zone that a request is answered in.
\<close>

definition request_locale :: "'a report_env_scheme \<Rightarrow> report_request \<Rightarrow> string" where
  "request_locale env payload =
     normalize_locale (default_locale env)
       (or_else (rq_locale payload)
          (case fetch_user env (rq_user_id payload) of None \<Rightarrow> None | Some u \<Rightarrow> language u))"

definition request_timezone :: "'a report_env_scheme \<Rightarrow> report_request \<Rightarrow> tzinfo" where
  "request_timezone env payload =
     resolve_timezone env
       (or_else (rq_timezone payload)
          (case fetch_user env (rq_user_id payload) of
             None \<Rightarrow> None
           | Some u \<Rightarrow> or_else (timezone u) None))"

text \<open>
  \<^verbatim>\<open>ReportService.generate\<close>. The clock is read for the window, for the counts, for the
  overdue selection and for the timestamp of the response. Two exceptions are modelled,
  and each leaves the call as \<open>Inl\<close>: the one of the window computation and a failed
  export.
\<close>

definition generate :: "'a report_env_scheme \<Rightarrow> report_request \<Rightarrow> principal \<Rightarrow> error + report_response"
  where
  "generate env payload princ =
     (let usr = fetch_user env (rq_user_id payload);
          locale = normalize_locale (default_locale env)
                     (or_else (rq_locale payload) (case usr of None \<Rightarrow> None | Some u \<Rightarrow> language u));
          tz = resolve_timezone env
                 (or_else (rq_timezone payload)
                    (case usr of None \<Rightarrow> None | Some u \<Rightarrow> or_else (timezone u) None))
      in case calculate_window (report_type payload) (rq_date payload) tz
                (fromutc env tz (utcnow env 0)) of
           Inl e \<Rightarrow> Inl e
         | Inr (window_start, window_end, anchor) \<Rightarrow>
     (let sc = determine_scope payload;
          tasks = fetch_tasks env payload window_start window_end;
          c = compute_counts (utcnow env 1) tasks;
          response = (\<lambda>text next_ts overdue_ts m url.
            \<lparr>rs_report_type = report_type payload, scope = sc, summary = text, counts = Some c,
             next_tasks = next_ts, overdue_tasks = overdue_ts, metrics = m, file_url = url,
             rs_format = rq_format payload, generated_at = utcnow env 3\<rparr>)
      in if sc = USER then
           (let next_ts = select_next_tasks tasks tz;
                overdue_ts = select_overdue_tasks (utcnow env 2) tasks tz;
                text = format_user_summary env locale (report_type payload)
                         (utc_of tz anchor) c next_ts overdue_ts tz window_start window_end
            in if rq_format payload = PDF then
                 (case render_user_pdf env locale payload princ c text tasks tz window_start window_end of
                    Inl e \<Rightarrow> Inl e
                  | Inr file_path \<Rightarrow> Inr (response text next_ts overdue_ts None (Some file_path)))
               else Inr (response text next_ts overdue_ts None None))
         else
           (let m = compute_org_metrics (format_date env) tasks tz locale;
                text = format_org_summary env locale sc (report_type payload) c m tz
                         window_start window_end
            in if rq_format payload = CSV then
                 (case render_org_csv env locale payload princ m tz window_start window_end of
                    Inl e \<Rightarrow> Inl e
                  | Inr file_path \<Rightarrow> Inr (response text [] [] (Some m) (Some file_path)))
               else Inr (response text [] [] (Some m) None))))"

text \<open>
  \<^verbatim>\<open>_generate_user_report\<close> of the reports router, the caller of \<open>generate\<close> behind the
  daily and weekly endpoints.
\<close>

definition generate_user_report ::
  "'a report_env_scheme \<Rightarrow> (string \<Rightarrow> int option) \<Rightarrow> principal \<Rightarrow> string \<Rightarrow> int option
   \<Rightarrow> date option \<Rightarrow> string option \<Rightarrow> string option \<Rightarrow> report_format \<Rightarrow> error + report_response"
  where
  "generate_user_report env int_of_str princ rtype org_id report_date tz_name locale fmt =
     (if (case org_id of None \<Rightarrow> False | Some org \<Rightarrow> \<not> has_org_privilege princ org TEAM_MANAGER)
         \<and> \<not> is_system_admin princ
      then Inl (HTTPException 403 ''error_forbidden'')
      else
        (let uid = (if org_id = None then principal_user_id int_of_str princ else None)
         in if org_id = None \<and> uid = None then Inl (HTTPException 400 ''error_user_required'')
            else generate env
                   \<lparr>report_type = rtype, rq_user_id = uid, rq_organization_id = org_id,
                    rq_team_id = None, rq_project_id = None, rq_date = report_date,
                    rq_timezone = tz_name, rq_locale = locale, rq_format = fmt\<rparr>
                   princ))"

section \<open>ReminderService\<close>

text \<open>
  A \<^verbatim>\<open>datetime\<close> as the reminder code handles it: a wall-clock reading and a zone, or no
  zone for a naive value. Subtracting a \<^verbatim>\<open>timedelta\<close> moves the reading and keeps the
  zone; two aware values compare by their instants. The limits of the range of
  \<^verbatim>\<open>datetime\<close> and \<^verbatim>\<open>timedelta\<close> are not part of the model of this service: where an
  offset leads beyond them Python raises \<^verbatim>\<open>OverflowError\<close> and returns no list.
\<close>

record py_datetime =
  wall :: int
  tzinfo :: "tzinfo option"

definition instant_of :: "py_datetime \<Rightarrow> instant" where
  "instant_of t = wall t - (case tzinfo t of None \<Rightarrow> 0 | Some tz \<Rightarrow> tz (wall t))"

text \<open>An instant read from a \<^verbatim>\<open>DateTime(timezone=True)\<close> column, as the aware value it is.\<close>

definition aware_utc :: "instant \<Rightarrow> py_datetime" where
  "aware_utc i = \<lparr>wall = i, tzinfo = Some tz_utc\<rparr>"

text \<open>A row of \<^verbatim>\<open>reminders\<close>; the id is \<open>None\<close> until the row is stored.\<close>

record reminder =
  r_id :: "int option"
  task_id :: int
  remind_at :: instant
  sent :: bool

record reminder_db =
  reminders :: "reminder list"
  next_reminder_id :: int

text \<open>
  \<^verbatim>\<open>ReminderService.schedule\<close>: the query for a reminder of the same task at the same
  instant, and the insert when there is none.
\<close>

definition schedule :: "reminder_db \<Rightarrow> int \<Rightarrow> py_datetime \<Rightarrow> reminder \<times> reminder_db" where
  "schedule db tid when =
     (case find (\<lambda>r. task_id r = tid \<and> remind_at r = instant_of when) (reminders db) of
        Some r \<Rightarrow> (r, db)
      | None \<Rightarrow>
          (let r = \<lparr>r_id = Some (next_reminder_id db), task_id = tid,
                    remind_at = instant_of when, sent = False\<rparr>
           in (r, db\<lparr>reminders := reminders db @ [r],
                     next_reminder_id := next_reminder_id db + 1\<rparr>)))"

text \<open>The table holds a reminder of the task at the instant of \<open>when\<close>.\<close>

definition has_reminder :: "reminder_db \<Rightarrow> int \<Rightarrow> py_datetime \<Rightarrow> bool" where
  "has_reminder db tid when =
     list_ex (\<lambda>r. task_id r = tid \<and> remind_at r = instant_of when) (reminders db)"

text \<open>\<^verbatim>\<open>isinstance(x, (int, float))\<close>; a \<^verbatim>\<open>bool\<close> is an \<^verbatim>\<open>int\<close>.\<close>

fun is_number :: "pyval \<Rightarrow> bool" where
  "is_number (PBool b) = True"
| "is_number (PInt n) = True"
| "is_number (PFloat f) = True"
| "is_number v = False"

text \<open>
  What a \<^verbatim>\<open>for\<close> loop over the value visits: the items of a list, the characters of a
  string, the keys of a dict; anything else is not iterable.
\<close>

fun py_iter :: "pyval \<Rightarrow> error + pyval list" where
  "py_iter (PList xs) = Inr xs"
| "py_iter (PStr s) = Inr (map (\<lambda>c. PStr [c]) s)"
| "py_iter (PDict kvs) = Inr (map PStr (remdups (map fst kvs)))"
| "py_iter v = Inl TypeError"

text \<open>
  The loop of \<^verbatim>\<open>compute_default_times\<close>. An offset whose conversion raises
  \<^verbatim>\<open>TypeError\<close> or \<^verbatim>\<open>ValueError\<close> is skipped; any other exception leaves the function.
\<close>

fun default_times_loop ::
  "(string \<Rightarrow> int option) \<Rightarrow> instant \<Rightarrow> py_datetime \<Rightarrow> pyval list \<Rightarrow> py_datetime list
   \<Rightarrow> error + py_datetime list" where
  "default_times_loop int_of_str now due [] acc = Inr acc"
| "default_times_loop int_of_str now due (offset # rest) acc =
     (case py_int int_of_str offset of
        Inl e \<Rightarrow>
          if e = TypeError \<or> e = ValueError then default_times_loop int_of_str now due rest acc
          else Inl e
      | Inr n \<Rightarrow>
          (let delta = td_minutes n;
               remind_at = due\<lparr>wall := wall due - delta\<rparr>
           in if instant_of remind_at > now
              then default_times_loop int_of_str now due rest (acc @ [remind_at])
              else default_times_loop int_of_str now due rest acc))"

text \<open>
  \<^verbatim>\<open>ReminderService.compute_default_times(due_at, user)\<close>, with the clock reading
  \<^verbatim>\<open>datetime.now(timezone.utc)\<close> as the argument \<open>now\<close>. The results share the zone of
  \<open>due_at\<close>, so \<^verbatim>\<open>sort\<close> orders them by their wall-clock readings.
\<close>

definition compute_default_times ::
  "(string \<Rightarrow> int option) \<Rightarrow> instant \<Rightarrow> py_datetime option \<Rightarrow> user option
   \<Rightarrow> error + py_datetime list" where
  "compute_default_times int_of_str now due_opt usr =
     (case due_opt of
        None \<Rightarrow> Inr []
      | Some due \<Rightarrow>
          (let due = (if tzinfo due = None then due\<lparr>tzinfo := Some tz_utc\<rparr> else due);
               prefs = (case usr of None \<Rightarrow> [] | Some u \<Rightarrow> preferences u);
               offsets = (case map_of prefs ''default_reminder_minutes'' of
                            None \<Rightarrow> PList [PInt 30]
                          | Some v \<Rightarrow> v);
               offsets = (if is_number offsets
                          then (case py_int int_of_str offsets of
                                  Inl e \<Rightarrow> Inl e
                                | Inr n \<Rightarrow> Inr (PList [PInt n]))
                          else Inr offsets)
           in case offsets of
                Inl e \<Rightarrow> Inl e
              | Inr offsets \<Rightarrow>
                  (case py_iter offsets of
                     Inl e \<Rightarrow> Inl e
                   | Inr items \<Rightarrow>
                       (case default_times_loop int_of_str now due items [] of
                          Inl e \<Rightarrow> Inl e
                        | Inr found \<Rightarrow> Inr (sort_key wall found)))))"

text \<open>\<^verbatim>\<open>ReminderService.schedule_default_reminders\<close>.\<close>

fun schedule_all ::
  "reminder_db \<Rightarrow> int \<Rightarrow> py_datetime list \<Rightarrow> reminder list \<Rightarrow> reminder list \<times> reminder_db" where
  "schedule_all db tid [] acc = (acc, db)"
| "schedule_all db tid (w # ws) acc =
     (let (r, db') = schedule db tid w in schedule_all db' tid ws (acc @ [r]))"

definition schedule_default_reminders ::
  "reminder_db \<Rightarrow> (string \<Rightarrow> int option) \<Rightarrow> instant \<Rightarrow> task \<Rightarrow> user option
   \<Rightarrow> error + reminder list \<times> reminder_db" where
  "schedule_default_reminders db int_of_str now t usr =
     (case compute_default_times int_of_str now (map_option aware_utc (due_at t)) usr of
        Inl e \<Rightarrow> Inl e
      | Inr remind_ats \<Rightarrow> Inr (schedule_all db (t_id t) remind_ats []))"

section \<open>The chat path: reminders of \<^verbatim>\<open>create_tasks\<close>\<close>

text \<open>
  The reminder part of \<^verbatim>\<open>create_tasks\<close> in the Telegram router: the offset is read from
  the preferences before anything is stored, and after the tasks are committed one
  reminder is added for each of them. \<open>created\<close> is the list of the stored tasks.
\<close>

definition chat_reminder_offset :: "(string \<Rightarrow> int option) \<Rightarrow> user \<Rightarrow> error + int" where
  "chat_reminder_offset int_of_str usr =
     py_int int_of_str
       (case map_of (preferences usr) ''default_reminder_minutes'' of
          None \<Rightarrow> PInt 15
        | Some v \<Rightarrow> v)"

text \<open>
  \<^verbatim>\<open>timedelta(minutes=n)\<close>: a \<^verbatim>\<open>timedelta\<close> holds at most 999999999 days in either
  direction. \<^verbatim>\<open>t + delta\<close> and \<^verbatim>\<open>t - delta\<close> on an aware UTC \<^verbatim>\<open>datetime\<close>: the result
  has to be a reading a \<^verbatim>\<open>datetime\<close> can hold. Both raise \<^verbatim>\<open>OverflowError\<close> otherwise.
\<close>

definition timedelta_minutes :: "int \<Rightarrow> error + timedelta" where
  "timedelta_minutes n =
     (if \<bar>n div 1440\<bar> \<le> 999999999 then Inr (td_minutes n) else Inl OverflowError)"

definition datetime_add :: "instant \<Rightarrow> timedelta \<Rightarrow> error + instant" where
  "datetime_add t delta =
     (if representable (t + delta) then Inr (t + delta) else Inl OverflowError)"

definition datetime_sub :: "instant \<Rightarrow> timedelta \<Rightarrow> error + instant" where
  "datetime_sub t delta =
     (if representable (t - delta) then Inr (t - delta) else Inl OverflowError)"

text \<open>
  The two statements that compute \<^verbatim>\<open>remind_at\<close>, here \<open>at\<close>, for one created task with
  due instant \<open>due\<close>.
\<close>

definition chat_remind_at :: "int \<Rightarrow> instant \<Rightarrow> instant option \<Rightarrow> error + instant" where
  "chat_remind_at reminder_offset now_utc due =
     (case (case due of
              Some d \<Rightarrow>
                (case timedelta_minutes reminder_offset of
                   Inl e \<Rightarrow> Inl e
                 | Inr delta \<Rightarrow> datetime_sub d delta)
            | None \<Rightarrow>
                (case timedelta_minutes reminder_offset of
                   Inl e \<Rightarrow> Inl e
                 | Inr delta \<Rightarrow> datetime_add now_utc delta)) of
        Inl e \<Rightarrow> Inl e
      | Inr at \<Rightarrow>
          if at \<le> now_utc then
            (case timedelta_minutes reminder_offset of
               Inl e \<Rightarrow> Inl e
             | Inr delta \<Rightarrow> datetime_add now_utc delta)
          else Inr at)"

text \<open>
  The loop over the created tasks. The reminders are added to the session and stored by
  the commit that follows the loop, so an exception at one task leaves none of them.
\<close>

fun chat_reminders_loop :: "int \<Rightarrow> instant \<Rightarrow> task list \<Rightarrow> error + reminder list" where
  "chat_reminders_loop reminder_offset now_utc [] = Inr []"
| "chat_reminders_loop reminder_offset now_utc (t # created) =
     (case chat_remind_at reminder_offset now_utc (due_at t) of
        Inl e \<Rightarrow> Inl e
      | Inr at \<Rightarrow>
          (case chat_reminders_loop reminder_offset now_utc created of
             Inl e \<Rightarrow> Inl e
           | Inr added \<Rightarrow>
               Inr (\<lparr>r_id = None, task_id = t_id t, remind_at = at, sent = False\<rparr> # added)))"

definition create_tasks_reminders ::
  "(string \<Rightarrow> int option) \<Rightarrow> user \<Rightarrow> instant \<Rightarrow> task list \<Rightarrow> error + reminder list" where
  "create_tasks_reminders int_of_str usr now_utc created =
     (case chat_reminder_offset int_of_str usr of
        Inl e \<Rightarrow> Inl e
      | Inr reminder_offset \<Rightarrow>
          if created = [] then Inr []
          else chat_reminders_loop reminder_offset now_utc created)"

section \<open>The reminder worker\<close>

text \<open>
  What \<^verbatim>\<open>dispatch_due_reminders\<close> works with beyond the service's seams: the table of
  reminders, the Telegram adapter and the outcome of the final commit. Whether a delivery
  succeeds is not determined by its arguments, so \<open>send_message k chat text\<close> tells
  whether the \<open>k\<close>-th call of the run, made with these arguments, returns (\<open>True\<close>) or
  raises. The chat id is passed as the number that the code turns into a string.
\<close>

record dispatch_env = report_env +
  db_reminders :: "reminder list"
  send_message :: "nat \<Rightarrow> int \<Rightarrow> string \<Rightarrow> bool"
  commit_ok :: bool

text \<open>\<^verbatim>\<open>ReminderService.get_due_reminders\<close>.\<close>

definition get_due_reminders :: "'a dispatch_env_scheme \<Rightarrow> nat \<Rightarrow> reminder list" where
  "get_due_reminders env limit =
     (let now = utcnow env 0
      in take limit
           (sort_key remind_at (filter (\<lambda>r. \<not> sent r \<and> remind_at r \<le> now) (db_reminders env))))"

text \<open>The relationships \<^verbatim>\<open>reminder.task\<close> and \<^verbatim>\<open>task.user\<close>, loaded with the reminders.\<close>

definition reminder_task :: "'a dispatch_env_scheme \<Rightarrow> reminder \<Rightarrow> task option" where
  "reminder_task env r = find (\<lambda>t. t_id t = task_id r) (db_tasks env)"

definition task_user :: "'a dispatch_env_scheme \<Rightarrow> task \<Rightarrow> user option" where
  "task_user env t =
     (case user_id t of None \<Rightarrow> None | Some uid \<Rightarrow> find (\<lambda>u. u_id u = uid) (db_users env))"

text \<open>
  The task, the user and the chat id of a reminder that can be delivered; \<open>None\<close> when
  \<^verbatim>\<open>not task or not user or not user.telegram_id\<close>.
\<close>

definition recipient :: "'a dispatch_env_scheme \<Rightarrow> reminder \<Rightarrow> (task \<times> user \<times> int) option" where
  "recipient env r =
     (case reminder_task env r of
        None \<Rightarrow> None
      | Some t \<Rightarrow>
          (case task_user env t of
             None \<Rightarrow> None
           | Some u \<Rightarrow>
               (case telegram_id u of
                  None \<Rightarrow> None
                | Some chat \<Rightarrow> if chat = 0 then None else Some (t, u, chat))))"

text \<open>\<^verbatim>\<open>prepare_telegram\<close> of the localization module.\<close>

fun crlf_to_lf :: "string \<Rightarrow> string" where
  "crlf_to_lf [] = []"
| "crlf_to_lf [c] = [c]"
| "crlf_to_lf (c # c' # cs) =
     (if c = CHR 0x0D \<and> c' = CHR 0x0A then CHR 0x0A # crlf_to_lf cs
      else c # crlf_to_lf (c' # cs))"

definition apply_direction :: "'a report_env_scheme \<Rightarrow> string \<Rightarrow> string \<Rightarrow> string" where
  "apply_direction env locale text =
     (if text = [] then text
      else (let locale_code = normalize_locale (default_locale env) (Some locale)
            in if locale_code \<in> {''fa'', ''ar''}
               then [CHR 0xE2, CHR 0x80, CHR 0xAB] @ text @ [CHR 0xE2, CHR 0x80, CHR 0xAC]
               else text))"

definition prepare_telegram :: "'a report_env_scheme \<Rightarrow> string \<Rightarrow> string \<Rightarrow> string" where
  "prepare_telegram env locale text = apply_direction env locale (crlf_to_lf text)"

text \<open>
  The locale and the message that the loop composes for a reminder of task \<open>t\<close> and its
  user \<open>u\<close>. The due date is formatted by \<^verbatim>\<open>format_datetime\<close> of the localization
  module, which is given the name of the user's zone and resolves it with
  \<^verbatim>\<open>_ensure_timezone\<close>: an exception of that lookup leaves the composition. The
  conversion of the stored due instant to that zone is taken to succeed.
\<close>

definition reminder_locale :: "'a dispatch_env_scheme \<Rightarrow> user \<Rightarrow> string" where
  "reminder_locale env u =
     normalize_locale (default_locale env) (or_else (language u) (Some (default_locale env)))"

definition reminder_message :: "'a dispatch_env_scheme \<Rightarrow> task \<Rightarrow> user \<Rightarrow> error + string" where
  "reminder_message env t u =
     (let locale = reminder_locale env u;
          due_extra =
            (case due_at t of
               None \<Rightarrow> Inr []
             | Some d \<Rightarrow>
                 (let user_timezone = (case or_else (timezone u) None of
                                         None \<Rightarrow> default_timezone env
                                       | Some name \<Rightarrow> name)
                  in case ensure_timezone env (Some user_timezone) of
                       Inl e \<Rightarrow> Inl e
                     | Inr tz \<Rightarrow>
                         Inr (translate env locale ''task_summary_due''
                                [(''due'', StrArg (format_datetime env d locale tz ''short''))])))
      in case due_extra of
           Inl e \<Rightarrow> Inl e
         | Inr due_extra \<Rightarrow>
             Inr (translate env locale ''reminder_due_message''
                    [(''title'', StrArg (title t)), (''extra'', StrArg due_extra)]))"

text \<open>
  The loop of \<^verbatim>\<open>dispatch_due_reminders\<close> over the fetched reminders: \<open>k\<close> counts the calls
  of the adapter made so far, \<open>processed\<close> the deliveries. The message is composed before
  the \<^verbatim>\<open>try\<close> statement, which holds the call of the adapter alone: an adapter that
  raises leaves the reminder as it is and the loop goes on, an exception of the
  composition leaves the loop. When the loop ends it returns the reminders as the session
  holds them, and \<open>processed\<close>.
\<close>

fun dispatch_loop ::
  "'a dispatch_env_scheme \<Rightarrow> reminder list \<Rightarrow> nat \<Rightarrow> int \<Rightarrow> error + reminder list \<times> int" where
  "dispatch_loop env [] k processed = Inr ([], processed)"
| "dispatch_loop env (r # rs) k processed =
     (case recipient env r of
        None \<Rightarrow>
          (case dispatch_loop env rs k processed of
             Inl e \<Rightarrow> Inl e
           | Inr (marked, n) \<Rightarrow> Inr (r\<lparr>sent := True\<rparr> # marked, n))
      | Some (t, u, chat) \<Rightarrow>
          (case reminder_message env t u of
             Inl e \<Rightarrow> Inl e
           | Inr message \<Rightarrow>
               if send_message env k chat (prepare_telegram env (reminder_locale env u) message)
               then (case dispatch_loop env rs (Suc k) (processed + 1) of
                       Inl e \<Rightarrow> Inl e
                     | Inr (marked, n) \<Rightarrow> Inr (r\<lparr>sent := True\<rparr> # marked, n))
               else (case dispatch_loop env rs (Suc k) processed of
                       Inl e \<Rightarrow> Inl e
                     | Inr (marked, n) \<Rightarrow> Inr (r # marked, n))))"

definition dispatch_batch ::
  "'a dispatch_env_scheme \<Rightarrow> reminder list \<Rightarrow> error + reminder list \<times> int" where
  "dispatch_batch env batch = dispatch_loop env batch 0 0"

text \<open>
  \<^verbatim>\<open>dispatch_due_reminders(batch_size)\<close>: the number it returns, or the exception that
  leaves it, and the table of reminders after the run. The marks are stored by the commit
  that follows the loop: an exception in the loop closes the session without a commit,
  and a commit that fails is rolled back; both leave the table as it was.
\<close>

definition dispatch_due_reminders ::
  "'a dispatch_env_scheme \<Rightarrow> nat \<Rightarrow> (error + int) \<times> reminder list" where
  "dispatch_due_reminders env batch_size =
     (let batch = get_due_reminders env batch_size
      in if batch = [] then (Inr 0, db_reminders env)
         else (case dispatch_batch env batch of
                 Inl e \<Rightarrow> (Inl e, db_reminders env)
               | Inr (marked, processed) \<Rightarrow>
                   (let stored = map (\<lambda>row. case find (\<lambda>m. r_id m = r_id row) marked of
                                                 None \<Rightarrow> row
                                               | Some m \<Rightarrow> m) (db_reminders env)
                    in (Inr processed, if commit_ok env then stored else db_reminders env))))"

text \<open>
  For the statement about a run: the number of calls of the adapter made before the
  \<open>i\<close>-th reminder of the batch is reached, whether the message of reminder \<open>r\<close> can be
  composed, and whether the call numbered \<open>k\<close>, made for reminder \<open>r\<close>, delivers.
\<close>

definition attempts_before :: "'a dispatch_env_scheme \<Rightarrow> reminder list \<Rightarrow> nat \<Rightarrow> nat" where
  "attempts_before env batch i = length (filter (\<lambda>r. recipient env r \<noteq> None) (take i batch))"

definition composes :: "'a dispatch_env_scheme \<Rightarrow> reminder \<Rightarrow> bool" where
  "composes env r =
     (case recipient env r of
        None \<Rightarrow> True
      | Some (t, u, chat) \<Rightarrow> (case reminder_message env t u of Inl e \<Rightarrow> False | Inr m \<Rightarrow> True))"

definition delivered :: "'a dispatch_env_scheme \<Rightarrow> nat \<Rightarrow> reminder \<Rightarrow> bool" where
  "delivered env k r =
     (case recipient env r of
        None \<Rightarrow> False
      | Some (t, u, chat) \<Rightarrow>
          (case reminder_message env t u of
             Inl e \<Rightarrow> False
           | Inr message \<Rightarrow>
               send_message env k chat (prepare_telegram env (reminder_locale env u) message)))"

text \<open>
  How a run leaves a reminder for which the call numbered \<open>k\<close> is made: marked as sent
  when it cannot be delivered or the call delivers, untouched when the call raises.
\<close>

definition expected_mark :: "'a dispatch_env_scheme \<Rightarrow> nat \<Rightarrow> reminder \<Rightarrow> reminder" where
  "expected_mark env k r =
     (if recipient env r = None \<or> delivered env k r then r\<lparr>sent := True\<rparr> else r)"

section \<open>Sample data\<close>

text \<open>A task row with the given id, status, due instant and completion instant.\<close>

definition sample_task :: "int \<Rightarrow> string option \<Rightarrow> instant option \<Rightarrow> instant option \<Rightarrow> task" where
  "sample_task i st due fin =
     \<lparr>t_id = i, user_id = Some 7, organization_id = Some 1, project_id = None,
      title = ''Prep brief'', due_at = due, end_at = fin, status = st, priority = None,
      created_at = 0\<rparr>"

text \<open>
  A service over empty tables: Stockholm at UTC+1, a malformed zone name, the clock at
  noon UTC of 2024-01-15, a catalogue that answers every key with the key itself, and
  exporters that succeed.
\<close>

definition sample_env :: report_env where
  "sample_env =
     \<lparr>db_users = [], db_tasks = [], db_assignments = [], db_projects = [],
      default_timezone = ''Europe/Stockholm'', default_locale = ''en'',
      zone_info = (\<lambda>name. if name = ''Europe/Stockholm'' then Inr (tz_fixed (td_hours 1))
                          else if name = ''/UTC'' then Inl ValueError
                          else Inl ZoneInfoNotFoundError),
      utcnow = (\<lambda>n. wall_clock \<lparr>year = 2024, month = 1, day = 15,
                                   hour = 12, minute = 0, second = 0, microsecond = 0\<rparr>),
      fromutc = (\<lambda>tz t. \<lparr>year = 2024, month = 1, day = 15,
                           hour = 13, minute = 0, second = 0, microsecond = 0\<rparr>),
      translate = (\<lambda>locale key args. key),
      babel_format_date = (\<lambda>v locale tz fmt. ''Jan 15, 2024''),
      babel_format_datetime = (\<lambda>v locale tz fmt. ''1/15/24, 12:00 AM''),
      format_rate = (\<lambda>r. ''0.0''),
      render_user_pdf = (\<lambda>locale payload princ c text tasks tz ws we.
                           Inr ''/tmp/taskmate_reports/daily-7-1705320000.pdf''),
      render_org_csv = (\<lambda>locale payload princ m tz ws we.
                          Inr ''/tmp/taskmate_reports/daily-organization-7-1705320000.csv'')\<rparr>"

text \<open>
  The same service over three tasks of user 7 in organisation 1, one created at 08:00 UTC
  of 2024-01-15 and done, one created at 09:00 and due at 10:00, which is pending and
  overdue at noon, and one created five days before, and a task of user 8 in no
  organisation, created at 11:00 of 2024-01-15.
\<close>

definition sample_report_env :: report_env where
  "sample_report_env =
     sample_env
       \<lparr>db_tasks :=
          [(sample_task 1 (Some ''done'') None None)
             \<lparr>created_at := wall_clock \<lparr>year = 2024, month = 1, day = 15,
                                         hour = 8, minute = 0, second = 0, microsecond = 0\<rparr>\<rparr>,
           (sample_task 2 (Some ''pending'')
              (Some (wall_clock \<lparr>year = 2024, month = 1, day = 15,
                                 hour = 10, minute = 0, second = 0, microsecond = 0\<rparr>)) None)
             \<lparr>created_at := wall_clock \<lparr>year = 2024, month = 1, day = 15,
                                         hour = 9, minute = 0, second = 0, microsecond = 0\<rparr>\<rparr>,
           (sample_task 3 (Some ''pending'') None None)
             \<lparr>created_at := wall_clock \<lparr>year = 2024, month = 1, day = 10,
                                         hour = 9, minute = 0, second = 0, microsecond = 0\<rparr>\<rparr>,
           (sample_task 4 (Some ''pending'') None None)
             \<lparr>user_id := Some 8, organization_id := None,
              created_at := wall_clock \<lparr>year = 2024, month = 1, day = 15,
                                         hour = 11, minute = 0, second = 0, microsecond = 0\<rparr>\<rparr>]\<rparr>"

definition sample_principal :: principal where
  "sample_principal = \<lparr>subject = ''7'', global_roles = [], org_roles = [(1, ORG_ADMIN)]\<rparr>"

text \<open>A principal whose subject is no number, and a parser that knows the literal 7.\<close>

definition bot_principal :: principal where
  "bot_principal = \<lparr>subject = ''telegram-bot'', global_roles = [], org_roles = []\<rparr>"

definition sample_int_of_str :: "string \<Rightarrow> int option" where
  "sample_int_of_str s = (if s = ''7'' then Some 7 else None)"

text \<open>A user who prefers the given reminder offset.\<close>

definition sample_user :: "pyval \<Rightarrow> user" where
  "sample_user offsets =
     \<lparr>u_id = 7, telegram_id = Some 9000, language = Some ''en'',
      timezone = Some ''Europe/Stockholm'',
      preferences = [(''default_reminder_minutes'', offsets), (''last_task_ids'', PList [])]\<rparr>"

text \<open>
  Five due reminders of five tasks and a reminder that is not due yet: the tasks 1 to 3
  belong to a user with a chat id, task 4 has no user and the user of task 5 has no chat
  id. The second call of the adapter raises, the others deliver.
\<close>

definition sample_dispatch_env :: dispatch_env where
  "sample_dispatch_env =
     \<lparr>db_users = [sample_user (PInt 15),
                  \<lparr>u_id = 8, telegram_id = None, language = None, timezone = None, preferences = []\<rparr>],
      db_tasks = [(sample_task 1 (Some ''pending'') None None),
                  (sample_task 2 (Some ''pending'') None None),
                  (sample_task 3 (Some ''pending'') None None),
                  (sample_task 4 (Some ''pending'') None None)\<lparr>user_id := None\<rparr>,
                  (sample_task 5 (Some ''pending'') None None)\<lparr>user_id := Some 8\<rparr>],
      db_assignments = [], db_projects = [],
      default_timezone = ''Europe/Stockholm'', default_locale = ''en'',
      zone_info = (\<lambda>name. if name = ''Europe/Stockholm'' then Inr (tz_fixed (td_hours 1))
                          else if name = ''/UTC'' then Inl ValueError
                          else Inl ZoneInfoNotFoundError),
      utcnow = (\<lambda>n. 100),
      fromutc = (\<lambda>tz t. \<lparr>year = 2024, month = 1, day = 15,
                           hour = 13, minute = 0, second = 0, microsecond = 0\<rparr>),
      translate = (\<lambda>locale key args. key),
      babel_format_date = (\<lambda>v locale tz fmt. ''Jan 15, 2024''),
      babel_format_datetime = (\<lambda>v locale tz fmt. ''1/15/24, 12:00 AM''),
      format_rate = (\<lambda>r. ''0.0''),
      render_user_pdf = (\<lambda>locale payload princ c text tasks tz ws we. Inl OSError),
      render_org_csv = (\<lambda>locale payload princ m tz ws we. Inl OSError),
      db_reminders = [\<lparr>r_id = Some 1, task_id = 1, remind_at = 10, sent = False\<rparr>,
                      \<lparr>r_id = Some 2, task_id = 2, remind_at = 20, sent = False\<rparr>,
                      \<lparr>r_id = Some 3, task_id = 3, remind_at = 30, sent = False\<rparr>,
                      \<lparr>r_id = Some 4, task_id = 4, remind_at = 40, sent = False\<rparr>,
                      \<lparr>r_id = Some 5, task_id = 5, remind_at = 50, sent = False\<rparr>,
                      \<lparr>r_id = Some 6, task_id = 1, remind_at = 200, sent = False\<rparr>],
      send_message = (\<lambda>k chat text. k \<noteq> 1),
      commit_ok = True\<rparr>"

text \<open>
  A worker over two due reminders: the first belongs to a task whose user has no chat id,
  the second to a task with a due date whose user has stored the zone name \<^verbatim>\<open>/UTC\<close>.
\<close>

definition malformed_zone_env :: dispatch_env where
  "malformed_zone_env =
     sample_dispatch_env
       \<lparr>db_users := [(sample_user (PInt 15))\<lparr>timezone := Some ''/UTC''\<rparr>,
                     \<lparr>u_id = 8, telegram_id = None, language = None, timezone = None,
                      preferences = []\<rparr>],
        db_tasks := [(sample_task 1 (Some ''pending'') (Some 90) None),
                     (sample_task 5 (Some ''pending'') None None)\<lparr>user_id := Some 8\<rparr>],
        db_reminders := [\<lparr>r_id = Some 1, task_id = 5, remind_at = 10, sent = False\<rparr>,
                         \<lparr>r_id = Some 2, task_id = 1, remind_at = 20, sent = False\<rparr>]\<rparr>"

section \<open>The calendar: stepping by days agrees with the ordinal\<close>

lemma div_step:
  fixes y k :: int
  assumes "0 < k"
  shows "y div k = (y - 1) div k + (if y mod k = 0 then 1 else 0)"
proof -
  define q where "q = (y - 1) div k"
  define r where "r = (y - 1) mod k"
  have y: "y = k * q + (r + 1)" by (simp add: q_def r_def)
  have r: "0 \<le> r" "r < k" using assms by (simp_all add: r_def)
  show ?thesis
  proof (cases "r + 1 < k")
    case True
    with r y have "y div k = q" "y mod k = r + 1"
      by (auto intro: int_div_pos_eq int_mod_pos_eq)
    with r show ?thesis by (simp add: q_def)
  next
    case False
    with r have "r + 1 = k" by simp
    with y have y': "y = k * (q + 1)" by (simp add: algebra_simps)
    from assms have "(k * (q + 1)) div k = q + 1" "(k * (q + 1)) mod k = 0" by simp_all
    with y' have "y div k = q + 1" "y mod k = 0" by simp_all
    then show ?thesis by (simp add: q_def)
  qed
qed


lemma leap_arith:
  fixes a b c a' b' c' y :: int and p4 p100 p400 :: bool
  assumes "a = a' + (if p4 then 1 else 0)" "b = b' + (if p100 then 1 else 0)"
    "c = c' + (if p400 then 1 else 0)" "p400 \<longrightarrow> p100" "p100 \<longrightarrow> p4"
  shows "y * 365 + a - b + c =
    (y - 1) * 365 + a' - b' + c' + (if p4 \<and> (\<not> p100 \<or> p400) then 366 else 365)"
  using assms by (cases p4; cases p100; cases p400) (simp_all add: algebra_simps)

lemma dvd_chain_400_100: "(y::int) mod 400 = 0 \<longrightarrow> y mod 100 = 0"
proof
  assume "y mod 400 = 0"
  then have "400 dvd y" by (rule mod_0_imp_dvd)
  moreover have "(100::int) dvd 400" by simp
  ultimately have "100 dvd y" using dvd_trans by blast
  then show "y mod 100 = 0" by (rule dvd_imp_mod_0)
qed

lemma dvd_chain_100_4: "(y::int) mod 100 = 0 \<longrightarrow> y mod 4 = 0"
proof
  assume "y mod 100 = 0"
  then have "100 dvd y" by (rule mod_0_imp_dvd)
  moreover have "(4::int) dvd 100" by simp
  ultimately have "4 dvd y" using dvd_trans by blast
  then show "y mod 4 = 0" by (rule dvd_imp_mod_0)
qed

lemma days_before_year_step:
  "days_before_year (y + 1) = days_before_year y + (if is_leap y then 366 else 365)"
  unfolding days_before_year_def is_leap_def Let_def add_diff_cancel_right'
  by (rule leap_arith [OF div_step div_step div_step dvd_chain_400_100 dvd_chain_100_4]) simp_all


lemma days_before_month_step:
  assumes "1 \<le> m" "m < 12"
  shows "days_before_month y (m + 1) = days_before_month y m + days_in_month y m"
proof -
  from assms have "m = 1 \<or> m = 2 \<or> m = 3 \<or> m = 4 \<or> m = 5 \<or> m = 6 \<or> m = 7 \<or> m = 8 \<or> m = 9 \<or> m = 10 \<or> m = 11"
    by arith
  then show ?thesis
    by (elim disjE) (simp_all add: days_before_month_def days_in_month_def)
qed

lemma days_before_month_december:
  "days_before_month y 12 + 31 = (if is_leap y then 366 else 365)"
  by (simp add: days_before_month_def)

lemma days_before_month_january: "days_before_month y 1 = 0"
  by (simp add: days_before_month_def)

lemma days_in_month_bounds: "28 \<le> days_in_month y m" "days_in_month y m \<le> 31"
  by (simp_all add: days_in_month_def)

lemma ymd2ord_next_day:
  assumes "valid_date d"
  shows "ymd2ord (next_day d) = ymd2ord d + 1"
proof (cases "day d < days_in_month (year d) (month d)")
  case True
  then show ?thesis by (simp add: next_day_def ymd2ord_def)
next
  case False
  with assms have last: "day d = days_in_month (year d) (month d)"
    by (simp add: valid_date_def)
  show ?thesis
  proof (cases "month d < 12")
    case True
    with assms have "1 \<le> month d" by (simp add: valid_date_def)
    from days_before_month_step [OF this True, of "year d"] False True last
    show ?thesis by (simp add: next_day_def ymd2ord_def)
  next
    case m: False
    with assms have m12: "month d = 12" by (simp add: valid_date_def)
    with last have "day d = 31" by (simp add: days_in_month_def)
    with False m m12 days_before_month_december [of "year d"] show ?thesis
      by (simp add: next_day_def ymd2ord_def days_before_year_step days_before_month_january)
  qed
qed

lemma valid_next_day:
  assumes "valid_date d"
  shows "valid_date (next_day d)"
  using assms days_in_month_bounds(1) [of "year d" "month d + 1"] days_in_month_bounds(1) [of "year d + 1" 1]
  by (auto simp: valid_date_def next_day_def)

lemma valid_add_days: "valid_date d \<Longrightarrow> valid_date (add_days d n)"
  by (induction n arbitrary: d) (simp_all add: valid_next_day)

lemma ymd2ord_add_days: "valid_date d \<Longrightarrow> ymd2ord (add_days d n) = ymd2ord d + int n"
  by (induction n arbitrary: d) (simp_all add: valid_next_day ymd2ord_next_day)


lemma add_days_add: "add_days d (m + n) = add_days (add_days d m) n"
  by (induction m arbitrary: d) simp_all

lemma add_days_same_month:
  "day d + int n \<le> days_in_month (year d) (month d) \<Longrightarrow> add_days d n = d\<lparr>day := day d + int n\<rparr>"
proof (induction n arbitrary: d)
  case 0
  then show ?case by simp
next
  case (Suc n)
  then have lt: "day d < days_in_month (year d) (month d)" by simp
  then have nd: "next_day d = d\<lparr>day := day d + 1\<rparr>" by (simp add: next_day_def)
  from Suc.prems have "day (next_day d) + int n \<le> days_in_month (year (next_day d)) (month (next_day d))"
    by (simp add: nd)
  from Suc.IH [OF this] show ?case by (simp add: nd)
qed

lemma next_day_month_end:
  assumes "day d = days_in_month (year d) (month d)" "1 \<le> month d" "month d \<le> 12"
  shows "next_day d = first_of_next_month d"
  using assms by (auto simp: next_day_def first_of_next_month_def)

lemma month_rollover:
  assumes "1 \<le> month d" "month d \<le> 12"
  shows "(add_days (d\<lparr>day := 1\<rparr>) 32)\<lparr>day := 1\<rparr> = first_of_next_month d"
proof -
  define s where "s = d\<lparr>day := 1\<rparr>"
  define len where "len = days_in_month (year d) (month d)"
  have len: "28 \<le> len" "len \<le> 31" by (simp_all add: len_def days_in_month_bounds)
  define k where "k = nat (len - 1)"
  define r where "r = nat (32 - len)"
  have split: "(32::nat) = k + Suc r" using len by (simp add: k_def r_def)
  have reach: "add_days s k = s\<lparr>day := len\<rparr>"
    using add_days_same_month [of s k] len by (simp add: s_def k_def len_def)
  have "add_days s (k + Suc r) = add_days (add_days s k) (Suc r)"
    by (rule add_days_add)
  also have "\<dots> = add_days (next_day (s\<lparr>day := len\<rparr>)) r"
    by (simp add: reach)
  also have "next_day (s\<lparr>day := len\<rparr>) = first_of_next_month d"
    using next_day_month_end [of "s\<lparr>day := len\<rparr>"] assms
    by (simp add: s_def len_def first_of_next_month_def)
  also have "add_days (first_of_next_month d) r = (first_of_next_month d)\<lparr>day := 1 + int r\<rparr>"
  proof -
    have "day (first_of_next_month d) = 1" by (simp add: first_of_next_month_def)
    moreover have "1 + int r \<le> days_in_month (year (first_of_next_month d)) (month (first_of_next_month d))"
      using days_in_month_bounds(1) [of "year (first_of_next_month d)" "month (first_of_next_month d)"] len
      by (simp add: r_def)
    ultimately show ?thesis using add_days_same_month [of "first_of_next_month d" r] by simp
  qed
  finally have "add_days s (k + Suc r) = (first_of_next_month d)\<lparr>day := 1 + int r\<rparr>" .
  then have "add_days s 32 = (first_of_next_month d)\<lparr>day := 1 + int r\<rparr>"
    by (simp only: split)
  then show ?thesis by (simp add: s_def first_of_next_month_def del: add_days.simps)
qed

lemma next_day_time_min_combine: "next_day (time_min_combine d) = time_min_combine (next_day d)"
  by (simp add: next_day_def time_min_combine_def)

lemma add_days_time_min_combine: "add_days (time_min_combine d) n = time_min_combine (add_days d n)"
  by (induction n arbitrary: d) (simp_all add: next_day_time_min_combine)

lemma wall_clock_midnight: "wall_clock (time_min_combine d) = td_days (ymd2ord d)"
  by (simp add: wall_clock_def time_min_combine_def td_days_def ymd2ord_def)

lemma add_days_time: "hour (add_days t n) = hour t \<and> minute (add_days t n) = minute t
   \<and> second (add_days t n) = second t \<and> microsecond (add_days t n) = microsecond t"
  by (induction n arbitrary: t) (simp_all add: next_day_def)

lemma first_of_next_month_ord:
  assumes "1 \<le> month d" "month d \<le> 12"
  shows "ymd2ord (first_of_next_month d) = ymd2ord (d\<lparr>day := 1\<rparr>) + days_in_month (year d) (month d)"
proof (cases "month d = 12")
  case True
  with days_before_month_december [of "year d"] show ?thesis
    by (simp add: first_of_next_month_def ymd2ord_def days_before_year_step
        days_before_month_january days_in_month_def)
next
  case False
  with assms have "month d < 12" by simp
  from days_before_month_step [OF assms(1) this, of "year d"] False show ?thesis
    by (simp add: first_of_next_month_def ymd2ord_def)
qed

lemma days_before_year_mono_nat:
  "days_before_year y + 365 * int n \<le> days_before_year (y + int n)"
proof (induction n)
  case 0
  show ?case by simp
next
  case (Suc n)
  have "days_before_year (y + int (Suc n)) = days_before_year ((y + int n) + 1)"
    by (simp add: algebra_simps)
  also have "\<dots> \<ge> days_before_year (y + int n) + 365"
    by (simp add: days_before_year_step)
  finally show ?case using Suc by simp
qed

lemma days_before_year_le:
  assumes "y \<le> z"
  shows "days_before_year y + 365 * (z - y) \<le> days_before_year z"
  using days_before_year_mono_nat [of y "nat (z - y)"] assms by simp

lemma day_of_year_bounds:
  assumes "valid_date d"
  shows "1 \<le> days_before_month (year d) (month d) + day d"
    "days_before_month (year d) (month d) + day d \<le> 366"
proof -
  from assms have m: "month d = 1 \<or> month d = 2 \<or> month d = 3 \<or> month d = 4 \<or> month d = 5
      \<or> month d = 6 \<or> month d = 7 \<or> month d = 8 \<or> month d = 9 \<or> month d = 10
      \<or> month d = 11 \<or> month d = 12"
    unfolding valid_date_def by arith
  from assms have d: "1 \<le> day d" "day d \<le> days_in_month (year d) (month d)"
    by (simp_all add: valid_date_def)
  from m d show "1 \<le> days_before_month (year d) (month d) + day d"
    by (elim disjE) (simp_all add: days_before_month_def)
  from m d show "days_before_month (year d) (month d) + day d \<le> 366"
    by (elim disjE) (simp_all add: days_before_month_def days_in_month_def split: if_splits)
qed

lemma days_before_year_2: "days_before_year 2 = 365"
  by (simp add: days_before_year_def)

lemma days_before_year_9999: "days_before_year 9999 = 3651694"
  by (simp add: days_before_year_def)

lemma ymd2ord_bounds:
  assumes "valid_date d" "2 \<le> year d" "year d \<le> 9998"
  shows "366 \<le> ymd2ord d" "ymd2ord d \<le> 3651695"
proof -
  from days_before_year_le [OF assms(2)] have "365 \<le> days_before_year (year d)"
    using assms(2) by (simp add: days_before_year_2)
  with day_of_year_bounds(1) [OF assms(1)] show "366 \<le> ymd2ord d"
    by (simp add: ymd2ord_def)
  from assms(3) have "year d \<le> 9999" by simp
  from days_before_year_le [OF this] assms(3) have "days_before_year (year d) \<le> 3651694 - 365"
    by (simp add: days_before_year_9999)
  with day_of_year_bounds(2) [OF assms(1)] show "ymd2ord d \<le> 3651695"
    by (simp add: ymd2ord_def)
qed


lemma datetime_min_value: "datetime_min = td_days 1"
  by (simp add: datetime_min_def wall_clock_def ymd2ord_def days_before_year_def
      days_before_month_def td_days_def)

lemma datetime_max_value: "datetime_max = td_days (max_ordinal + 1) - 1"
  by (simp add: datetime_max_def wall_clock_def ymd2ord_def days_before_year_def
      days_before_month_def td_days_def max_ordinal_def is_leap_def)

lemma wall_clock_at_midnight:
  assumes "hour t = 0" "minute t = 0" "second t = 0" "microsecond t = 0"
  shows "wall_clock t = td_days (ymd2ord t)"
  using assms by (simp add: wall_clock_def td_days_def)

section \<open>The report window\<close>

lemma window_anchor_midnight:
  "hour (window_anchor rd nl) = 0 \<and> minute (window_anchor rd nl) = 0
   \<and> second (window_anchor rd nl) = 0 \<and> microsecond (window_anchor rd nl) = 0"
  by (cases rd) (simp_all add: window_anchor_def time_min_combine_def)

lemma local_start_midnight:
  assumes "hour a = 0" "minute a = 0" "second a = 0" "microsecond a = 0"
  shows "wall_clock (local_start rt a) = td_days (ymd2ord (local_start rt a))"
  using assms by (intro wall_clock_at_midnight) (simp_all add: local_start_def)

lemma local_end_midnight:
  assumes "hour a = 0" "minute a = 0" "second a = 0" "microsecond a = 0"
  shows "wall_clock (local_end rt a) = td_days (ymd2ord (local_end rt a))"
  using assms add_days_time [of a 7] add_days_time [of a 1]
  by (intro wall_clock_at_midnight)
    (simp_all add: local_end_def first_of_next_month_def del: add_days.simps)

lemma valid_first_day:
  assumes "valid_date d"
  shows "valid_date (d\<lparr>day := 1\<rparr>)"
  using assms days_in_month_bounds(1) [of "year d" "month d"] by (simp add: valid_date_def)

lemma valid_first_of_next_month:
  assumes "valid_date d"
  shows "valid_date (first_of_next_month d)"
  using assms days_in_month_bounds(1) [of "year d" "month d + 1"]
    days_in_month_bounds(1) [of "year d + 1" 1]
  by (simp add: valid_date_def first_of_next_month_def)

lemma local_start_valid: "valid_date a \<Longrightarrow> valid_date (local_start rt a)"
  by (simp add: local_start_def valid_first_day)

lemma local_end_valid: "valid_date a \<Longrightarrow> valid_date (local_end rt a)"
  by (simp add: local_end_def valid_first_of_next_month valid_add_days del: add_days.simps)

lemma local_end_ord:
  assumes "valid_date a"
  shows "ymd2ord (local_end rt a) = ymd2ord (local_start rt a)
           + (if rt = ''weekly'' then 7
              else if rt = ''monthly'' then days_in_month (year a) (month a)
              else 1)"
proof -
  from assms have m: "1 \<le> month a" "month a \<le> 12" by (simp_all add: valid_date_def)
  from ymd2ord_add_days [OF assms, of 7] ymd2ord_add_days [OF assms, of 1]
    first_of_next_month_ord [OF m]
  show ?thesis by (simp add: local_end_def local_start_def del: add_days.simps)
qed

lemma calculate_window_eq:
  assumes "valid_date (window_anchor rd nl)"
  shows "calculate_window rt rd tz nl =
           (if window_in_range rt tz (window_anchor rd nl)
            then Inr (utc_of tz (local_start rt (window_anchor rd nl)),
                      utc_of tz (local_end rt (window_anchor rd nl)),
                      local_start rt (window_anchor rd nl))
            else Inl OverflowError)"
proof -
  define a where "a = window_anchor rd nl"
  have anchor: "(case rd of Some d \<Rightarrow> time_min_combine d
                 | None \<Rightarrow> nl\<lparr>hour := 0, minute := 0, second := 0, microsecond := 0\<rparr>) = a"
    by (simp add: a_def window_anchor_def)
  from assms have m: "1 \<le> month a" "month a \<le> 12" by (simp_all add: valid_date_def a_def)
  note roll = month_rollover [OF m]
  consider (weekly) "rt = ''weekly''" | (monthly) "rt = ''monthly''"
    | (daily) "rt \<noteq> ''weekly''" "rt \<noteq> ''monthly''" by blast
  then have "calculate_window rt rd tz nl =
           (if window_in_range rt tz a
            then Inr (utc_of tz (local_start rt a), utc_of tz (local_end rt a), local_start rt a)
            else Inl OverflowError)"
  proof cases
    case weekly
    then show ?thesis
      unfolding calculate_window_def anchor Let_def
      by (simp add: window_in_range_def local_start_def local_end_def days_added_def
          date_add_days_def astimezone_utc_def del: add_days.simps)
  next
    case monthly
    then show ?thesis
      unfolding calculate_window_def anchor Let_def
      by (simp add: window_in_range_def local_start_def local_end_def days_added_def
          date_add_days_def astimezone_utc_def roll del: add_days.simps)
  next
    case daily
    then show ?thesis
      unfolding calculate_window_def anchor Let_def
      by (simp add: window_in_range_def local_start_def local_end_def days_added_def
          date_add_days_def astimezone_utc_def del: add_days.simps)
  qed
  then show ?thesis by (simp add: a_def)
qed

lemma representable_midnight:
  assumes "366 \<le> n" "n \<le> 3651726" "\<bar>x\<bar> \<le> td_days 1"
  shows "representable (td_days n - x)"
proof -
  from assms(3) have x: "- 86400000000 \<le> x" "x \<le> 86400000000"
    by (simp_all add: td_days_def abs_le_iff)
  from assms(1,2) have n: "366 * 86400000000 \<le> n * 86400000000"
    "n * 86400000000 \<le> 3651726 * 86400000000" by simp_all
  from x n show ?thesis
    unfolding representable_def datetime_min_value datetime_max_value td_days_def max_ordinal_def
    by simp
qed

lemma window_in_range_sufficient:
  assumes v: "valid_date a" and y: "2 \<le> year a" "year a \<le> 9998"
    and mid: "hour a = 0" "minute a = 0" "second a = 0" "microsecond a = 0"
    and off: "\<bar>tz (wall_clock (local_start rt a))\<bar> \<le> td_days 1"
             "\<bar>tz (wall_clock (local_end rt a))\<bar> \<le> td_days 1"
  shows "window_in_range rt tz a"
proof -
  have sv: "valid_date (local_start rt a)" by (rule local_start_valid [OF v])
  have sy: "year (local_start rt a) = year a" by (simp add: local_start_def)
  from ymd2ord_bounds [OF sv] y sy
  have s: "366 \<le> ymd2ord (local_start rt a)" "ymd2ord (local_start rt a) \<le> 3651695" by simp_all
  have "days_added rt \<le> 32" by (simp add: days_added_def)
  with s have add: "0 < ymd2ord (local_start rt a) + int (days_added rt)"
    "ymd2ord (local_start rt a) + int (days_added rt) \<le> max_ordinal"
    by (simp_all add: max_ordinal_def)
  from local_end_ord [OF v, of rt] days_in_month_bounds [of "year a" "month a"] s
  have e: "366 \<le> ymd2ord (local_end rt a)" "ymd2ord (local_end rt a) \<le> 3651726"
    by (simp_all split: if_splits)
  from s have s': "ymd2ord (local_start rt a) \<le> 3651726" by simp
  have "representable (utc_of tz (local_start rt a))"
    unfolding utc_of_def using representable_midnight [OF s(1) s' off(1)]
    by (simp add: local_start_midnight [OF mid])
  moreover have "representable (utc_of tz (local_end rt a))"
    unfolding utc_of_def using representable_midnight [OF e off(2)]
    by (simp add: local_end_midnight [OF mid])
  ultimately show ?thesis using add by (simp add: window_in_range_def)
qed

text \<open>
  Claim C1 says that the window has the stated bounds for every zone and every anchor
  date. At the end of the range of \<^verbatim>\<open>datetime\<close> no window is computed: the daily window of
  9999-12-31 and the monthly window of 9999-12-15 end after the last date, and the
  addition raises \<^verbatim>\<open>OverflowError\<close>.
\<close>

theorem window_overflow_counterexample:
  "calculate_window ''daily'' (Some \<lparr>year = 9999, month = 12, day = 31\<rparr>) tz_utc
       \<lparr>year = 2024, month = 1, day = 15, hour = 13, minute = 0, second = 0, microsecond = 0\<rparr>
     = Inl OverflowError
   \<and> calculate_window ''monthly'' (Some \<lparr>year = 9999, month = 12, day = 15\<rparr>) tz_utc
       \<lparr>year = 2024, month = 1, day = 15, hour = 13, minute = 0, second = 0, microsecond = 0\<rparr>
     = Inl OverflowError"
  by (simp add: calculate_window_def Let_def date_add_days_def time_min_combine_def ymd2ord_def
      days_before_year_def days_before_month_def is_leap_def max_ordinal_def)

text \<open>
  Claim C1, amended. Let the anchor be the midnight of the requested date, or of today in
  the zone when no date is requested, and let it be a date of the calendar. Whenever the
  bounds are in the range of \<^verbatim>\<open>datetime\<close>, \<open>calculate_window\<close> returns the local start and
  the local end, each converted to UTC by subtracting the zone's offset at that reading,
  and the local start itself; otherwise it raises \<^verbatim>\<open>OverflowError\<close>. Both local bounds are
  midnights. For \<^verbatim>\<open>weekly\<close> the start is the anchor and the end is exactly 7 days of
  wall-clock time later; for \<^verbatim>\<open>daily\<close> exactly 1 day later; for \<^verbatim>\<open>monthly\<close> the start is
  day 1 of the anchor's month and the end is day 1 of the following month, which is the
  length of the anchor's month later, whatever that length and across the turn of the
  year. The bounds are in range for every anchor of the years 2 to 9998 in a zone whose
  offsets at the two bounds are at most a day.
\<close>

theorem calculate_window_bounds:
  assumes "valid_date (window_anchor report_date now_local)"
  shows "let anchor = window_anchor report_date now_local;
             s = local_start rtype anchor;
             e = local_end rtype anchor
         in calculate_window rtype report_date tz now_local =
              (if window_in_range rtype tz anchor
               then Inr (wall_clock s - tz (wall_clock s), wall_clock e - tz (wall_clock e), s)
               else Inl OverflowError)
            \<and> s = (if rtype = ''monthly'' then anchor\<lparr>day := 1\<rparr> else anchor)
            \<and> (rtype = ''monthly'' \<longrightarrow> e = first_of_next_month anchor)
            \<and> wall_clock s = td_days (ymd2ord s)
            \<and> wall_clock e = wall_clock s
                  + td_days (if rtype = ''weekly'' then 7
                             else if rtype = ''monthly''
                                  then days_in_month (year anchor) (month anchor)
                                  else 1)
            \<and> valid_date s \<and> valid_date e
            \<and> (2 \<le> year anchor \<and> year anchor \<le> 9998
                 \<and> \<bar>tz (wall_clock s)\<bar> \<le> td_days 1 \<and> \<bar>tz (wall_clock e)\<bar> \<le> td_days 1
                 \<longrightarrow> window_in_range rtype tz anchor)"
proof -
  define anchor where "anchor = window_anchor report_date now_local"
  from assms have v: "valid_date anchor" by (simp add: anchor_def)
  have mid: "hour anchor = 0" "minute anchor = 0" "second anchor = 0" "microsecond anchor = 0"
    using window_anchor_midnight [of report_date now_local] by (simp_all add: anchor_def)
  have run: "calculate_window rtype report_date tz now_local =
      (if window_in_range rtype tz anchor
       then Inr (wall_clock (local_start rtype anchor)
                   - tz (wall_clock (local_start rtype anchor)),
                 wall_clock (local_end rtype anchor)
                   - tz (wall_clock (local_end rtype anchor)),
                 local_start rtype anchor)
       else Inl OverflowError)"
    using calculate_window_eq [OF assms, of rtype tz] by (simp add: anchor_def utc_of_def)
  have span: "wall_clock (local_end rtype anchor) = wall_clock (local_start rtype anchor)
      + td_days (if rtype = ''weekly'' then 7
                 else if rtype = ''monthly'' then days_in_month (year anchor) (month anchor)
                 else 1)"
    unfolding local_start_midnight [OF mid] local_end_midnight [OF mid] local_end_ord [OF v]
    by (simp add: td_days_def algebra_simps)
  have enough: "window_in_range rtype tz anchor"
    if "2 \<le> year anchor" "year anchor \<le> 9998"
      "\<bar>tz (wall_clock (local_start rtype anchor))\<bar> \<le> td_days 1"
      "\<bar>tz (wall_clock (local_end rtype anchor))\<bar> \<le> td_days 1"
    using window_in_range_sufficient [OF v that(1,2) mid that(3,4)] .
  have shape: "local_start rtype anchor
        = (if rtype = ''monthly'' then anchor\<lparr>day := 1\<rparr> else anchor)"
    "rtype = ''monthly'' \<longrightarrow> local_end rtype anchor = first_of_next_month anchor"
    by (simp_all add: local_start_def local_end_def)
  from run shape span enough local_start_midnight [OF mid, of rtype]
    local_start_valid [OF v, of rtype] local_end_valid [OF v, of rtype]
  show ?thesis unfolding Let_def anchor_def [symmetric] by blast
qed

theorem calculate_window_bounds_witness:
  "calculate_window ''monthly'' (Some \<lparr>year = 2024, month = 2, day = 1\<rparr>) (tz_fixed (td_hours 1))
       \<lparr>year = 2024, month = 2, day = 20, hour = 9, minute = 30, second = 0, microsecond = 0\<rparr>
     = Inr (wall_clock \<lparr>year = 2024, month = 1, day = 31,
                         hour = 23, minute = 0, second = 0, microsecond = 0\<rparr>,
            wall_clock \<lparr>year = 2024, month = 2, day = 29,
                         hour = 23, minute = 0, second = 0, microsecond = 0\<rparr>,
            \<lparr>year = 2024, month = 2, day = 1,
             hour = 0, minute = 0, second = 0, microsecond = 0\<rparr>)
   \<and> calculate_window ''monthly'' None (tz_fixed (td_hours 1))
       \<lparr>year = 2023, month = 12, day = 15, hour = 9, minute = 30, second = 0, microsecond = 0\<rparr>
     = Inr (wall_clock \<lparr>year = 2023, month = 11, day = 30,
                         hour = 23, minute = 0, second = 0, microsecond = 0\<rparr>,
            wall_clock \<lparr>year = 2023, month = 12, day = 31,
                         hour = 23, minute = 0, second = 0, microsecond = 0\<rparr>,
            \<lparr>year = 2023, month = 12, day = 1,
             hour = 0, minute = 0, second = 0, microsecond = 0\<rparr>)"
proof -
  have v: "valid_date (window_anchor (Some \<lparr>year = 2024, month = 2, day = 1\<rparr>)
      \<lparr>year = 2024, month = 2, day = 20, hour = 9, minute = 30, second = 0, microsecond = 0\<rparr>)"
    by (simp add: window_anchor_def time_min_combine_def valid_date_def days_in_month_def)
  have w: "valid_date (window_anchor None
      \<lparr>year = 2023, month = 12, day = 15, hour = 9, minute = 30, second = 0, microsecond = 0\<rparr>)"
    by (simp add: window_anchor_def valid_date_def days_in_month_def)
  have ev: "ymd2ord \<lparr>year = 2024, month = 2, day = 1, hour = 0, minute = 0, second = 0, microsecond = 0\<rparr> = 738917"
    "ymd2ord \<lparr>year = 2024, month = 3, day = 1, hour = 0, minute = 0, second = 0, microsecond = 0\<rparr> = 738946"
    "ymd2ord \<lparr>year = 2023, month = 12, day = 1, hour = 0, minute = 0, second = 0, microsecond = 0\<rparr> = 738855"
    "ymd2ord \<lparr>year = 2024, month = 1, day = 1, hour = 0, minute = 0, second = 0, microsecond = 0\<rparr> = 738886"
    by (simp_all add: ymd2ord_def days_before_year_def days_before_month_def is_leap_def)
  show ?thesis
    using calculate_window_bounds [OF v, of "''monthly''" "tz_fixed (td_hours 1)"]
      calculate_window_bounds [OF w, of "''monthly''" "tz_fixed (td_hours 1)"]
    by (simp add: Let_def window_anchor_def time_min_combine_def local_start_def local_end_def
        first_of_next_month_def window_in_range_def days_added_def max_ordinal_def
        utc_of_def representable_def datetime_min_value datetime_max_value td_days_def
        tz_fixed_def td_hours_def wall_clock_def ev ymd2ord_def days_before_year_def
        days_before_month_def is_leap_def)
qed

section \<open>The completion predicate\<close>

lemma lower_char_not_upper: "\<not> is_ascii_upper c \<Longrightarrow> lower_char c = c"
proof -
  assume "\<not> is_ascii_upper c"
  then have "c \<notin> fst ` set (zip ascii_uppercase ascii_lowercase)"
    by (simp add: is_ascii_upper_def ascii_uppercase_def ascii_lowercase_def)
  then have "map_of (zip ascii_uppercase ascii_lowercase) c = None"
    by (simp add: map_of_eq_None_iff)
  then show ?thesis by (simp add: lower_char_def)
qed

lemma lower_not_upper: "is_ascii_lower c \<Longrightarrow> \<not> is_ascii_upper c"
  by (auto simp: is_ascii_lower_def is_ascii_upper_def ascii_uppercase_def ascii_lowercase_def)

lemma lower_char_eq_iff:
  assumes "is_ascii_lower d"
  shows "lower_char c = d \<longleftrightarrow> same_letter c d"
proof -
  from assms have nd: "\<not> is_ascii_upper d" by (rule lower_not_upper)
  then have "lower_char d = d" by (rule lower_char_not_upper)
  with nd show ?thesis
    using lower_char_not_upper [of c] by (cases "is_ascii_upper c") (auto simp: same_letter_def)
qed

lemma py_lower_eq_iff:
  "list_all is_ascii_lower w \<Longrightarrow> py_lower s = w \<longleftrightarrow> equal_ignoring_case s w"
proof (induction s arbitrary: w)
  case Nil
  then show ?case by (auto simp: py_lower_def equal_ignoring_case_def)
next
  case (Cons c s)
  show ?case
  proof (cases w)
    case Nil
    then show ?thesis by (simp add: py_lower_def equal_ignoring_case_def)
  next
    case (Cons d w')
    with Cons.prems have "is_ascii_lower d" "list_all is_ascii_lower w'" by simp_all
    with Cons.IH [of w'] Cons show ?thesis
      by (simp add: py_lower_def equal_ignoring_case_def lower_char_eq_iff)
  qed
qed

lemma status_words_lower:
  "list_all is_ascii_lower ''done''" "list_all is_ascii_lower ''completed''"
  "list_all is_ascii_lower ''resolved''"
  by (simp_all add: is_ascii_lower_def ascii_lowercase_def)

text \<open>
  Claim C2. A task is completed exactly when its \<^verbatim>\<open>end_at\<close> is set or its status equals,
  up to the case of its letters, one of \<^verbatim>\<open>done\<close>, \<^verbatim>\<open>completed\<close>, \<^verbatim>\<open>resolved\<close>.
  The predicate is a function of the task alone, so an unmodified task gives the same
  answer wherever it is evaluated.
\<close>

theorem is_completed_iff:
  "is_completed t \<longleftrightarrow>
     end_at t \<noteq> None \<or>
     (case status t of
        None \<Rightarrow> False
      | Some s \<Rightarrow> equal_ignoring_case s ''done'' \<or> equal_ignoring_case s ''completed''
                  \<or> equal_ignoring_case s ''resolved'')"
proof (cases "status t")
  case None
  then show ?thesis by (simp add: is_completed_def or_empty_def py_lower_def)
next
  case (Some s)
  then show ?thesis
    using py_lower_eq_iff [OF status_words_lower(1), of s]
      py_lower_eq_iff [OF status_words_lower(2), of s]
      py_lower_eq_iff [OF status_words_lower(3), of s]
    by (auto simp: is_completed_def or_empty_def)
qed

theorem is_completed_iff_witness:
  "end_at \<lparr>t_id = 1, user_id = Some 7, organization_id = None, project_id = None,
       title = ''Write summary'', due_at = None, end_at = None, status = Some ''DoNe'',
       priority = None, created_at = 0\<rparr> = None \<and>
   is_completed \<lparr>t_id = 1, user_id = Some 7, organization_id = None, project_id = None,
       title = ''Write summary'', due_at = None, end_at = None, status = Some ''DoNe'',
       priority = None, created_at = 0\<rparr>"
  using is_completed_iff [of "\<lparr>t_id = 1, user_id = Some 7, organization_id = None,
       project_id = None, title = ''Write summary'', due_at = None, end_at = None,
       status = Some ''DoNe'', priority = None, created_at = 0\<rparr>"]
  by (simp add: equal_ignoring_case_def same_letter_def is_ascii_upper_def lower_char_def
      ascii_uppercase_def ascii_lowercase_def)

section \<open>Counts\<close>

lemma foldl_count_task:
  "foldl (count_task now_utc) c tasks =
     \<lparr>total_count = total_count c + int (length tasks),
      completed = completed c + int (length (filter is_completed tasks)),
      overdue = overdue c
        + int (length (filter (\<lambda>t. \<not> is_completed t \<and> due_before now_utc t) tasks))\<rparr>"
proof (induction tasks arbitrary: c)
  case Nil
  then show ?case by simp
next
  case (Cons t tasks)
  have "foldl (count_task now_utc) c (t # tasks)
          = foldl (count_task now_utc) (count_task now_utc c t) tasks"
    by simp
  also note Cons.IH
  finally have step: "foldl (count_task now_utc) c (t # tasks) =
     \<lparr>total_count = total_count (count_task now_utc c t) + int (length tasks),
      completed = completed (count_task now_utc c t) + int (length (filter is_completed tasks)),
      overdue = overdue (count_task now_utc c t)
        + int (length (filter (\<lambda>t. \<not> is_completed t \<and> due_before now_utc t) tasks))\<rparr>" .
  show ?case unfolding step by (simp add: count_task_def Let_def)
qed

lemma three_way_partition:
  "length (filter P xs) + length (filter (\<lambda>x. \<not> P x \<and> Q x) xs)
     + length (filter (\<lambda>x. \<not> P x \<and> \<not> Q x) xs) = length xs"
  by (induction xs) simp_all

lemma due_before_iff: "due_before now_utc t \<longleftrightarrow> (\<exists>d. due_at t = Some d \<and> d < now_utc)"
  by (simp add: due_before_def split: option.split)

lemmas eval_is_completed =
  is_completed_def or_empty_def py_lower_def lower_char_def ascii_uppercase_def
  ascii_lowercase_def sample_task_def

text \<open>
  Claim C4. For every task list and evaluation time the counts satisfy
  \<open>completed + overdue \<le> total\<close>, with equality exactly when every task that is not
  completed has a due date strictly before the evaluation time. The total is the number of
  tasks, \<open>completed\<close> the number of completed ones and \<open>overdue\<close> the number of those not
  completed and due strictly before the evaluation time: a task that is not completed and
  has no due date, or one not yet passed, is counted in neither.
\<close>

theorem compute_counts_invariant:
  "total_count (compute_counts now_utc tasks) = int (length tasks)
   \<and> completed (compute_counts now_utc tasks) = int (length (filter is_completed tasks))
   \<and> overdue (compute_counts now_utc tasks) =
       int (length (filter (\<lambda>t. \<not> is_completed t \<and> (\<exists>d. due_at t = Some d \<and> d < now_utc)) tasks))
   \<and> completed (compute_counts now_utc tasks) + overdue (compute_counts now_utc tasks)
       \<le> total_count (compute_counts now_utc tasks)
   \<and> (completed (compute_counts now_utc tasks) + overdue (compute_counts now_utc tasks)
        = total_count (compute_counts now_utc tasks)
      \<longleftrightarrow> (\<forall>t \<in> set tasks. \<not> is_completed t \<longrightarrow> (\<exists>d. due_at t = Some d \<and> d < now_utc)))"
proof -
  let ?rest = "filter (\<lambda>t. \<not> is_completed t \<and> \<not> due_before now_utc t) tasks"
  have part: "length (filter is_completed tasks)
      + length (filter (\<lambda>t. \<not> is_completed t \<and> due_before now_utc t) tasks)
      + length ?rest = length tasks"
    by (rule three_way_partition)
  have rest: "length ?rest = 0 \<longleftrightarrow> (\<forall>t \<in> set tasks. \<not> is_completed t \<longrightarrow> due_before now_utc t)"
    by (auto simp: filter_empty_conv)
  from part rest show ?thesis
    unfolding compute_counts_def foldl_count_task due_before_iff [symmetric]
    by (simp del: length_0_conv) linarith
qed


theorem compute_counts_invariant_witness:
  "completed (compute_counts 10
         [sample_task 1 (Some ''Done'') None None, sample_task 2 (Some ''pending'') (Some 5) None])
     + overdue (compute_counts 10
         [sample_task 1 (Some ''Done'') None None, sample_task 2 (Some ''pending'') (Some 5) None])
     = total_count (compute_counts 10
         [sample_task 1 (Some ''Done'') None None, sample_task 2 (Some ''pending'') (Some 5) None])"
proof -
  have h: "\<forall>t \<in> set [sample_task 1 (Some ''Done'') None None, sample_task 2 (Some ''pending'') (Some 5) None].
      \<not> is_completed t \<longrightarrow> (\<exists>d. due_at t = Some d \<and> d < 10)"
    by (simp add: eval_is_completed)
  with compute_counts_invariant [of 10
      "[sample_task 1 (Some ''Done'') None None, sample_task 2 (Some ''pending'') (Some 5) None]"]
  show ?thesis by blast
qed

section \<open>The overdue trend\<close>

text \<open>
  The trend counts every task that is not completed and has a due date, whether or not the
  due date has passed.
\<close>

lemma sum_dict_incr: "sum_list (map snd (dict_incr k ps)) = sum_list (map snd ps) + 1"
  by (induction k ps rule: dict_incr.induct) simp_all

lemma sum_insort_key:
  fixes g :: "'a \<Rightarrow> int"
  shows "sum_list (map g (insort_key f x xs)) = g x + sum_list (map g xs)"
  by (induction xs) simp_all

lemma sum_sort_key:
  fixes g :: "'a \<Rightarrow> int"
  shows "sum_list (map g (sort_key f xs)) = sum_list (map g xs)"
  by (induction xs) (simp_all add: sum_insort_key)

lemma foldl_metrics_task_periods:
  "sum_list (map snd (acc_overdue_by_period (foldl (metrics_task fmt_date tz locale) a tasks)))
     = sum_list (map snd (acc_overdue_by_period a))
       + int (length (filter (\<lambda>t. \<not> is_completed t \<and> due_at t \<noteq> None) tasks))"
proof (induction tasks arbitrary: a)
  case Nil
  then show ?case by simp
next
  case (Cons t tasks)
  have one: "sum_list (map snd (acc_overdue_by_period (metrics_task fmt_date tz locale a t)))
      = sum_list (map snd (acc_overdue_by_period a))
        + (if \<not> is_completed t \<and> due_at t \<noteq> None then 1 else 0)"
    by (auto simp: metrics_task_def Let_def sum_dict_incr split: option.splits)
  have step: "foldl (metrics_task fmt_date tz locale) a (t # tasks)
          = foldl (metrics_task fmt_date tz locale) (metrics_task fmt_date tz locale a t) tasks"
    by simp
  show ?case unfolding step Cons.IH one by auto
qed

lemma trend_total_points:
  "trend_total (map (\<lambda>(period, count). \<lparr>period = period, tp_overdue = count\<rparr>) ps)
     = sum_list (map snd ps)"
  by (induction ps) (auto simp: trend_total_def)

lemma overdue_trend_total:
  "trend_total (overdue_trend (compute_org_metrics fmt_date tasks tz locale))
     = int (length (filter (\<lambda>t. \<not> is_completed t \<and> due_at t \<noteq> None) tasks))"
  by (simp add: compute_org_metrics_def Let_def trend_total_points sum_sort_key
      foldl_metrics_task_periods)

text \<open>
  Claim C3 says that the per-bucket counts of the overdue trend sum to the overdue count of
  the counts block. For one pending task that is due after the evaluation time the trend
  sums to 1 and the overdue count is 0: \<open>metrics_task\<close> tests only that the due date is
  set, where \<open>count_task\<close> also tests that it has passed.
\<close>

theorem overdue_trend_counts_future_due:
  "trend_total (overdue_trend
       (compute_org_metrics fmt_date [sample_task 1 (Some ''pending'') (Some 100) None] tz locale)) = 1
   \<and> overdue (compute_counts 50 [sample_task 1 (Some ''pending'') (Some 100) None]) = 0"
  by (simp add: overdue_trend_total compute_counts_def count_task_def due_before_def Let_def
      eval_is_completed)

section \<open>The orchestrator\<close>

lemma str_join_cons2: "str_join newline (x # y # ys) \<noteq> []"
  by (simp add: newline_def)

lemma format_user_summary_nonempty:
  "format_user_summary env locale rtype anchor c next_ts overdue_ts tz ws we \<noteq> []"
  unfolding format_user_summary_def Let_def
  by (simp add: str_join_cons2 del: str_join.simps)

lemma format_org_summary_nonempty:
  "format_org_summary env locale sc rtype c m tz ws we \<noteq> []"
  unfolding format_org_summary_def Let_def
  by (simp add: str_join_cons2 del: str_join.simps)

text \<open>The second line of a summary carries the counts.\<close>

lemma format_user_summary_lines:
  "\<exists>first rest. format_user_summary env locale rtype anchor c next_ts overdue_ts tz ws we
      = str_join newline (first # translate env locale ''report_user_counts'' (counts_args c) # rest)"
proof -
  have shape: "\<exists>first rest. str_join newline (a # b # xs) = str_join newline (first # b # rest)"
    for a b :: string and xs
    by blast
  show ?thesis
    unfolding format_user_summary_def Let_def
    by (simp del: str_join.simps add: shape)
qed

lemma format_org_summary_lines:
  "\<exists>first rest. format_org_summary env locale sc rtype c m tz ws we
      = str_join newline (first # translate env locale ''report_user_counts'' (counts_args c) # rest)"
proof -
  have shape: "\<exists>first rest. str_join newline (a # b # xs) = str_join newline (first # b # rest)"
    for a b :: string and xs
    by blast
  show ?thesis
    unfolding format_org_summary_def Let_def
    by (simp del: str_join.simps add: shape)
qed

text \<open>What \<open>generate\<close> returns, by the outcome of the window and by the scope.\<close>

lemma generate_window_error:
  assumes "calculate_window (report_type p) (rq_date p) (request_timezone env p)
             (fromutc env (request_timezone env p) (utcnow env 0)) = Inl e"
  shows "generate env p princ = Inl e"
  using assms unfolding generate_def request_timezone_def Let_def by simp

lemma generate_user:
  assumes "calculate_window (report_type p) (rq_date p) (request_timezone env p)
             (fromutc env (request_timezone env p) (utcnow env 0)) = Inr (ws, we, anchor)"
    and "determine_scope p = USER"
  shows "generate env p princ =
     (let locale = request_locale env p;
          tz = request_timezone env p;
          tasks = fetch_tasks env p ws we;
          c = compute_counts (utcnow env 1) tasks;
          next_ts = select_next_tasks tasks tz;
          overdue_ts = select_overdue_tasks (utcnow env 2) tasks tz;
          text = format_user_summary env locale (report_type p) (utc_of tz anchor) c
                   next_ts overdue_ts tz ws we;
          response = (\<lambda>url.
            \<lparr>rs_report_type = report_type p, scope = USER, summary = text, counts = Some c,
             next_tasks = next_ts, overdue_tasks = overdue_ts, metrics = None, file_url = url,
             rs_format = rq_format p, generated_at = utcnow env 3\<rparr>)
      in if rq_format p = PDF then
           (case render_user_pdf env locale p princ c text tasks tz ws we of
              Inl e \<Rightarrow> Inl e
            | Inr file_path \<Rightarrow> Inr (response (Some file_path)))
         else Inr (response None))"
  using assms unfolding generate_def request_timezone_def request_locale_def Let_def
  by (simp split: sum.splits)

lemma generate_org:
  assumes "calculate_window (report_type p) (rq_date p) (request_timezone env p)
             (fromutc env (request_timezone env p) (utcnow env 0)) = Inr (ws, we, anchor)"
    and "determine_scope p \<noteq> USER"
  shows "generate env p princ =
     (let locale = request_locale env p;
          tz = request_timezone env p;
          tasks = fetch_tasks env p ws we;
          c = compute_counts (utcnow env 1) tasks;
          m = compute_org_metrics (format_date env) tasks tz locale;
          text = format_org_summary env locale (determine_scope p) (report_type p) c m tz ws we;
          response = (\<lambda>url.
            \<lparr>rs_report_type = report_type p, scope = determine_scope p, summary = text,
             counts = Some c, next_tasks = [], overdue_tasks = [], metrics = Some m,
             file_url = url, rs_format = rq_format p, generated_at = utcnow env 3\<rparr>)
      in if rq_format p = CSV then
           (case render_org_csv env locale p princ m tz ws we of
              Inl e \<Rightarrow> Inl e
            | Inr file_path \<Rightarrow> Inr (response (Some file_path)))
         else Inr (response None))"
  using assms unfolding generate_def request_timezone_def request_locale_def Let_def
  by (simp split: sum.splits)

lemma format_only_read_at_end:
  "request_timezone env (p\<lparr>rq_format := f\<rparr>) = request_timezone env p"
  "request_locale env (p\<lparr>rq_format := f\<rparr>) = request_locale env p"
  "determine_scope (p\<lparr>rq_format := f\<rparr>) = determine_scope p"
  "fetch_tasks env (p\<lparr>rq_format := f\<rparr>) ws we = fetch_tasks env p ws we"
  by (simp_all add: request_timezone_def request_locale_def determine_scope_def fetch_tasks_def
      matches_request_def)

text \<open>
  Claim C5 says that a request with a format that does not fit its scope is answered
  without an exception. The window is computed before the format is looked at: an
  organisation report as PDF for 9999-12-31 raises \<^verbatim>\<open>OverflowError\<close>.
\<close>

theorem format_mismatch_overflow_counterexample:
  "determine_scope \<lparr>report_type = ''daily'', rq_user_id = None, rq_organization_id = Some 1,
        rq_team_id = None, rq_project_id = None,
        rq_date = Some \<lparr>year = 9999, month = 12, day = 31\<rparr>, rq_timezone = None,
        rq_locale = None, rq_format = PDF\<rparr> = ORGANIZATION
   \<and> generate sample_report_env \<lparr>report_type = ''daily'', rq_user_id = None,
        rq_organization_id = Some 1, rq_team_id = None, rq_project_id = None,
        rq_date = Some \<lparr>year = 9999, month = 12, day = 31\<rparr>, rq_timezone = None,
        rq_locale = None, rq_format = PDF\<rparr> sample_principal = Inl OverflowError"
proof -
  have "calculate_window ''daily'' (Some \<lparr>year = 9999, month = 12, day = 31\<rparr>) tz now_local
      = Inl OverflowError" for tz now_local
    by (simp add: calculate_window_def Let_def date_add_days_def time_min_combine_def ymd2ord_def
        days_before_year_def days_before_month_def is_leap_def max_ordinal_def)
  then show ?thesis
    by (simp add: generate_window_error determine_scope_def)
qed

text \<open>
  Claim C5, amended. Take a request whose scope is not USER and whose format is PDF, or
  whose scope is USER and whose format is CSV. If the window cannot be computed, its
  exception leaves \<open>generate\<close>. Otherwise \<open>generate\<close> returns, without calling an
  exporter, the response of the scope: the counts of the tasks fetched for the window,
  for USER the next and the overdue tasks and the user summary rendered from them, for
  the other scopes the metrics and the organisation summary rendered from them, and no
  file. The summary is not empty, its second line carries the counts, and the response is
  the one given to the same request with the format TEXT, up to the format that it echoes.
\<close>

theorem format_mismatch_degrades:
  assumes "(determine_scope p \<noteq> USER \<and> rq_format p = PDF)
         \<or> (determine_scope p = USER \<and> rq_format p = CSV)"
  shows "let locale = request_locale env p;
             tz = request_timezone env p
         in case calculate_window (report_type p) (rq_date p) tz (fromutc env tz (utcnow env 0)) of
              Inl e \<Rightarrow> generate env p princ = Inl e
            | Inr (window_start, window_end, anchor) \<Rightarrow>
                (let tasks = fetch_tasks env p window_start window_end;
                     c = compute_counts (utcnow env 1) tasks;
                     m = compute_org_metrics (format_date env) tasks tz locale;
                     next_ts = select_next_tasks tasks tz;
                     overdue_ts = select_overdue_tasks (utcnow env 2) tasks tz;
                     resp =
                       (if determine_scope p = USER then
                          \<lparr>rs_report_type = report_type p, scope = USER,
                           summary = format_user_summary env locale (report_type p)
                                       (utc_of tz anchor) c next_ts overdue_ts tz
                                       window_start window_end,
                           counts = Some c, next_tasks = next_ts, overdue_tasks = overdue_ts,
                           metrics = None, file_url = None, rs_format = CSV,
                           generated_at = utcnow env 3\<rparr>
                        else
                          \<lparr>rs_report_type = report_type p, scope = determine_scope p,
                           summary = format_org_summary env locale (determine_scope p)
                                       (report_type p) c m tz window_start window_end,
                           counts = Some c, next_tasks = [], overdue_tasks = [],
                           metrics = Some m, file_url = None, rs_format = PDF,
                           generated_at = utcnow env 3\<rparr>)
                 in generate env p princ = Inr resp
                    \<and> generate env (p\<lparr>rq_format := TEXT\<rparr>) princ = Inr (resp\<lparr>rs_format := TEXT\<rparr>)
                    \<and> file_url resp = None
                    \<and> summary resp \<noteq> []
                    \<and> (\<exists>first rest.
                          summary resp =
                            str_join newline
                              (first # translate env locale ''report_user_counts'' (counts_args c)
                               # rest)))"
proof (cases "calculate_window (report_type p) (rq_date p) (request_timezone env p)
                (fromutc env (request_timezone env p) (utcnow env 0))")
  case (Inl e)
  with generate_window_error [OF Inl, of princ] show ?thesis by (simp add: Let_def)
next
  case (Inr w)
  obtain ws we anchor where w: "w = (ws, we, anchor)" by (cases w)
  note win = Inr [unfolded w]
  have win': "calculate_window (report_type (p\<lparr>rq_format := TEXT\<rparr>)) (rq_date (p\<lparr>rq_format := TEXT\<rparr>))
      (request_timezone env (p\<lparr>rq_format := TEXT\<rparr>))
      (fromutc env (request_timezone env (p\<lparr>rq_format := TEXT\<rparr>)) (utcnow env 0)) = Inr (ws, we, anchor)"
    using win by (simp add: format_only_read_at_end)
  from assms show ?thesis
  proof
    assume a: "determine_scope p \<noteq> USER \<and> rq_format p = PDF"
    then have sc: "determine_scope p \<noteq> USER" and sc': "determine_scope (p\<lparr>rq_format := TEXT\<rparr>) \<noteq> USER"
      by (simp_all add: format_only_read_at_end)
    from a generate_org [OF win sc, of princ] generate_org [OF win' sc', of princ]
    show ?thesis
      by (simp add: win Let_def format_only_read_at_end format_org_summary_nonempty
          format_org_summary_lines del: str_join.simps)
  next
    assume a: "determine_scope p = USER \<and> rq_format p = CSV"
    then have sc: "determine_scope p = USER" and sc': "determine_scope (p\<lparr>rq_format := TEXT\<rparr>) = USER"
      by (simp_all add: format_only_read_at_end)
    from a generate_user [OF win sc, of princ] generate_user [OF win' sc', of princ]
    show ?thesis
      by (simp add: win Let_def format_only_read_at_end format_user_summary_nonempty
          format_user_summary_lines del: str_join.simps)
  qed
qed

lemma sample_report_window:
  "request_timezone sample_report_env
       \<lparr>report_type = ''daily'', rq_user_id = uid, rq_organization_id = org,
        rq_team_id = None, rq_project_id = None, rq_date = None, rq_timezone = None,
        rq_locale = None, rq_format = f\<rparr> = tz_fixed (td_hours 1)"
  "request_locale sample_report_env
       \<lparr>report_type = ''daily'', rq_user_id = uid, rq_organization_id = org,
        rq_team_id = None, rq_project_id = None, rq_date = None, rq_timezone = None,
        rq_locale = None, rq_format = f\<rparr> = ''en''"
  "calculate_window ''daily'' None (tz_fixed (td_hours 1))
       (fromutc sample_report_env (tz_fixed (td_hours 1)) (utcnow sample_report_env 0))
     = Inr (63840956400000000, 63841042800000000,
            \<lparr>year = 2024, month = 1, day = 15,
             hour = 0, minute = 0, second = 0, microsecond = 0\<rparr>)"
    by (simp_all add: request_timezone_def request_locale_def resolve_timezone_def fetch_user_def
        or_else_def normalize_locale_def sample_report_env_def sample_env_def
        calculate_window_def Let_def date_add_days_def astimezone_utc_def utc_of_def
        representable_def datetime_min_def datetime_max_def wall_clock_def next_day_def
        days_in_month_def max_ordinal_def tz_fixed_def td_hours_def ymd2ord_def
        days_before_year_def days_before_month_def is_leap_def split: option.splits)

lemma sample_report_tasks:
  "fetch_tasks sample_report_env
       \<lparr>report_type = ''daily'', rq_user_id = None, rq_organization_id = Some 1,
        rq_team_id = None, rq_project_id = None, rq_date = None, rq_timezone = None,
        rq_locale = None, rq_format = f\<rparr> 63840956400000000 63841042800000000
     = [(sample_task 1 (Some ''done'') None None)\<lparr>created_at := 63840988800000000\<rparr>,
        (sample_task 2 (Some ''pending'') (Some 63840996000000000) None)
          \<lparr>created_at := 63840992400000000\<rparr>]"
  "fetch_tasks sample_report_env
       \<lparr>report_type = ''daily'', rq_user_id = Some 7, rq_organization_id = None,
        rq_team_id = None, rq_project_id = None, rq_date = None, rq_timezone = None,
        rq_locale = None, rq_format = f\<rparr> 63840956400000000 63841042800000000
     = [(sample_task 1 (Some ''done'') None None)\<lparr>created_at := 63840988800000000\<rparr>,
        (sample_task 2 (Some ''pending'') (Some 63840996000000000) None)
          \<lparr>created_at := 63840992400000000\<rparr>]"
  by (simp_all add: fetch_tasks_def matches_request_def sample_report_env_def sample_env_def
      sample_task_def wall_clock_def ymd2ord_def days_before_year_def days_before_month_def
      is_leap_def)

lemma sample_report_counts:
  "compute_counts (utcnow sample_report_env n)
       [(sample_task 1 (Some ''done'') None None)\<lparr>created_at := 63840988800000000\<rparr>,
        (sample_task 2 (Some ''pending'') (Some 63840996000000000) None)
          \<lparr>created_at := 63840992400000000\<rparr>]
     = \<lparr>total_count = 2, completed = 1, overdue = 1\<rparr>"
  by (simp add: compute_counts_def count_task_def is_completed_def or_empty_def py_lower_def
      lower_char_def ascii_uppercase_def ascii_lowercase_def due_before_def
      sample_report_env_def sample_env_def sample_task_def wall_clock_def ymd2ord_def
      days_before_year_def days_before_month_def is_leap_def)

lemma sample_report_metrics:
  "compute_org_metrics (format_date sample_report_env)
       [(sample_task 1 (Some ''done'') None None)\<lparr>created_at := 63840988800000000\<rparr>,
        (sample_task 2 (Some ''pending'') (Some 63840996000000000) None)
          \<lparr>created_at := 63840992400000000\<rparr>] tz ''en''
     = \<lparr>throughput = 2, completion_rate = (1, 2),
        overdue_trend = [\<lparr>period = ''Jan 15, 2024'', tp_overdue = 1\<rparr>], active_users = 1\<rparr>"
  by (simp add: compute_org_metrics_def metrics_task_def is_completed_def or_empty_def
      py_lower_def lower_char_def ascii_uppercase_def ascii_lowercase_def format_date_def
      sample_report_env_def sample_env_def sample_task_def Let_def)

lemma sample_report_selection:
  "select_next_tasks
       [(sample_task 1 (Some ''done'') None None)\<lparr>created_at := 63840988800000000\<rparr>,
        (sample_task 2 (Some ''pending'') (Some 63840996000000000) None)
          \<lparr>created_at := 63840992400000000\<rparr>] tz
     = [\<lparr>rt_id = 2, rt_title = ''Prep brief'', rt_status = Some ''pending'',
         rt_priority = None, rt_due_at = Some 63840996000000000\<rparr>]"
  "select_overdue_tasks (utcnow sample_report_env n)
       [(sample_task 1 (Some ''done'') None None)\<lparr>created_at := 63840988800000000\<rparr>,
        (sample_task 2 (Some ''pending'') (Some 63840996000000000) None)
          \<lparr>created_at := 63840992400000000\<rparr>] tz
     = [\<lparr>rt_id = 2, rt_title = ''Prep brief'', rt_status = Some ''pending'',
         rt_priority = None, rt_due_at = Some 63840996000000000\<rparr>]"
  by (simp_all add: select_next_tasks_def select_overdue_tasks_def to_report_task_def
      due_before_def is_completed_def or_empty_def py_lower_def lower_char_def
      ascii_uppercase_def ascii_lowercase_def sample_report_env_def sample_env_def
      sample_task_def Let_def wall_clock_def ymd2ord_def days_before_year_def
      days_before_month_def is_leap_def)

theorem format_mismatch_degrades_witness:
  "(\<exists>resp. generate sample_report_env
        \<lparr>report_type = ''daily'', rq_user_id = None, rq_organization_id = Some 1,
         rq_team_id = None, rq_project_id = None, rq_date = None, rq_timezone = None,
         rq_locale = None, rq_format = PDF\<rparr> sample_principal = Inr resp
      \<and> file_url resp = None \<and> rs_format resp = PDF \<and> scope resp = ORGANIZATION
      \<and> counts resp = Some \<lparr>total_count = 2, completed = 1, overdue = 1\<rparr>
      \<and> summary resp = str_join newline
            [''report_org_header_organization'', ''report_user_counts'',
             ''report_org_throughput'', ''report_org_completion_rate'',
             ''report_org_active_users'', ''report_org_overdue_trend'', ''report_period''])
   \<and> (\<exists>resp. generate sample_report_env
        \<lparr>report_type = ''daily'', rq_user_id = Some 7, rq_organization_id = None,
         rq_team_id = None, rq_project_id = None, rq_date = None, rq_timezone = None,
         rq_locale = None, rq_format = CSV\<rparr> sample_principal = Inr resp
      \<and> file_url resp = None \<and> rs_format resp = CSV \<and> scope resp = USER
      \<and> counts resp = Some \<lparr>total_count = 2, completed = 1, overdue = 1\<rparr>
      \<and> map rt_id (next_tasks resp) = [2] \<and> map rt_id (overdue_tasks resp) = [2]
      \<and> summary resp = str_join newline
            [''report_user_header_daily'', ''report_user_counts'', ''report_period'',
             ''report_user_next_header'', ''report_user_task_line'',
             ''report_user_overdue_header'', ''report_user_task_line''])"
proof -
  have org: "determine_scope \<lparr>report_type = ''daily'', rq_user_id = None,
         rq_organization_id = Some 1, rq_team_id = None, rq_project_id = None, rq_date = None,
         rq_timezone = None, rq_locale = None, rq_format = PDF\<rparr> \<noteq> USER
      \<and> rq_format \<lparr>report_type = ''daily'', rq_user_id = None,
         rq_organization_id = Some 1, rq_team_id = None, rq_project_id = None, rq_date = None,
         rq_timezone = None, rq_locale = None, rq_format = PDF\<rparr> = PDF"
    by (simp add: determine_scope_def)
  have usr: "determine_scope \<lparr>report_type = ''daily'', rq_user_id = Some 7,
         rq_organization_id = None, rq_team_id = None, rq_project_id = None, rq_date = None,
         rq_timezone = None, rq_locale = None, rq_format = CSV\<rparr> = USER
      \<and> rq_format \<lparr>report_type = ''daily'', rq_user_id = Some 7,
         rq_organization_id = None, rq_team_id = None, rq_project_id = None, rq_date = None,
         rq_timezone = None, rq_locale = None, rq_format = CSV\<rparr> = CSV"
    by (simp add: determine_scope_def)
  have seams: "translate sample_report_env = (\<lambda>locale key args. key)"
    by (simp add: sample_report_env_def sample_env_def)
  have part1: "\<exists>resp. generate sample_report_env
        \<lparr>report_type = ''daily'', rq_user_id = None, rq_organization_id = Some 1,
         rq_team_id = None, rq_project_id = None, rq_date = None, rq_timezone = None,
         rq_locale = None, rq_format = PDF\<rparr> sample_principal = Inr resp
      \<and> file_url resp = None \<and> rs_format resp = PDF \<and> scope resp = ORGANIZATION
      \<and> counts resp = Some \<lparr>total_count = 2, completed = 1, overdue = 1\<rparr>
      \<and> summary resp = str_join newline
            [''report_org_header_organization'', ''report_user_counts'',
             ''report_org_throughput'', ''report_org_completion_rate'',
             ''report_org_active_users'', ''report_org_overdue_trend'', ''report_period'']"
    using format_mismatch_degrades [OF disjI1, OF org, of sample_report_env sample_principal]
    by (simp add: Let_def sample_report_window sample_report_tasks sample_report_counts
        sample_report_metrics determine_scope_def format_org_summary_def seams
        del: str_join.simps)
  have part2: "\<exists>resp. generate sample_report_env
        \<lparr>report_type = ''daily'', rq_user_id = Some 7, rq_organization_id = None,
         rq_team_id = None, rq_project_id = None, rq_date = None, rq_timezone = None,
         rq_locale = None, rq_format = CSV\<rparr> sample_principal = Inr resp
      \<and> file_url resp = None \<and> rs_format resp = CSV \<and> scope resp = USER
      \<and> counts resp = Some \<lparr>total_count = 2, completed = 1, overdue = 1\<rparr>
      \<and> map rt_id (next_tasks resp) = [2] \<and> map rt_id (overdue_tasks resp) = [2]
      \<and> summary resp = str_join newline
            [''report_user_header_daily'', ''report_user_counts'', ''report_period'',
             ''report_user_next_header'', ''report_user_task_line'',
             ''report_user_overdue_header'', ''report_user_task_line'']"
    using format_mismatch_degrades [OF disjI2, OF usr, of sample_report_env sample_principal]
    by (simp add: Let_def sample_report_window sample_report_tasks sample_report_counts
        sample_report_selection determine_scope_def format_user_summary_def
        user_task_line_def seams del: str_join.simps)
  from part1 part2 show ?thesis by (rule conjI)
qed

lemma determine_scope_no_identity:
  assumes "rq_user_id p = None" "rq_project_id p = None" "rq_team_id p = None"
    "rq_organization_id p = None"
  shows "determine_scope p = USER"
  using assms by (simp add: determine_scope_def)

lemma fetch_tasks_no_identity:
  assumes "rq_user_id p = None" "rq_project_id p = None" "rq_team_id p = None"
    "rq_organization_id p = None"
  shows "fetch_tasks env p ws we =
           sort_key created_at (filter (\<lambda>t. ws \<le> created_at t \<and> created_at t < we) (db_tasks env))"
  using assms by (simp add: fetch_tasks_def matches_request_def)

text \<open>
  Claim C6 says that \<open>generate\<close> raises an error for a request without any identifier.
  It does not: over the sample service such a request is answered.
\<close>

theorem generate_no_identity_counterexample:
  "\<not> isl (generate sample_env
       \<lparr>report_type = ''daily'', rq_user_id = None, rq_organization_id = None, rq_team_id = None,
        rq_project_id = None, rq_date = None, rq_timezone = None, rq_locale = None,
        rq_format = TEXT\<rparr> sample_principal)"
proof -
  have tz: "request_timezone sample_env
       \<lparr>report_type = ''daily'', rq_user_id = None, rq_organization_id = None, rq_team_id = None,
        rq_project_id = None, rq_date = None, rq_timezone = None, rq_locale = None,
        rq_format = TEXT\<rparr> = tz_fixed (td_hours 1)"
    by (simp add: request_timezone_def resolve_timezone_def fetch_user_def or_else_def
        sample_env_def)
  have win: "calculate_window ''daily'' None (tz_fixed (td_hours 1))
       (fromutc sample_env (tz_fixed (td_hours 1)) (utcnow sample_env 0))
     = Inr (63840956400000000, 63841042800000000,
            \<lparr>year = 2024, month = 1, day = 15,
             hour = 0, minute = 0, second = 0, microsecond = 0\<rparr>)"
    by (simp add: sample_env_def calculate_window_def Let_def date_add_days_def
        astimezone_utc_def utc_of_def representable_def datetime_min_def datetime_max_def
        wall_clock_def next_day_def days_in_month_def max_ordinal_def tz_fixed_def td_hours_def
        ymd2ord_def days_before_year_def days_before_month_def is_leap_def)
  have "determine_scope \<lparr>report_type = ''daily'', rq_user_id = None, rq_organization_id = None,
        rq_team_id = None, rq_project_id = None, rq_date = None, rq_timezone = None,
        rq_locale = None, rq_format = TEXT\<rparr> = USER"
    by (simp add: determine_scope_def)
  from generate_user [of _ sample_env, OF _ this, of _ _ _ sample_principal] tz win
  show ?thesis by (simp add: Let_def)
qed

text \<open>
  Claim C6, amended. For a request that carries none of the four identifiers the resolver
  returns USER, and \<open>generate\<close> raises no error for the missing identity. If the window
  cannot be computed, its exception leaves \<open>generate\<close>. Otherwise \<open>generate\<close> answers with
  a USER report over all tasks created in the window, of whatever user: the counts, the
  next and the overdue tasks and the summary are computed from them, and the call fails
  only if a PDF was asked for and its export fails. The error for a missing identity is
  raised by the route: \<open>generate_user_report\<close> answers 400 \<^verbatim>\<open>error_user_required\<close> when no
  organisation is given and the principal has no user id, before \<open>generate\<close> is called.
\<close>

theorem missing_identity_raised_by_route:
  assumes "rq_user_id p = None" "rq_project_id p = None" "rq_team_id p = None"
    "rq_organization_id p = None"
  shows "determine_scope p = USER
       \<and> (let locale = request_locale env p;
               tz = request_timezone env p
           in case calculate_window (report_type p) (rq_date p) tz
                     (fromutc env tz (utcnow env 0)) of
                Inl e \<Rightarrow> generate env p princ = Inl e
              | Inr (window_start, window_end, anchor) \<Rightarrow>
                  (let tasks = sort_key created_at
                                 (filter (\<lambda>t. window_start \<le> created_at t
                                                \<and> created_at t < window_end) (db_tasks env));
                       c = compute_counts (utcnow env 1) tasks;
                       next_ts = select_next_tasks tasks tz;
                       overdue_ts = select_overdue_tasks (utcnow env 2) tasks tz;
                       text = format_user_summary env locale (report_type p) (utc_of tz anchor)
                                c next_ts overdue_ts tz window_start window_end;
                       response = (\<lambda>url.
                         \<lparr>rs_report_type = report_type p, scope = USER, summary = text,
                          counts = Some c, next_tasks = next_ts, overdue_tasks = overdue_ts,
                          metrics = None, file_url = url, rs_format = rq_format p,
                          generated_at = utcnow env 3\<rparr>)
                   in generate env p princ =
                        (if rq_format p = PDF then
                           (case render_user_pdf env locale p princ c text tasks tz
                                   window_start window_end of
                              Inl e \<Rightarrow> Inl e
                            | Inr file_path \<Rightarrow> Inr (response (Some file_path)))
                         else Inr (response None))))
       \<and> (principal_user_id int_of_str princ = None \<longrightarrow>
            generate_user_report env int_of_str princ rtype None report_date tz_name loc fmt
              = Inl (HTTPException 400 ''error_user_required''))"
proof -
  have sc: "determine_scope p = USER" using assms by (rule determine_scope_no_identity)
  have route: "principal_user_id int_of_str princ = None \<longrightarrow>
            generate_user_report env int_of_str princ rtype None report_date tz_name loc fmt
              = Inl (HTTPException 400 ''error_user_required'')"
    by (simp add: generate_user_report_def)
  note all = fetch_tasks_no_identity [OF assms, of env]
  have run: "let locale = request_locale env p;
               tz = request_timezone env p
           in case calculate_window (report_type p) (rq_date p) tz
                     (fromutc env tz (utcnow env 0)) of
                Inl e \<Rightarrow> generate env p princ = Inl e
              | Inr (window_start, window_end, anchor) \<Rightarrow>
                  (let tasks = sort_key created_at
                                 (filter (\<lambda>t. window_start \<le> created_at t
                                                \<and> created_at t < window_end) (db_tasks env));
                       c = compute_counts (utcnow env 1) tasks;
                       next_ts = select_next_tasks tasks tz;
                       overdue_ts = select_overdue_tasks (utcnow env 2) tasks tz;
                       text = format_user_summary env locale (report_type p) (utc_of tz anchor)
                                c next_ts overdue_ts tz window_start window_end;
                       response = (\<lambda>url.
                         \<lparr>rs_report_type = report_type p, scope = USER, summary = text,
                          counts = Some c, next_tasks = next_ts, overdue_tasks = overdue_ts,
                          metrics = None, file_url = url, rs_format = rq_format p,
                          generated_at = utcnow env 3\<rparr>)
                   in generate env p princ =
                        (if rq_format p = PDF then
                           (case render_user_pdf env locale p princ c text tasks tz
                                   window_start window_end of
                              Inl e \<Rightarrow> Inl e
                            | Inr file_path \<Rightarrow> Inr (response (Some file_path)))
                         else Inr (response None)))"
  proof (cases "calculate_window (report_type p) (rq_date p) (request_timezone env p)
                  (fromutc env (request_timezone env p) (utcnow env 0))")
    case (Inl e)
    with generate_window_error [OF Inl, of princ] show ?thesis by (simp add: Let_def)
  next
    case (Inr w)
    obtain ws we anchor where w: "w = (ws, we, anchor)" by (cases w)
    note win = Inr [unfolded w]
    from generate_user [OF win sc, of princ] show ?thesis
      by (simp add: win Let_def all split: sum.splits)
  qed
  from sc run route show ?thesis by blast
qed

lemma sample_report_all_tasks:
  "sort_key created_at
       (filter (\<lambda>t. 63840956400000000 \<le> created_at t \<and> created_at t < 63841042800000000)
          (db_tasks sample_report_env))
     = [(sample_task 1 (Some ''done'') None None)\<lparr>created_at := 63840988800000000\<rparr>,
        (sample_task 2 (Some ''pending'') (Some 63840996000000000) None)
          \<lparr>created_at := 63840992400000000\<rparr>,
        (sample_task 4 (Some ''pending'') None None)
          \<lparr>user_id := Some 8, organization_id := None, created_at := 63840999600000000\<rparr>]"
  by (simp add: sample_report_env_def sample_env_def sample_task_def wall_clock_def ymd2ord_def
      days_before_year_def days_before_month_def is_leap_def)

lemma sample_report_all_counts:
  "compute_counts (utcnow sample_report_env n)
       [(sample_task 1 (Some ''done'') None None)\<lparr>created_at := 63840988800000000\<rparr>,
        (sample_task 2 (Some ''pending'') (Some 63840996000000000) None)
          \<lparr>created_at := 63840992400000000\<rparr>,
        (sample_task 4 (Some ''pending'') None None)
          \<lparr>user_id := Some 8, organization_id := None, created_at := 63840999600000000\<rparr>]
     = \<lparr>total_count = 3, completed = 1, overdue = 1\<rparr>"
  by (simp add: compute_counts_def count_task_def is_completed_def or_empty_def py_lower_def
      lower_char_def ascii_uppercase_def ascii_lowercase_def due_before_def
      sample_report_env_def sample_env_def sample_task_def wall_clock_def ymd2ord_def
      days_before_year_def days_before_month_def is_leap_def)

lemma sample_report_all_next:
  "map rt_id (select_next_tasks
       [(sample_task 1 (Some ''done'') None None)\<lparr>created_at := 63840988800000000\<rparr>,
        (sample_task 2 (Some ''pending'') (Some 63840996000000000) None)
          \<lparr>created_at := 63840992400000000\<rparr>,
        (sample_task 4 (Some ''pending'') None None)
          \<lparr>user_id := Some 8, organization_id := None, created_at := 63840999600000000\<rparr>] tz)
     = [2, 4]"
  by (simp add: select_next_tasks_def to_report_task_def is_completed_def or_empty_def
      py_lower_def lower_char_def ascii_uppercase_def ascii_lowercase_def sample_task_def
      Let_def datetime_max_def wall_clock_def ymd2ord_def days_before_year_def
      days_before_month_def is_leap_def less_eq_prod_def)

theorem missing_identity_raised_by_route_witness:
  "principal_user_id sample_int_of_str bot_principal = None
   \<and> (\<exists>resp. generate sample_report_env \<lparr>report_type = ''daily'', rq_user_id = None,
          rq_organization_id = None, rq_team_id = None, rq_project_id = None, rq_date = None,
          rq_timezone = None, rq_locale = None, rq_format = TEXT\<rparr> bot_principal = Inr resp
        \<and> scope resp = USER
        \<and> counts resp = Some \<lparr>total_count = 3, completed = 1, overdue = 1\<rparr>
        \<and> map rt_id (next_tasks resp) = [2, 4])
   \<and> generate_user_report sample_report_env sample_int_of_str bot_principal ''daily'' None None
        None None TEXT
       = Inl (HTTPException 400 ''error_user_required'')"
proof -
  have u: "principal_user_id sample_int_of_str bot_principal = None"
    by (simp add: principal_user_id_def sample_int_of_str_def bot_principal_def)
  from u missing_identity_raised_by_route [of "\<lparr>report_type = ''daily'', rq_user_id = None,
       rq_organization_id = None, rq_team_id = None, rq_project_id = None, rq_date = None,
       rq_timezone = None, rq_locale = None, rq_format = TEXT\<rparr>" sample_report_env bot_principal
       sample_int_of_str "''daily''" None None None TEXT]
  show ?thesis
    by (simp add: Let_def sample_report_window sample_report_all_tasks sample_report_all_counts
        sample_report_all_next)
qed

section \<open>Default reminder times\<close>

lemma default_times_loop_future:
  "default_times_loop int_of_str now due items acc = Inr found \<Longrightarrow>
   \<forall>t \<in> set acc. now < instant_of t \<Longrightarrow> \<forall>t \<in> set found. now < instant_of t"
proof (induction int_of_str now due items acc rule: default_times_loop.induct)
  case (1 int_of_str now due acc)
  then show ?case by simp
next
  case (2 int_of_str now due offset rest acc)
  show ?case
  proof (cases "py_int int_of_str offset")
    case (Inl e)
    with "2.prems" have skip: "e = TypeError \<or> e = ValueError"
      and run: "default_times_loop int_of_str now due rest acc = Inr found"
      by (simp_all split: if_splits)
    from "2.IH"(1) [OF Inl skip run "2.prems"(2)] show ?thesis .
  next
    case (Inr n)
    define remind_at where "remind_at = due\<lparr>wall := wall due - td_minutes n\<rparr>"
    show ?thesis
    proof (cases "now < instant_of remind_at")
      case True
      with "2.prems" Inr have run:
        "default_times_loop int_of_str now due rest (acc @ [remind_at]) = Inr found"
        by (simp add: remind_at_def Let_def)
      from True "2.prems"(2) have "\<forall>t \<in> set (acc @ [remind_at]). now < instant_of t" by simp
      with "2.IH"(2) [OF Inr refl refl _ run [unfolded remind_at_def]] True
      show ?thesis by (simp add: remind_at_def)
    next
      case False
      with "2.prems" Inr have run: "default_times_loop int_of_str now due rest acc = Inr found"
        by (simp add: remind_at_def Let_def)
      with "2.IH"(3) [OF Inr refl refl _ run] False "2.prems"(2)
      show ?thesis by (simp add: remind_at_def)
    qed
  qed
qed

lemma compute_default_times_all_future:
  assumes "compute_default_times int_of_str now due usr = Inr found"
  shows "\<forall>t \<in> set found. now < instant_of t"
proof (cases due)
  case None
  with assms show ?thesis by (simp add: compute_default_times_def)
next
  case (Some d)
  with assms obtain due' items raw where
    "default_times_loop int_of_str now due' items [] = Inr raw" "found = sort_key wall raw"
    by (auto simp: compute_default_times_def Let_def split: sum.splits if_splits)
  with default_times_loop_future [of int_of_str now due' items "[]" raw]
  show ?thesis by simp
qed


lemma default_times_loop_ints:
  "default_times_loop int_of_str now due (map PInt ns) acc
     = Inr (acc @ filter (\<lambda>t. now < instant_of t)
                    (map (\<lambda>n. due\<lparr>wall := wall due - td_minutes n\<rparr>) ns))"
  by (induction ns arbitrary: acc) (simp_all add: Let_def)

text \<open>
  Claim C7. Every instant in the list returned by \<open>compute_default_times\<close> is strictly
  after \<open>now\<close>, and without a due instant the list is empty. With the default offset,
  which is used when there is no user, the function returns.
\<close>

theorem compute_default_times_future:
  "(\<forall>found. compute_default_times int_of_str now due usr = Inr found
       \<longrightarrow> (\<forall>t \<in> set found. now < instant_of t))
   \<and> compute_default_times int_of_str now None usr = Inr []
   \<and> (\<exists>found. compute_default_times int_of_str now due None = Inr found)"
proof -
  have "\<exists>found. compute_default_times int_of_str now due None = Inr found"
    using default_times_loop_ints [of int_of_str now _ "[30]" "[]"]
    by (cases due) (simp_all add: compute_default_times_def Let_def)
  moreover have "compute_default_times int_of_str now None usr = Inr []"
    by (simp add: compute_default_times_def)
  ultimately show ?thesis
    using compute_default_times_all_future by blast
qed

theorem compute_default_times_future_witness:
  "compute_default_times sample_int_of_str 0 (Some \<lparr>wall = td_hours 2, tzinfo = None\<rparr>)
       (Some (sample_user (PList [PInt 30, PStr ''soon'', PInt 180])))
     = Inr [\<lparr>wall = td_hours 2 - td_minutes 30, tzinfo = Some tz_utc\<rparr>]
   \<and> 0 < instant_of \<lparr>wall = td_hours 2 - td_minutes 30, tzinfo = Some tz_utc\<rparr>"
proof -
  have run: "compute_default_times sample_int_of_str 0 (Some \<lparr>wall = td_hours 2, tzinfo = None\<rparr>)
       (Some (sample_user (PList [PInt 30, PStr ''soon'', PInt 180])))
     = Inr [\<lparr>wall = td_hours 2 - td_minutes 30, tzinfo = Some tz_utc\<rparr>]"
    by (simp add: compute_default_times_def sample_user_def sample_int_of_str_def Let_def
        instant_of_def tz_utc_def tz_fixed_def td_hours_def td_minutes_def)
  with compute_default_times_future [of sample_int_of_str 0
      "Some \<lparr>wall = td_hours 2, tzinfo = None\<rparr>"
      "Some (sample_user (PList [PInt 30, PStr ''soon'', PInt 180]))"]
  show ?thesis by simp
qed

section \<open>Reminders are not created in the past\<close>

lemma chat_remind_at_cases:
  "chat_remind_at off now due =
     (if \<not> \<bar>off div 1440\<bar> \<le> 999999999 then Inl OverflowError
      else case due of
             None \<Rightarrow>
               if representable (now + td_minutes off) then Inr (now + td_minutes off)
               else Inl OverflowError
           | Some d \<Rightarrow>
               if \<not> representable (d - td_minutes off) then Inl OverflowError
               else if now < d - td_minutes off then Inr (d - td_minutes off)
               else if representable (now + td_minutes off) then Inr (now + td_minutes off)
               else Inl OverflowError)"
  by (cases due)
    (simp_all add: chat_remind_at_def timedelta_minutes_def datetime_add_def datetime_sub_def)

lemma chat_remind_at_error: "chat_remind_at off now due = Inl e \<Longrightarrow> e = OverflowError"
  by (simp add: chat_remind_at_cases split: if_splits option.splits)

lemma chat_remind_at_not_past:
  assumes "0 \<le> off" "chat_remind_at off now due = Inr x"
  shows "now \<le> x"
proof -
  from assms(1) have "0 \<le> td_minutes off" by (simp add: td_minutes_def)
  with assms(2) show ?thesis
    by (auto simp: chat_remind_at_cases split: if_splits option.splits)
qed

lemma chat_reminders_loop_Inr:
  "chat_reminders_loop off now created = Inr rs \<Longrightarrow>
   map task_id rs = map t_id created
   \<and> map (\<lambda>r. Inr (remind_at r)) rs = map (\<lambda>t. chat_remind_at off now (due_at t)) created
   \<and> (\<forall>r \<in> set rs. r_id r = None \<and> \<not> sent r)"
proof (induction created arbitrary: rs)
  case Nil
  then show ?case by simp
next
  case (Cons t created)
  from Cons.prems obtain x rest where
    x: "chat_remind_at off now (due_at t) = Inr x"
    and rest: "chat_reminders_loop off now created = Inr rest"
    and rs: "rs = \<lparr>r_id = None, task_id = t_id t, remind_at = x, sent = False\<rparr> # rest"
    by (auto split: sum.splits)
  from Cons.IH [OF rest] x show ?case by (simp add: rs)
qed

lemma chat_reminders_loop_Inl:
  "chat_reminders_loop off now created = Inl e \<Longrightarrow>
   e = OverflowError \<and> (\<exists>t \<in> set created. chat_remind_at off now (due_at t) = Inl OverflowError)"
proof (induction created)
  case Nil
  then show ?case by simp
next
  case (Cons t created)
  show ?case
  proof (cases "chat_remind_at off now (due_at t)")
    case (Inl e')
    with Cons.prems chat_remind_at_error [OF Inl] show ?thesis by simp
  next
    case (Inr x)
    with Cons.prems have "chat_reminders_loop off now created = Inl e"
      by (simp split: sum.splits)
    from Cons.IH [OF this] show ?thesis by simp
  qed
qed

lemma chat_reminders_loop_returns:
  "\<forall>t \<in> set created. \<exists>x. chat_remind_at off now (due_at t) = Inr x \<Longrightarrow>
   \<exists>rs. chat_reminders_loop off now created = Inr rs"
  by (induction created) auto

lemma create_tasks_reminders_loop:
  "chat_reminder_offset int_of_str usr = Inr off \<Longrightarrow>
   create_tasks_reminders int_of_str usr now created = chat_reminders_loop off now created"
  by (cases created) (simp_all add: create_tasks_reminders_def)

lemma compute_default_times_ints:
  assumes "map_of (preferences u) ''default_reminder_minutes'' = Some (PList (map PInt ns))"
  shows "compute_default_times int_of_str now (Some (aware_utc d)) (Some u)
           = Inr (sort_key wall (filter (\<lambda>r. now < instant_of r)
                                   (map (\<lambda>n. aware_utc (d - td_minutes n)) ns)))"
  using assms default_times_loop_ints [of int_of_str now "aware_utc d" ns "[]"]
  by (simp add: compute_default_times_def Let_def aware_utc_def)

lemma compute_default_times_number:
  assumes "map_of (preferences u) ''default_reminder_minutes'' = Some (PInt off)"
  shows "compute_default_times int_of_str now (Some (aware_utc d)) (Some u)
           = Inr (if now < d - td_minutes off then [aware_utc (d - td_minutes off)] else [])"
  using assms default_times_loop_ints [of int_of_str now "aware_utc d" "[off]" "[]"]
  by (simp add: compute_default_times_def Let_def aware_utc_def instant_of_def tz_utc_def
      tz_fixed_def)

text \<open>
  Claim C9 says that no reminder is constructed before \<open>now\<close> on either path. On the chat
  path it fails for a negative offset: with the preference -10, at noon of 2024-01-15 and
  for a task without a due date, the reminder is placed ten minutes before \<open>now\<close>.
\<close>

theorem negative_offset_counterexample:
  "create_tasks_reminders sample_int_of_str (sample_user (PInt (- 10))) 63841003200000000
       [sample_task 1 (Some ''pending'') None None]
     = Inr [\<lparr>r_id = None, task_id = 1, remind_at = 63841002600000000, sent = False\<rparr>]
   \<and> (63841002600000000 :: int) < 63841003200000000"
  by (simp add: create_tasks_reminders_def chat_reminder_offset_def sample_user_def
      chat_remind_at_cases representable_def datetime_min_value datetime_max_value
      td_days_def max_ordinal_def td_minutes_def sample_task_def)

text \<open>
  Claim C9, amended. Let the offset be not negative. On the chat path every reminder that
  is constructed lies at or after \<open>now\<close>: when the call returns, it adds one reminder for
  every created task, at the instant of the rule that follows, and it returns whenever
  that rule gives an instant for every task; otherwise it raises \<^verbatim>\<open>OverflowError\<close> and
  adds no reminder. The rule: a candidate, the due instant minus the offset, that lies
  after \<open>now\<close> is kept; a candidate at or before \<open>now\<close>, and the missing candidate of a
  task without due instant, are replaced by \<open>now\<close> plus the offset; an offset of more than
  999999999 days and an instant outside the range of \<^verbatim>\<open>datetime\<close> raise. On the default
  path every returned instant lies strictly after \<open>now\<close>, and for offsets that are
  integers within these limits the result is exactly the sorted list of the candidates
  that lie strictly after \<open>now\<close>: the others are dropped, none is replaced. So for one
  preference and one due instant whose candidate is at or before \<open>now\<close> the chat path
  places a reminder at \<open>now\<close> plus the offset and the default path returns none.
\<close>

theorem reminders_not_in_past:
  assumes "0 \<le> off"
  shows "(chat_reminder_offset int_of_str usr = Inr off \<longrightarrow>
            (case create_tasks_reminders int_of_str usr now created of
               Inl e \<Rightarrow>
                 e = OverflowError
                 \<and> (\<exists>t \<in> set created. chat_remind_at off now (due_at t) = Inl OverflowError)
             | Inr rs \<Rightarrow>
                 map task_id rs = map t_id created
                 \<and> map (\<lambda>r. Inr (remind_at r)) rs
                     = map (\<lambda>t. chat_remind_at off now (due_at t)) created
                 \<and> (\<forall>r \<in> set rs. now \<le> remind_at r)))
       \<and> (chat_reminder_offset int_of_str usr = Inr off
            \<and> (\<forall>t \<in> set created. \<exists>x. chat_remind_at off now (due_at t) = Inr x)
          \<longrightarrow> (\<exists>rs. create_tasks_reminders int_of_str usr now created = Inr rs))
       \<and> chat_remind_at off now due =
           (if \<not> \<bar>off div 1440\<bar> \<le> 999999999 then Inl OverflowError
            else case due of
                   None \<Rightarrow>
                     if representable (now + td_minutes off) then Inr (now + td_minutes off)
                     else Inl OverflowError
                 | Some d \<Rightarrow>
                     if \<not> representable (d - td_minutes off) then Inl OverflowError
                     else if now < d - td_minutes off then Inr (d - td_minutes off)
                     else if representable (now + td_minutes off)
                          then Inr (now + td_minutes off)
                          else Inl OverflowError)
       \<and> (\<forall>found. compute_default_times int_of_str now due_opt usr_opt = Inr found
            \<longrightarrow> (\<forall>t \<in> set found. now < instant_of t))
       \<and> (map_of (preferences u) ''default_reminder_minutes'' = Some (PList (map PInt ns))
            \<and> (\<forall>n \<in> set ns. \<bar>n div 1440\<bar> \<le> 999999999 \<and> representable (d - td_minutes n))
          \<longrightarrow> compute_default_times int_of_str now (Some (aware_utc d)) (Some u)
                = Inr (sort_key wall (filter (\<lambda>r. now < instant_of r)
                                        (map (\<lambda>n. aware_utc (d - td_minutes n)) ns))))
       \<and> (map_of (preferences u') ''default_reminder_minutes'' = Some (PInt off)
            \<and> \<bar>off div 1440\<bar> \<le> 999999999 \<and> representable (d' - td_minutes off)
            \<and> representable (now + td_minutes off) \<and> d' - td_minutes off \<le> now
          \<longrightarrow> chat_reminder_offset int_of_str u' = Inr off
              \<and> chat_remind_at off now (Some d') = Inr (now + td_minutes off)
              \<and> compute_default_times int_of_str now (Some (aware_utc d')) (Some u') = Inr [])"
proof -
  have chat: "case create_tasks_reminders int_of_str usr now created of
               Inl e \<Rightarrow>
                 e = OverflowError
                 \<and> (\<exists>t \<in> set created. chat_remind_at off now (due_at t) = Inl OverflowError)
             | Inr rs \<Rightarrow>
                 map task_id rs = map t_id created
                 \<and> map (\<lambda>r. Inr (remind_at r)) rs
                     = map (\<lambda>t. chat_remind_at off now (due_at t)) created
                 \<and> (\<forall>r \<in> set rs. now \<le> remind_at r)"
    if o: "chat_reminder_offset int_of_str usr = Inr off"
  proof (cases "chat_reminders_loop off now created")
    case (Inl e)
    with chat_reminders_loop_Inl [OF Inl] show ?thesis
      by (simp add: create_tasks_reminders_loop [OF o])
  next
    case (Inr rs)
    note spec = chat_reminders_loop_Inr [OF Inr]
    have "now \<le> remind_at r" if r: "r \<in> set rs" for r
    proof -
      from spec have eq: "map (\<lambda>r. Inr (remind_at r)) rs
          = map (\<lambda>t. chat_remind_at off now (due_at t)) created" by simp
      from r have "(Inr (remind_at r) :: error + instant) \<in> set (map (\<lambda>r. Inr (remind_at r)) rs)"
        by simp
      then have "Inr (remind_at r) \<in> set (map (\<lambda>t. chat_remind_at off now (due_at t)) created)"
        by (simp only: eq)
      then obtain t :: task where "chat_remind_at off now (due_at t) = Inr (remind_at r)"
        by auto
      with chat_remind_at_not_past [OF assms] show ?thesis by simp
    qed
    with spec show ?thesis by (simp add: create_tasks_reminders_loop [OF o] Inr)
  qed
  have returns: "\<exists>rs. create_tasks_reminders int_of_str usr now created = Inr rs"
    if "chat_reminder_offset int_of_str usr = Inr off"
      "\<forall>t \<in> set created. \<exists>x. chat_remind_at off now (due_at t) = Inr x"
    using that chat_reminders_loop_returns [of created off now]
    by (simp add: create_tasks_reminders_loop)
  have both: "chat_reminder_offset int_of_str u' = Inr off
              \<and> chat_remind_at off now (Some d') = Inr (now + td_minutes off)
              \<and> compute_default_times int_of_str now (Some (aware_utc d')) (Some u') = Inr []"
    if "map_of (preferences u') ''default_reminder_minutes'' = Some (PInt off)"
      "\<bar>off div 1440\<bar> \<le> 999999999" "representable (d' - td_minutes off)"
      "representable (now + td_minutes off)" "d' - td_minutes off \<le> now"
    using that compute_default_times_number [OF that(1), of int_of_str now d']
    by (simp add: chat_reminder_offset_def chat_remind_at_cases)
  from chat returns both chat_remind_at_cases [of off now due]
    compute_default_times_all_future [of int_of_str now due_opt usr_opt]
    compute_default_times_ints [of u ns int_of_str now d]
  show ?thesis by blast
qed

theorem reminders_not_in_past_witness:
  "chat_reminder_offset sample_int_of_str (sample_user (PInt 10)) = Inr 10
   \<and> create_tasks_reminders sample_int_of_str (sample_user (PInt 10)) 63841003200000000
        [sample_task 1 (Some ''pending'') (Some 63841003500000000) None,
         sample_task 2 (Some ''pending'') None None,
         sample_task 3 (Some ''pending'') (Some 63841006800000000) None]
      = Inr [\<lparr>r_id = None, task_id = 1, remind_at = 63841003800000000, sent = False\<rparr>,
             \<lparr>r_id = None, task_id = 2, remind_at = 63841003800000000, sent = False\<rparr>,
             \<lparr>r_id = None, task_id = 3, remind_at = 63841006200000000, sent = False\<rparr>]
   \<and> compute_default_times sample_int_of_str 63841003200000000
        (Some (aware_utc 63841003500000000)) (Some (sample_user (PInt 10))) = Inr []
   \<and> compute_default_times sample_int_of_str 63841003200000000
        (Some (aware_utc 63841003500000000)) (Some (sample_user (PList [PInt 10, PInt 2])))
      = Inr [aware_utc 63841003380000000]
   \<and> create_tasks_reminders sample_int_of_str (sample_user (PInt 1000000000000))
        63841003200000000 [sample_task 1 (Some ''pending'') None None]
      = Inl OverflowError"
proof -
  have far: "create_tasks_reminders sample_int_of_str (sample_user (PInt 1000000000000))
        63841003200000000 [sample_task 1 (Some ''pending'') None None]
      = Inl OverflowError"
    by (simp add: create_tasks_reminders_def chat_reminder_offset_def sample_user_def
        chat_remind_at_cases representable_def datetime_min_value datetime_max_value
        td_days_def max_ordinal_def td_minutes_def sample_task_def)
  have off: "chat_reminder_offset sample_int_of_str (sample_user (PInt 10)) = Inr 10"
    by (simp add: chat_reminder_offset_def sample_user_def)
  have ats: "chat_remind_at 10 63841003200000000 (Some 63841003500000000) = Inr 63841003800000000"
    "chat_remind_at 10 63841003200000000 None = Inr 63841003800000000"
    "chat_remind_at 10 63841003200000000 (Some 63841006800000000) = Inr 63841006200000000"
    by (simp_all add: chat_remind_at_def timedelta_minutes_def datetime_add_def datetime_sub_def
        representable_def datetime_min_value datetime_max_value td_days_def max_ordinal_def
        td_minutes_def)
  have prefs: "map_of (preferences (sample_user v)) ''default_reminder_minutes'' = Some v" for v
    by (simp add: sample_user_def)
  have range: "representable (63841003500000000 - td_minutes 10)"
    "representable (63841003500000000 - td_minutes 2)"
    "representable (63841003200000000 + td_minutes 10)"
    by (simp_all add: representable_def datetime_min_value datetime_max_value td_days_def
        max_ordinal_def td_minutes_def)
  from reminders_not_in_past [where off = 10 and int_of_str = sample_int_of_str
      and usr = "sample_user (PInt 10)" and now = 63841003200000000
      and created = "[sample_task 1 (Some ''pending'') (Some 63841003500000000) None,
         sample_task 2 (Some ''pending'') None None,
         sample_task 3 (Some ''pending'') (Some 63841006800000000) None]"
      and u = "sample_user (PList [PInt 10, PInt 2])" and ns = "[10, 2]"
      and d = 63841003500000000 and u' = "sample_user (PInt 10)" and d' = 63841003500000000]
    off ats prefs range far
  show ?thesis
    by (simp add: sample_task_def td_minutes_def aware_utc_def instant_of_def tz_utc_def
        tz_fixed_def create_tasks_reminders_def)
qed

section \<open>One run of the reminder worker\<close>

lemma attempts_before_0: "attempts_before env batch 0 = 0"
  by (simp add: attempts_before_def)

lemma attempts_before_Suc:
  "attempts_before env (r # rs) (Suc i)
     = (if recipient env r \<noteq> None then 1 else 0) + attempts_before env rs i"
  by (simp add: attempts_before_def)

lemma count_upt_Suc:
  "length (filter P [0..<Suc n]) = (if P 0 then 1 else 0) + length (filter (\<lambda>i. P (Suc i)) [0..<n])"
proof -
  have "[0..<Suc n] = 0 # map Suc [0..<n]"
    by (simp add: upt_conv_Cons map_Suc_upt del: upt_Suc)
  then show ?thesis by (simp add: filter_map comp_def del: upt_Suc)
qed

lemma dispatch_loop_spec:
  "dispatch_loop env rs k p = Inr (marked, n) \<Longrightarrow>
   length marked = length rs
   \<and> (\<forall>i < length rs. marked ! i = expected_mark env (k + attempts_before env rs i) (rs ! i))
   \<and> n = p + int (length (filter (\<lambda>i. delivered env (k + attempts_before env rs i) (rs ! i))
                             [0..<length rs]))
   \<and> list_all (composes env) rs"
proof (induction rs arbitrary: k p marked n)
  case Nil
  then show ?case by simp
next
  case (Cons r rs)
  show ?case
  proof (cases "recipient env r")
    case None
    with Cons.prems obtain m' n' where rest: "dispatch_loop env rs k p = Inr (m', n')"
      and res: "marked = r\<lparr>sent := True\<rparr> # m'" "n = n'"
      by (auto split: sum.splits)
    note ih = Cons.IH [OF rest]
    have nd: "\<not> delivered env j r" for j by (simp add: delivered_def None)
    have ab: "attempts_before env (r # rs) (Suc i) = attempts_before env rs i" for i
      by (simp add: attempts_before_Suc None)
    have "\<forall>i < length (r # rs).
        marked ! i = expected_mark env (k + attempts_before env (r # rs) i) ((r # rs) ! i)"
    proof (intro allI impI)
      fix i assume "i < length (r # rs)"
      then show "marked ! i = expected_mark env (k + attempts_before env (r # rs) i) ((r # rs) ! i)"
        using ih by (cases i) (simp_all add: res ab expected_mark_def None)
    qed
    moreover have "n = p + int (length (filter
        (\<lambda>i. delivered env (k + attempts_before env (r # rs) i) ((r # rs) ! i)) [0..<length (r # rs)]))"
      using ih by (simp add: count_upt_Suc ab nd res del: upt_Suc)
    moreover have "composes env r" by (simp add: composes_def None)
    ultimately show ?thesis using ih by (simp add: res)
  next
    case (Some x)
    then obtain t u chat where rc: "recipient env r = Some (t, u, chat)" by (cases x) auto
    with Cons.prems obtain message where msg: "reminder_message env t u = Inr message"
      by (auto split: sum.splits)
    have ab: "attempts_before env (r # rs) (Suc i) = Suc (attempts_before env rs i)" for i
      by (simp add: attempts_before_Suc rc)
    have d0: "delivered env k r
        = send_message env k chat (prepare_telegram env (reminder_locale env u) message)"
      by (simp add: delivered_def rc msg)
    have cr: "composes env r" by (simp add: composes_def rc msg)
    show ?thesis
    proof (cases "send_message env k chat (prepare_telegram env (reminder_locale env u) message)")
      case True
      with Cons.prems rc msg obtain m' n' where
        rest: "dispatch_loop env rs (Suc k) (p + 1) = Inr (m', n')"
        and res: "marked = r\<lparr>sent := True\<rparr> # m'" "n = n'"
        by (auto split: sum.splits)
      note ih = Cons.IH [OF rest]
      have "\<forall>i < length (r # rs).
          marked ! i = expected_mark env (k + attempts_before env (r # rs) i) ((r # rs) ! i)"
      proof (intro allI impI)
        fix i assume "i < length (r # rs)"
        then show "marked ! i = expected_mark env (k + attempts_before env (r # rs) i) ((r # rs) ! i)"
          using ih True d0
          by (cases i) (simp_all add: res ab expected_mark_def attempts_before_0)
      qed
      moreover have "n = p + int (length (filter
          (\<lambda>i. delivered env (k + attempts_before env (r # rs) i) ((r # rs) ! i)) [0..<length (r # rs)]))"
        using ih True d0 by (simp add: count_upt_Suc ab res attempts_before_0 del: upt_Suc)
      ultimately show ?thesis using ih cr by (simp add: res)
    next
      case False
      with Cons.prems rc msg obtain m' n' where
        rest: "dispatch_loop env rs (Suc k) p = Inr (m', n')"
        and res: "marked = r # m'" "n = n'"
        by (auto split: sum.splits)
      note ih = Cons.IH [OF rest]
      have "\<forall>i < length (r # rs).
          marked ! i = expected_mark env (k + attempts_before env (r # rs) i) ((r # rs) ! i)"
      proof (intro allI impI)
        fix i assume "i < length (r # rs)"
        then show "marked ! i = expected_mark env (k + attempts_before env (r # rs) i) ((r # rs) ! i)"
          using ih False d0
          by (cases i) (simp_all add: res ab expected_mark_def attempts_before_0 rc)
      qed
      moreover have "n = p + int (length (filter
          (\<lambda>i. delivered env (k + attempts_before env (r # rs) i) ((r # rs) ! i)) [0..<length (r # rs)]))"
        using ih False d0 by (simp add: count_upt_Suc ab res attempts_before_0 del: upt_Suc)
      ultimately show ?thesis using ih cr by (simp add: res)
    qed
  qed
qed

lemma dispatch_loop_returns:
  "list_all (composes env) rs \<Longrightarrow> \<exists>marked n. dispatch_loop env rs k p = Inr (marked, n)"
proof (induction rs arbitrary: k p)
  case Nil
  then show ?case by simp
next
  case (Cons r rs)
  then have c: "composes env r" and cs: "list_all (composes env) rs" by simp_all
  from Cons.IH [OF cs] have ih: "\<exists>marked n. dispatch_loop env rs k' p' = Inr (marked, n)" for k' p'
    by blast
  show ?case
  proof (cases "recipient env r")
    case None
    with ih [of k p] show ?thesis by auto
  next
    case (Some x)
    then obtain t u chat where rc: "recipient env r = Some (t, u, chat)" by (cases x) auto
    with c obtain message where msg: "reminder_message env t u = Inr message"
      by (auto simp: composes_def split: sum.splits)
    from ih [of "Suc k" "p + 1"] ih [of "Suc k" p] show ?thesis
      by (auto simp: rc msg)
  qed
qed

lemma dispatch_loop_aborts:
  "dispatch_loop env rs k p = Inl e \<Longrightarrow>
   \<exists>i < length rs. list_all (composes env) (take i rs)
     \<and> (\<exists>t u chat. recipient env (rs ! i) = Some (t, u, chat)
            \<and> reminder_message env t u = Inl e)"
proof (induction rs arbitrary: k p)
  case Nil
  then show ?case by simp
next
  case (Cons r rs)
  have later: ?case
    if c: "composes env r" and rest: "dispatch_loop env rs k' p' = Inl e" for k' p'
  proof -
    from Cons.IH [OF rest] obtain i t u chat where
      "i < length rs" "list_all (composes env) (take i rs)"
      "recipient env (rs ! i) = Some (t, u, chat)" "reminder_message env t u = Inl e"
      by blast
    with c have "Suc i < length (r # rs) \<and> list_all (composes env) (take (Suc i) (r # rs))
        \<and> recipient env ((r # rs) ! Suc i) = Some (t, u, chat)
        \<and> reminder_message env t u = Inl e"
      by simp
    then show ?thesis by blast
  qed
  show ?case
  proof (cases "recipient env r")
    case None
    with Cons.prems have "dispatch_loop env rs k p = Inl e"
      by (simp split: sum.splits prod.splits)
    moreover from None have "composes env r" by (simp add: composes_def)
    ultimately show ?thesis by (rule later [rotated])
  next
    case (Some x)
    then obtain t u chat where rc: "recipient env r = Some (t, u, chat)" by (cases x) auto
    show ?thesis
    proof (cases "reminder_message env t u")
      case (Inl e')
      with Cons.prems rc have "0 < length (r # rs) \<and> list_all (composes env) (take 0 (r # rs))
          \<and> recipient env ((r # rs) ! 0) = Some (t, u, chat)
          \<and> reminder_message env t u = Inl e"
        by simp
      then show ?thesis by blast
    next
      case (Inr message)
      with Cons.prems rc have "dispatch_loop env rs (Suc k) (p + 1) = Inl e
          \<or> dispatch_loop env rs (Suc k) p = Inl e"
        by (simp split: sum.splits if_splits prod.splits)
      then obtain k' p' where "dispatch_loop env rs k' p' = Inl e" by blast
      moreover from rc Inr have "composes env r" by (simp add: composes_def)
      ultimately show ?thesis by (rule later [rotated])
    qed
  qed
qed

lemma get_due_reminders_rows:
  "r \<in> set (get_due_reminders env limit) \<Longrightarrow>
   \<not> sent r \<and> remind_at r \<le> utcnow env 0 \<and> r \<in> set (db_reminders env)"
  by (auto simp: get_due_reminders_def Let_def dest: in_set_takeD)

lemma get_due_reminders_order:
  "length (get_due_reminders env limit)
     = min limit (length (filter (\<lambda>r. \<not> sent r \<and> remind_at r \<le> utcnow env 0)
                            (db_reminders env)))"
  "sorted (map remind_at (get_due_reminders env limit))"
proof -
  show "length (get_due_reminders env limit)
     = min limit (length (filter (\<lambda>r. \<not> sent r \<and> remind_at r \<le> utcnow env 0)
                            (db_reminders env)))"
    by (simp add: get_due_reminders_def Let_def min.commute)
  have "sorted (take limit (map remind_at (sort_key remind_at
      (filter (\<lambda>r. \<not> sent r \<and> remind_at r \<le> utcnow env 0) (db_reminders env)))))"
    by (intro sorted_wrt_take sorted_sort_key)
  then show "sorted (map remind_at (get_due_reminders env limit))"
    by (simp add: get_due_reminders_def Let_def take_map)
qed

lemma get_due_reminders_distinct:
  assumes "distinct (map r_id (db_reminders env))"
  shows "distinct (map r_id (get_due_reminders env limit))"
proof -
  from assms have d: "distinct (db_reminders env)" and inj: "inj_on r_id (set (db_reminders env))"
    by (simp_all add: distinct_map)
  have "distinct (get_due_reminders env limit)"
    using d by (simp add: get_due_reminders_def Let_def)
  moreover have "set (get_due_reminders env limit) \<subseteq> set (db_reminders env)"
    using get_due_reminders_rows by blast
  ultimately show ?thesis using inj by (auto simp: distinct_map intro: inj_on_subset)
qed

lemma expected_mark_id: "r_id (expected_mark env k r) = r_id r"
  by (simp add: expected_mark_def)

text \<open>The rows of the table after a commit of the marks, when the ids identify the rows.\<close>

lemma stored_rows:
  fixes db batch marked :: "reminder list"
  assumes d: "distinct (map r_id db)" and sub: "set batch \<subseteq> set db"
    and db: "distinct (map r_id batch)" and len: "length marked = length batch"
    and ids: "\<forall>i < length batch. r_id (marked ! i) = r_id (batch ! i)"
    and stored: "stored = map (\<lambda>row. case find (\<lambda>m. r_id m = r_id row) marked of
                                      None \<Rightarrow> row
                                    | Some m \<Rightarrow> m) db"
  shows "length stored = length db
       \<and> (\<forall>j < length db.
             (db ! j \<notin> set batch \<longrightarrow> stored ! j = db ! j)
             \<and> (\<forall>i < length batch. batch ! i = db ! j \<longrightarrow> stored ! j = marked ! i))"
proof -
  have l: "length stored = length db" by (simp add: stored)
  from d have inj: "inj_on r_id (set db)" by (simp add: distinct_map)
  have out: "stored ! j = db ! j" if j: "j < length db" and out: "db ! j \<notin> set batch" for j
  proof -
    have "\<not> (\<exists>m \<in> set marked. r_id m = r_id (db ! j))"
    proof
      assume "\<exists>m \<in> set marked. r_id m = r_id (db ! j)"
      then obtain i where i: "i < length marked" and "r_id (marked ! i) = r_id (db ! j)"
        by (auto simp: in_set_conv_nth)
      with ids len have same: "r_id (batch ! i) = r_id (db ! j)" by simp
      from i len sub have "batch ! i \<in> set db" by auto
      with inj same j have "batch ! i = db ! j" by (auto dest: inj_onD)
      with i len out show False by (metis nth_mem)
    qed
    then have "find (\<lambda>m. r_id m = r_id (db ! j)) marked = None" by (simp add: find_None_iff)
    with j show ?thesis by (simp add: stored)
  qed
  have inside: "stored ! j = marked ! i"
    if j: "j < length db" and i: "i < length batch" and eq: "batch ! i = db ! j" for i j
  proof -
    have before: "r_id (marked ! k) \<noteq> r_id (db ! j)" if "k < i" for k
    proof -
      from that i have k: "k < length batch" by simp
      have "(map r_id batch ! k = map r_id batch ! i) = (k = i)"
        using db k i by (intro nth_eq_iff_index_eq) simp_all
      with that k i have "r_id (batch ! k) \<noteq> r_id (batch ! i)" by simp
      with k ids eq show ?thesis by simp
    qed
    from ids i eq have "r_id (marked ! i) = r_id (db ! j)" by simp
    with before i len have "find (\<lambda>m. r_id m = r_id (db ! j)) marked = Some (marked ! i)"
      by (auto simp: find_Some_iff)
    with j show ?thesis by (simp add: stored)
  qed
  from l out inside show ?thesis by blast
qed

text \<open>
  Claim C8 says that every batch is worked through. It is not when a message cannot be
  composed: the second of two due reminders is for a task with a due date whose user has
  stored the zone name \<^verbatim>\<open>/UTC\<close>, for which \<^verbatim>\<open>ZoneInfo\<close> raises \<^verbatim>\<open>ValueError\<close>. The run
  ends with that exception and stores nothing, so the first reminder, which has no chat
  id to go to, is still unsent in the table.
\<close>

theorem malformed_zone_counterexample:
  "dispatch_due_reminders malformed_zone_env 100
     = (Inl ValueError,
        [\<lparr>r_id = Some 1, task_id = 5, remind_at = 10, sent = False\<rparr>,
         \<lparr>r_id = Some 2, task_id = 1, remind_at = 20, sent = False\<rparr>])
   \<and> recipient malformed_zone_env \<lparr>r_id = Some 1, task_id = 5, remind_at = 10, sent = False\<rparr>
       = None"
  by (simp add: dispatch_due_reminders_def dispatch_batch_def get_due_reminders_def Let_def
      recipient_def reminder_task_def task_user_def reminder_message_def ensure_timezone_def
      or_else_def malformed_zone_env_def sample_dispatch_env_def sample_task_def
      sample_user_def)

text \<open>
  Claim C8, amended. The loop of one run over a batch ends exactly when the message of
  every reminder that has a recipient can be composed; otherwise the exception of the
  first message that cannot be composed leaves the run, and nothing is stored. When the
  loop ends, the batch keeps its number and order; a reminder whose task, user or chat id
  is missing is marked as sent and not counted; a reminder whose delivery succeeds is
  marked as sent and counted; a reminder whose delivery raises is left as it was
  fetched, that is unsent, and the loop goes on with the next one; the number returned is
  the number of deliveries. The fetched reminders are the unsent rows of the table that
  are due, in the order of their instants and at most the batch size of them. After a run
  whose loop ends and whose commit succeeds, the rows of the table that were fetched carry
  these marks and the other rows are unchanged, the ids identifying the rows; after a
  commit that fails the table is unchanged.
\<close>

theorem dispatch_batch_marks:
  "(case dispatch_batch env batch of
      Inl e \<Rightarrow>
        \<not> list_all (composes env) batch
        \<and> (\<exists>i < length batch. list_all (composes env) (take i batch)
             \<and> (\<exists>t u chat. recipient env (batch ! i) = Some (t, u, chat)
                    \<and> reminder_message env t u = Inl e))
    | Inr (marked, n) \<Rightarrow>
        list_all (composes env) batch
        \<and> length marked = length batch
        \<and> (\<forall>i < length batch.
              marked ! i =
                (if recipient env (batch ! i) = None then (batch ! i)\<lparr>sent := True\<rparr>
                 else if delivered env (attempts_before env batch i) (batch ! i)
                      then (batch ! i)\<lparr>sent := True\<rparr>
                      else batch ! i))
        \<and> n = int (length (filter (\<lambda>i. delivered env (attempts_before env batch i) (batch ! i))
                              [0..<length batch])))
   \<and> (\<forall>r \<in> set (get_due_reminders env batch_size).
          \<not> sent r \<and> remind_at r \<le> utcnow env 0 \<and> r \<in> set (db_reminders env))
   \<and> length (get_due_reminders env batch_size)
       = min batch_size (length (filter (\<lambda>r. \<not> sent r \<and> remind_at r \<le> utcnow env 0)
                                   (db_reminders env)))
   \<and> sorted (map remind_at (get_due_reminders env batch_size))
   \<and> (case dispatch_batch env (get_due_reminders env batch_size) of
        Inl e \<Rightarrow> dispatch_due_reminders env batch_size = (Inl e, db_reminders env)
      | Inr (marked, n) \<Rightarrow>
          fst (dispatch_due_reminders env batch_size) = Inr n
          \<and> (\<not> commit_ok env \<longrightarrow>
                snd (dispatch_due_reminders env batch_size) = db_reminders env)
          \<and> (commit_ok env \<and> distinct (map r_id (db_reminders env)) \<longrightarrow>
                length (snd (dispatch_due_reminders env batch_size)) = length (db_reminders env)
                \<and> (\<forall>j < length (db_reminders env).
                      (db_reminders env ! j \<notin> set (get_due_reminders env batch_size) \<longrightarrow>
                         snd (dispatch_due_reminders env batch_size) ! j = db_reminders env ! j)
                      \<and> (\<forall>i < length (get_due_reminders env batch_size).
                            get_due_reminders env batch_size ! i = db_reminders env ! j \<longrightarrow>
                              snd (dispatch_due_reminders env batch_size) ! j = marked ! i))))"
proof -
  have em: "expected_mark env k r =
      (if recipient env r = None then r\<lparr>sent := True\<rparr>
       else if delivered env k r then r\<lparr>sent := True\<rparr> else r)" for k r
    by (simp add: expected_mark_def)
  have loop: "case dispatch_batch env b of
      Inl e \<Rightarrow>
        \<not> list_all (composes env) b
        \<and> (\<exists>i < length b. list_all (composes env) (take i b)
             \<and> (\<exists>t u chat. recipient env (b ! i) = Some (t, u, chat)
                    \<and> reminder_message env t u = Inl e))
    | Inr (marked, n) \<Rightarrow>
        list_all (composes env) b
        \<and> length marked = length b
        \<and> (\<forall>i < length b.
              marked ! i =
                (if recipient env (b ! i) = None then (b ! i)\<lparr>sent := True\<rparr>
                 else if delivered env (attempts_before env b i) (b ! i)
                      then (b ! i)\<lparr>sent := True\<rparr>
                      else b ! i))
        \<and> n = int (length (filter (\<lambda>i. delivered env (attempts_before env b i) (b ! i))
                              [0..<length b]))" for b
  proof (cases "dispatch_loop env b 0 0")
    case (Inl e)
    from dispatch_loop_returns [of env b 0 0] Inl have "\<not> list_all (composes env) b" by auto
    with dispatch_loop_aborts [OF Inl] Inl show ?thesis by (simp add: dispatch_batch_def)
  next
    case (Inr res)
    obtain marked n where res: "res = (marked, n)" by (cases res)
    from dispatch_loop_spec [OF Inr [unfolded res]] show ?thesis
      by (simp add: dispatch_batch_def Inr res em)
  qed
  define due where "due = get_due_reminders env batch_size"
  have run: "case dispatch_batch env due of
        Inl e \<Rightarrow> dispatch_due_reminders env batch_size = (Inl e, db_reminders env)
      | Inr (marked, n) \<Rightarrow>
          fst (dispatch_due_reminders env batch_size) = Inr n
          \<and> (\<not> commit_ok env \<longrightarrow>
                snd (dispatch_due_reminders env batch_size) = db_reminders env)
          \<and> (commit_ok env \<and> distinct (map r_id (db_reminders env)) \<longrightarrow>
                length (snd (dispatch_due_reminders env batch_size)) = length (db_reminders env)
                \<and> (\<forall>j < length (db_reminders env).
                      (db_reminders env ! j \<notin> set due \<longrightarrow>
                         snd (dispatch_due_reminders env batch_size) ! j = db_reminders env ! j)
                      \<and> (\<forall>i < length due.
                            due ! i = db_reminders env ! j \<longrightarrow>
                              snd (dispatch_due_reminders env batch_size) ! j = marked ! i)))"
  proof (cases "dispatch_batch env due")
    case (Inl e)
    then have "due \<noteq> []" by (auto simp: dispatch_batch_def)
    with Inl show ?thesis by (simp add: dispatch_due_reminders_def Let_def due_def)
  next
    case (Inr res)
    obtain marked n where res: "res = (marked, n)" by (cases res)
    note r = Inr [unfolded res]
    from r have spec: "length marked = length due"
      "\<forall>i < length due. marked ! i = expected_mark env (attempts_before env due i) (due ! i)"
      using dispatch_loop_spec [of env due 0 0 marked n] by (simp_all add: dispatch_batch_def)
    have empty: "marked = [] \<and> n = 0" if "due = []"
      using r that by (simp add: dispatch_batch_def)
    have fst_run: "fst (dispatch_due_reminders env batch_size) = Inr n"
      using r empty by (simp add: dispatch_due_reminders_def Let_def due_def [symmetric])
    have rollback: "snd (dispatch_due_reminders env batch_size) = db_reminders env"
      if "\<not> commit_ok env"
      using r that by (simp add: dispatch_due_reminders_def Let_def due_def [symmetric])
    have stored: "snd (dispatch_due_reminders env batch_size) =
        map (\<lambda>row. case find (\<lambda>m. r_id m = r_id row) marked of None \<Rightarrow> row | Some m \<Rightarrow> m)
          (db_reminders env)"
      if "commit_ok env"
    proof (cases "due = []")
      case True
      with empty have "marked = []" by simp
      with True show ?thesis
        by (simp add: dispatch_due_reminders_def Let_def due_def [symmetric] map_idI)
    next
      case False
      with r that show ?thesis
        by (simp add: dispatch_due_reminders_def Let_def due_def [symmetric])
    qed
    have table: "length (snd (dispatch_due_reminders env batch_size)) = length (db_reminders env)
          \<and> (\<forall>j < length (db_reminders env).
                (db_reminders env ! j \<notin> set due \<longrightarrow>
                   snd (dispatch_due_reminders env batch_size) ! j = db_reminders env ! j)
                \<and> (\<forall>i < length due.
                      due ! i = db_reminders env ! j \<longrightarrow>
                        snd (dispatch_due_reminders env batch_size) ! j = marked ! i))"
      if c: "commit_ok env" and d: "distinct (map r_id (db_reminders env))"
    proof -
      have sub: "set due \<subseteq> set (db_reminders env)"
        using get_due_reminders_rows [of _ env batch_size] by (auto simp: due_def)
      have dd: "distinct (map r_id due)"
        unfolding due_def by (rule get_due_reminders_distinct [OF d])
      have ids: "\<forall>i < length due. r_id (marked ! i) = r_id (due ! i)"
        using spec(2) by (simp add: expected_mark_id)
      from stored_rows [OF d sub dd spec(1) ids stored [OF c]] show ?thesis .
    qed
    from fst_run rollback table show ?thesis by (simp add: r)
  qed
  from loop [of batch] run get_due_reminders_rows [of _ env batch_size]
    get_due_reminders_order [of env batch_size]
  show ?thesis unfolding due_def by blast
qed

lemma sample_batch:
  "get_due_reminders sample_dispatch_env 100 =
      [\<lparr>r_id = Some 1, task_id = 1, remind_at = 10, sent = False\<rparr>,
       \<lparr>r_id = Some 2, task_id = 2, remind_at = 20, sent = False\<rparr>,
       \<lparr>r_id = Some 3, task_id = 3, remind_at = 30, sent = False\<rparr>,
       \<lparr>r_id = Some 4, task_id = 4, remind_at = 40, sent = False\<rparr>,
       \<lparr>r_id = Some 5, task_id = 5, remind_at = 50, sent = False\<rparr>]"
  by (simp add: get_due_reminders_def sample_dispatch_env_def Let_def)

theorem dispatch_batch_marks_witness:
  "dispatch_batch sample_dispatch_env (get_due_reminders sample_dispatch_env 100) =
      Inr ([\<lparr>r_id = Some 1, task_id = 1, remind_at = 10, sent = True\<rparr>,
            \<lparr>r_id = Some 2, task_id = 2, remind_at = 20, sent = False\<rparr>,
            \<lparr>r_id = Some 3, task_id = 3, remind_at = 30, sent = True\<rparr>,
            \<lparr>r_id = Some 4, task_id = 4, remind_at = 40, sent = True\<rparr>,
            \<lparr>r_id = Some 5, task_id = 5, remind_at = 50, sent = True\<rparr>], 2)
   \<and> fst (dispatch_due_reminders sample_dispatch_env 100) = Inr 2
   \<and> map sent (snd (dispatch_due_reminders sample_dispatch_env 100))
       = [True, False, True, True, True, False]
   \<and> commit_ok sample_dispatch_env
   \<and> distinct (map r_id (db_reminders sample_dispatch_env))
   \<and> list_all (composes sample_dispatch_env) (get_due_reminders sample_dispatch_env 100)"
proof -
  have run: "dispatch_batch sample_dispatch_env
      [\<lparr>r_id = Some 1, task_id = 1, remind_at = 10, sent = False\<rparr>,
       \<lparr>r_id = Some 2, task_id = 2, remind_at = 20, sent = False\<rparr>,
       \<lparr>r_id = Some 3, task_id = 3, remind_at = 30, sent = False\<rparr>,
       \<lparr>r_id = Some 4, task_id = 4, remind_at = 40, sent = False\<rparr>,
       \<lparr>r_id = Some 5, task_id = 5, remind_at = 50, sent = False\<rparr>] =
      Inr ([\<lparr>r_id = Some 1, task_id = 1, remind_at = 10, sent = True\<rparr>,
            \<lparr>r_id = Some 2, task_id = 2, remind_at = 20, sent = False\<rparr>,
            \<lparr>r_id = Some 3, task_id = 3, remind_at = 30, sent = True\<rparr>,
            \<lparr>r_id = Some 4, task_id = 4, remind_at = 40, sent = True\<rparr>,
            \<lparr>r_id = Some 5, task_id = 5, remind_at = 50, sent = True\<rparr>], 2)"
    by (simp add: dispatch_batch_def recipient_def reminder_task_def task_user_def
        reminder_message_def sample_dispatch_env_def sample_task_def sample_user_def)
  have table: "db_reminders sample_dispatch_env =
      [\<lparr>r_id = Some 1, task_id = 1, remind_at = 10, sent = False\<rparr>,
       \<lparr>r_id = Some 2, task_id = 2, remind_at = 20, sent = False\<rparr>,
       \<lparr>r_id = Some 3, task_id = 3, remind_at = 30, sent = False\<rparr>,
       \<lparr>r_id = Some 4, task_id = 4, remind_at = 40, sent = False\<rparr>,
       \<lparr>r_id = Some 5, task_id = 5, remind_at = 50, sent = False\<rparr>,
       \<lparr>r_id = Some 6, task_id = 1, remind_at = 200, sent = False\<rparr>]"
    "commit_ok sample_dispatch_env"
    by (simp_all add: sample_dispatch_env_def)
  have stored: "snd (dispatch_due_reminders sample_dispatch_env 100) =
      [\<lparr>r_id = Some 1, task_id = 1, remind_at = 10, sent = True\<rparr>,
       \<lparr>r_id = Some 2, task_id = 2, remind_at = 20, sent = False\<rparr>,
       \<lparr>r_id = Some 3, task_id = 3, remind_at = 30, sent = True\<rparr>,
       \<lparr>r_id = Some 4, task_id = 4, remind_at = 40, sent = True\<rparr>,
       \<lparr>r_id = Some 5, task_id = 5, remind_at = 50, sent = True\<rparr>,
       \<lparr>r_id = Some 6, task_id = 1, remind_at = 200, sent = False\<rparr>]"
    by (simp add: dispatch_due_reminders_def Let_def sample_batch run table)
  note inst = dispatch_batch_marks [of sample_dispatch_env
      "get_due_reminders sample_dispatch_env 100" 100, unfolded sample_batch run sum.case prod.case]
  from inst have marks: "list_all (composes sample_dispatch_env)
      [\<lparr>r_id = Some 1, task_id = 1, remind_at = 10, sent = False\<rparr>,
       \<lparr>r_id = Some 2, task_id = 2, remind_at = 20, sent = False\<rparr>,
       \<lparr>r_id = Some 3, task_id = 3, remind_at = 30, sent = False\<rparr>,
       \<lparr>r_id = Some 4, task_id = 4, remind_at = 40, sent = False\<rparr>,
       \<lparr>r_id = Some 5, task_id = 5, remind_at = 50, sent = False\<rparr>]"
    and number: "fst (dispatch_due_reminders sample_dispatch_env 100) = Inr 2"
    by blast+
  from run marks number stored table show ?thesis by (simp add: sample_batch)
qed

section \<open>Scheduling is idempotent\<close>

lemma schedule_existing:
  assumes "has_reminder db tid when"
  shows "snd (schedule db tid when) = db"
    and "fst (schedule db tid when) \<in> set (reminders db)"
    and "task_id (fst (schedule db tid when)) = tid"
    and "remind_at (fst (schedule db tid when)) = instant_of when"
proof -
  from assms obtain r where
    r: "find (\<lambda>r. task_id r = tid \<and> remind_at r = instant_of when) (reminders db) = Some r"
    by (cases "find (\<lambda>r. task_id r = tid \<and> remind_at r = instant_of when) (reminders db)")
      (auto simp: has_reminder_def find_None_iff list_ex_iff)
  then have "r \<in> set (reminders db)" "task_id r = tid" "remind_at r = instant_of when"
    by (auto simp: find_Some_iff)
  with r show "snd (schedule db tid when) = db"
    and "fst (schedule db tid when) \<in> set (reminders db)"
    and "task_id (fst (schedule db tid when)) = tid"
    and "remind_at (fst (schedule db tid when)) = instant_of when"
    by (simp_all add: schedule_def)
qed

lemma schedule_has_reminder: "has_reminder (snd (schedule db tid when)) tid when"
proof (cases "has_reminder db tid when")
  case True
  then show ?thesis by (simp add: schedule_existing(1))
next
  case False
  then have "find (\<lambda>r. task_id r = tid \<and> remind_at r = instant_of when) (reminders db) = None"
    by (simp add: has_reminder_def find_None_iff list_ex_iff)
  then show ?thesis by (simp add: schedule_def Let_def has_reminder_def)
qed

lemma schedule_keeps:
  "has_reminder db tid w \<Longrightarrow> has_reminder (snd (schedule db tid' when)) tid w"
  by (cases "find (\<lambda>r. task_id r = tid' \<and> remind_at r = instant_of when) (reminders db)")
    (auto simp: schedule_def Let_def has_reminder_def list_ex_iff)

lemma schedule_all_has_reminders:
  "(\<forall>w \<in> set ws. has_reminder (snd (schedule_all db tid ws acc)) tid w)
   \<and> (\<forall>w. has_reminder db tid w \<longrightarrow> has_reminder (snd (schedule_all db tid ws acc)) tid w)"
proof (induction ws arbitrary: db acc)
  case Nil
  then show ?case by simp
next
  case (Cons w ws)
  define db' where "db' = snd (schedule db tid w)"
  define r where "r = fst (schedule db tid w)"
  have step: "schedule_all db tid (w # ws) acc = schedule_all db' tid ws (acc @ [r])"
    by (simp add: db'_def r_def split_def Let_def)
  have "has_reminder db' tid w" unfolding db'_def by (rule schedule_has_reminder)
  moreover have "has_reminder db tid v \<longrightarrow> has_reminder db' tid v" for v
    unfolding db'_def by (simp add: schedule_keeps)
  ultimately show ?case
    unfolding step using Cons.IH [of db' "acc @ [r]"] by auto
qed

lemma schedule_all_noop:
  "\<forall>w \<in> set ws. has_reminder db tid w \<Longrightarrow> snd (schedule_all db tid ws acc) = db"
proof (induction ws arbitrary: acc)
  case Nil
  then show ?case by simp
next
  case (Cons w ws)
  then have "has_reminder db tid w" by simp
  then have "snd (schedule db tid w) = db" by (rule schedule_existing(1))
  then have "schedule_all db tid (w # ws) acc
      = schedule_all db tid ws (acc @ [fst (schedule db tid w)])"
    by (simp add: split_def Let_def)
  with Cons show ?case by simp
qed

lemma schedule_all_results:
  "\<forall>w \<in> set ws. has_reminder db tid w \<Longrightarrow> set acc \<subseteq> set (reminders db) \<Longrightarrow>
   set (fst (schedule_all db tid ws acc)) \<subseteq> set (reminders db)"
proof (induction ws arbitrary: acc)
  case Nil
  then show ?case by simp
next
  case (Cons w ws)
  then have w: "has_reminder db tid w" by simp
  then have same: "snd (schedule db tid w) = db" by (rule schedule_existing(1))
  from w have "fst (schedule db tid w) \<in> set (reminders db)" by (rule schedule_existing(2))
  with Cons.prems have acc: "set (acc @ [fst (schedule db tid w)]) \<subseteq> set (reminders db)" by simp
  from same have "schedule_all db tid (w # ws) acc
      = schedule_all db tid ws (acc @ [fst (schedule db tid w)])"
    by (simp add: split_def Let_def)
  with Cons.IH [OF _ acc] Cons.prems(1) show ?case by simp
qed


lemma default_times_loop_later:
  "default_times_loop int_of_str now1 due items acc1 = Inr found1 \<Longrightarrow> now1 \<le> now2 \<Longrightarrow>
   set acc2 \<subseteq> set acc1 \<Longrightarrow>
   \<exists>found2. default_times_loop int_of_str now2 due items acc2 = Inr found2
             \<and> set found2 \<subseteq> set found1"
proof (induction items arbitrary: acc1 acc2)
  case Nil
  then show ?case by simp
next
  case (Cons offset rest)
  show ?case
  proof (cases "py_int int_of_str offset")
    case (Inl e)
    with Cons.prems(1) have skip: "e = TypeError \<or> e = ValueError"
      and run: "default_times_loop int_of_str now1 due rest acc1 = Inr found1"
      by (simp_all split: if_splits)
    from Cons.IH [OF run Cons.prems(2,3)] Inl skip show ?thesis by auto
  next
    case (Inr n)
    define remind_at where "remind_at = due\<lparr>wall := wall due - td_minutes n\<rparr>"
    show ?thesis
    proof (cases "now2 < instant_of remind_at")
      case True
      with Cons.prems(2) have "now1 < instant_of remind_at" by simp
      with Cons.prems(1) Inr have run:
        "default_times_loop int_of_str now1 due rest (acc1 @ [remind_at]) = Inr found1"
        by (simp add: remind_at_def Let_def)
      from Cons.prems(3) have "set (acc2 @ [remind_at]) \<subseteq> set (acc1 @ [remind_at])" by auto
      from Cons.IH [OF run Cons.prems(2) this] True Inr show ?thesis
        by (simp add: remind_at_def Let_def)
    next
      case False
      show ?thesis
      proof (cases "now1 < instant_of remind_at")
        case True
        with Cons.prems(1) Inr have run:
          "default_times_loop int_of_str now1 due rest (acc1 @ [remind_at]) = Inr found1"
          by (simp add: remind_at_def Let_def)
        from Cons.prems(3) have "set acc2 \<subseteq> set (acc1 @ [remind_at])" by auto
        from Cons.IH [OF run Cons.prems(2) this] False Inr show ?thesis
          by (simp add: remind_at_def Let_def)
      next
        case n1: False
        with Cons.prems(1) Inr have run:
          "default_times_loop int_of_str now1 due rest acc1 = Inr found1"
          by (simp add: remind_at_def Let_def)
        from Cons.IH [OF run Cons.prems(2,3)] False Inr show ?thesis
          by (simp add: remind_at_def Let_def)
      qed
    qed
  qed
qed

lemma compute_default_times_later:
  assumes "compute_default_times int_of_str now1 due usr = Inr found1" "now1 \<le> now2"
  shows "\<exists>found2. compute_default_times int_of_str now2 due usr = Inr found2
                   \<and> set found2 \<subseteq> set found1"
proof (cases due)
  case None
  with assms show ?thesis by (simp add: compute_default_times_def)
next
  case (Some d)
  define due' where "due' = (if tzinfo d = None then d\<lparr>tzinfo := Some tz_utc\<rparr> else d)"
  define prefs where "prefs = (case usr of None \<Rightarrow> [] | Some u \<Rightarrow> preferences u)"
  define offsets where "offsets = (case map_of prefs ''default_reminder_minutes'' of
                            None \<Rightarrow> PList [PInt 30] | Some v \<Rightarrow> v)"
  define norm where "norm = (if is_number offsets
                          then (case py_int int_of_str offsets of
                                  Inl e \<Rightarrow> Inl e
                                | Inr n \<Rightarrow> Inr (PList [PInt n]))
                          else Inr offsets)"
  have eq: "compute_default_times int_of_str now due usr =
      (case norm of
         Inl e \<Rightarrow> Inl e
       | Inr offsets \<Rightarrow>
           (case py_iter offsets of
              Inl e \<Rightarrow> Inl e
            | Inr items \<Rightarrow>
                (case default_times_loop int_of_str now due' items [] of
                   Inl e \<Rightarrow> Inl e
                 | Inr found \<Rightarrow> Inr (sort_key wall found))))" for now
    unfolding compute_default_times_def Some option.case Let_def due'_def prefs_def offsets_def
      norm_def
    by (rule refl)
  from assms(1) obtain offs items raw1 where
    n: "norm = Inr offs" and it: "py_iter offs = Inr items"
    and l1: "default_times_loop int_of_str now1 due' items [] = Inr raw1"
    and f1: "found1 = sort_key wall raw1"
    unfolding eq by (auto split: sum.splits)
  from default_times_loop_later [OF l1 assms(2), of "[]"] obtain raw2 where
    "default_times_loop int_of_str now2 due' items [] = Inr raw2" "set raw2 \<subseteq> set raw1"
    by auto
  with n it f1 show ?thesis unfolding eq by simp
qed

text \<open>
  Claim C10. When the table already holds a reminder of the task at the instant,
  \<open>schedule\<close> leaves the table as it is and returns a reminder of the table with that task
  and instant. So a second call of \<open>schedule_default_reminders\<close> on the same task and user,
  at a clock reading that is not earlier, succeeds and adds no reminder to the table the
  first call left.
\<close>

theorem schedule_idempotent:
  "(list_ex (\<lambda>r. task_id r = tid \<and> remind_at r = instant_of when) (reminders db) \<longrightarrow>
      snd (schedule db tid when) = db
      \<and> fst (schedule db tid when) \<in> set (reminders db)
      \<and> task_id (fst (schedule db tid when)) = tid
      \<and> remind_at (fst (schedule db tid when)) = instant_of when)
   \<and> (schedule_default_reminders db int_of_str now1 t usr = Inr (rs1, db1) \<and> now1 \<le> now2 \<longrightarrow>
        (\<exists>rs2. schedule_default_reminders db1 int_of_str now2 t usr = Inr (rs2, db1)
                \<and> set rs2 \<subseteq> set (reminders db1)))"
proof -
  have again: "\<exists>rs2. schedule_default_reminders db1 int_of_str now2 t usr = Inr (rs2, db1)
                \<and> set rs2 \<subseteq> set (reminders db1)"
    if first: "schedule_default_reminders db int_of_str now1 t usr = Inr (rs1, db1)"
      and later: "now1 \<le> now2"
  proof -
    from first obtain found1 where
      c1: "compute_default_times int_of_str now1 (map_option aware_utc (due_at t)) usr = Inr found1"
      and s1: "schedule_all db (t_id t) found1 [] = (rs1, db1)"
      by (auto simp: schedule_default_reminders_def split: sum.splits)
    from compute_default_times_later [OF c1 later] obtain found2 where
      c2: "compute_default_times int_of_str now2 (map_option aware_utc (due_at t)) usr = Inr found2"
      and sub: "set found2 \<subseteq> set found1"
      by auto
    from schedule_all_has_reminders [of found1 db "t_id t" "[]"] s1
    have "\<forall>w \<in> set found1. has_reminder db1 (t_id t) w" by simp
    with sub have present: "\<forall>w \<in> set found2. has_reminder db1 (t_id t) w" by auto
    from schedule_all_noop [OF present, of "[]"] schedule_all_results [OF present, of "[]"]
    have "snd (schedule_all db1 (t_id t) found2 []) = db1"
      "set (fst (schedule_all db1 (t_id t) found2 [])) \<subseteq> set (reminders db1)"
      by simp_all
    with c2 show ?thesis
      by (cases "schedule_all db1 (t_id t) found2 []") (simp add: schedule_default_reminders_def)
  qed
  from again schedule_existing [of db tid "when"] show ?thesis
    by (simp add: has_reminder_def)
qed

theorem schedule_idempotent_witness:
  "schedule_default_reminders \<lparr>reminders = [], next_reminder_id = 1\<rparr> sample_int_of_str 0
       (sample_task 1 (Some ''pending'') (Some (td_hours 2)) None) None
     = Inr ([\<lparr>r_id = Some 1, task_id = 1, remind_at = td_hours 2 - td_minutes 30, sent = False\<rparr>],
            \<lparr>reminders = [\<lparr>r_id = Some 1, task_id = 1, remind_at = td_hours 2 - td_minutes 30,
                           sent = False\<rparr>],
             next_reminder_id = 2\<rparr>)
   \<and> (\<exists>rs2. schedule_default_reminders
               \<lparr>reminders = [\<lparr>r_id = Some 1, task_id = 1, remind_at = td_hours 2 - td_minutes 30,
                              sent = False\<rparr>],
                next_reminder_id = 2\<rparr> sample_int_of_str (td_minutes 10)
               (sample_task 1 (Some ''pending'') (Some (td_hours 2)) None) None
             = Inr (rs2, \<lparr>reminders = [\<lparr>r_id = Some 1, task_id = 1,
                                        remind_at = td_hours 2 - td_minutes 30, sent = False\<rparr>],
                          next_reminder_id = 2\<rparr>))"
proof -
  have first: "schedule_default_reminders \<lparr>reminders = [], next_reminder_id = 1\<rparr> sample_int_of_str 0
       (sample_task 1 (Some ''pending'') (Some (td_hours 2)) None) None
     = Inr ([\<lparr>r_id = Some 1, task_id = 1, remind_at = td_hours 2 - td_minutes 30, sent = False\<rparr>],
            \<lparr>reminders = [\<lparr>r_id = Some 1, task_id = 1, remind_at = td_hours 2 - td_minutes 30,
                           sent = False\<rparr>],
             next_reminder_id = 2\<rparr>)"
    by (simp add: schedule_default_reminders_def compute_default_times_def sample_task_def
        aware_utc_def Let_def instant_of_def tz_utc_def tz_fixed_def td_hours_def td_minutes_def
        schedule_def)
  have later: "(0::int) \<le> td_minutes 10" by (simp add: td_minutes_def)
  from first later
    schedule_idempotent [of 1 "aware_utc 0" "\<lparr>reminders = [], next_reminder_id = 1\<rparr>"
      sample_int_of_str 0 "sample_task 1 (Some ''pending'') (Some (td_hours 2)) None" None
      "[\<lparr>r_id = Some 1, task_id = 1, remind_at = td_hours 2 - td_minutes 30, sent = False\<rparr>]"
      "\<lparr>reminders = [\<lparr>r_id = Some 1, task_id = 1, remind_at = td_hours 2 - td_minutes 30,
                     sent = False\<rparr>],
        next_reminder_id = 2\<rparr>" "td_minutes 10"]
  show ?thesis by blast
qed

end
